theory Spec2Isabelle
  imports Complex_Main "HOL-Library.Word"
begin

unbundle bit_operations_syntax

section \<open>Data model\<close>

text \<open>
  The program of \<^verbatim>\<open>cmd/fetch_private_channels.go\<close> copies a zip archive and, when the
  archive has no \<^verbatim>\<open>groups.json\<close>, fetches the private channels, their histories and
  their thread replies from three paginated endpoints. The progress messages of
  \<^verbatim>\<open>verbosePrintln\<close> and the texts printed before an exit change nothing of what the
  program computes and are left out.

  A decoded JSON value is what \<^verbatim>\<open>encoding/json\<close> stores in an \<^verbatim>\<open>interface{}\<close>:
  nil, bool, float64, string, a slice or a map. The numeric value of a float64 is never
  computed with, only its dynamic type is tested, so it is kept as a rational.
\<close>

datatype json =
    JNull
  | JBool bool
  | JNum rat
  | JStr string
  | JArr "json list"
  | JObj "string \<Rightarrow> json option"

text \<open>\<^verbatim>\<open>map[string]interface{}\<close>: one channel or one message.\<close>

type_synonym json_map = "string \<Rightarrow> json option"

text \<open>
  The type assertions \<^verbatim>\<open>v.(string)\<close> and \<^verbatim>\<open>v.(float64)\<close> on the result of a map
  lookup. A missing key gives the nil interface, on which every assertion fails, as it
  does on a JSON null.
\<close>

fun assert_string :: "json option \<Rightarrow> string option" where
  "assert_string (Some (JStr s)) = Some s"
| "assert_string _ = None"

fun assert_float64 :: "json option \<Rightarrow> rat option" where
  "assert_float64 (Some (JNum x)) = Some x"
| "assert_float64 _ = None"

subsection \<open>Errors\<close>

text \<open>
  The error values of the program. \<open>New\<close> is \<^verbatim>\<open>errors.New\<close> with its text,
  \<open>HttpCode\<close> is \<^verbatim>\<open>fmt.Errorf("Slack API returned HTTP code %d", code)\<close>; the others
  come out of the libraries: \<open>Transport\<close> from \<^verbatim>\<open>client.Do\<close>, \<open>Decode\<close> from the JSON
  decoder, \<open>Zip\<close> from creating an archive entry, \<open>Write\<close> from writing to one,
  \<open>Read\<close> from reading an entry of the input archive.
\<close>

datatype error =
    New string
  | HttpCode int
  | Transport string
  | Decode
  | Zip string
  | Write string
  | Read string

definition lack_of_ok :: error where
  "lack_of_ok = New ''unexpected lack of ok=true in Slack API response. Is access token correct?''"

subsection \<open>The remote API\<close>

text \<open>A GET request: the URL, the query parameters in the order they are added, and
  the Authorization header.\<close>

record request =
  Url :: string
  Query :: "(string \<times> string) list"
  Authorization :: string

text \<open>
  The struct \<open>data\<close> each loop decodes a body into. \<open>Records\<close> is the field
  \<^verbatim>\<open>Channels\<close> of the listing loop and the field \<^verbatim>\<open>Messages\<close> of the two others.
\<close>

record data =
  Ok :: bool
  Records :: "json_map list"
  NextCursor :: string

text \<open>
  What \<^verbatim>\<open>client.Do\<close> gives: an error, or a response with its status code and the
  result of decoding its body into the struct of the calling loop (\<open>None\<close> when the
  decoder reports an error).
\<close>

datatype response =
    Failed string
  | Response int "data option"

subsection \<open>Archives\<close>

type_synonym byte = "8 word"

text \<open>
  A \<^verbatim>\<open>time.Time\<close>, by what the archive writer observes of it: the Unix seconds of
  the instant, and the wall clock in the location of the value.
\<close>

record time =
  Unix :: int
  Year :: int
  Month :: int
  Day :: int
  Hour :: int
  Minute :: int
  Second :: int

text \<open>
  \<^verbatim>\<open>zip.FileHeader\<close> of the package \<^verbatim>\<open>archive/zip\<close> of the standard library, whose
  writer is modelled after its source. \<open>Modified\<close> is \<open>None\<close> for the zero time. The
  checksum and the sizes, which the writer computes from the data when it closes an
  entry, are not part of the record.
\<close>

record file_header =
  Name :: string
  Comment :: string
  NonUTF8 :: bool
  CreatorVersion :: "16 word"
  ReaderVersion :: "16 word"
  Flags :: "16 word"
  Method :: "16 word"
  Modified :: "time option"
  ModifiedTime :: "16 word"
  ModifiedDate :: "16 word"
  Extra :: "byte list"
  ExternalAttrs :: "32 word"

text \<open>
  The reader \<^verbatim>\<open>file.Open\<close> returns: the bytes it delivers, and whether it ends with an
  error (a wrong checksum, corrupt data) where the end of the file should be.
\<close>

record reader =
  Delivered :: "byte list"
  ReadError :: bool

text \<open>An entry of the input archive: its header, and the reader \<^verbatim>\<open>file.Open\<close> gives
  (\<open>None\<close> when the entry cannot be opened).\<close>

record src_file =
  FileHeader :: file_header
  Open :: "reader option"

text \<open>
  What has been written into an entry of the output archive: bytes copied by
  \<^verbatim>\<open>io.Copy\<close>, or the output of a JSON encoder (indent of four spaces) for a sequence
  of records.
\<close>

datatype chunk =
    Bytes "byte list"
  | Encoded "json_map list"

text \<open>An entry of the output archive: the header the writer keeps for it, which goes
  into the local header and into the directory of the archive, and what was written.\<close>

record entry =
  Header :: file_header
  Body :: "chunk list"

subsection \<open>The world\<close>

text \<open>
  The remote side is a script: the responses it will give, in the order of the requests.
  \<open>Sent\<close> is the log of the requests issued so far, \<open>Entries\<close> the entries of the output
  archive in the order of their creation, \<open>Closed\<close> whether the archive writer was closed.
\<close>

record world =
  Pending :: "response list"
  Sent :: "request list"
  Entries :: "entry list"
  Closed :: bool

text \<open>
  The failures of the file system and of the archive writer, which the program cannot
  influence: the headers for which creating an entry fails (a name or an extra field
  that is too long, a method without a compressor, a failed write of the local header),
  the names of the entries to which writing fails (a failed write of the output file),
  whether the output file can be created and whether closing the writer fails.
\<close>

record env =
  CreateFails :: "file_header \<Rightarrow> bool"
  WriteFails :: "string \<Rightarrow> bool"
  OutputFails :: bool
  CloseFails :: bool

text \<open>
  \<^verbatim>\<open>client.Do(req)\<close>: logs the request and takes the next response of the script.
  When the script is exhausted the call has no answer: \<open>None\<close> stands for a call that
  does not return.
\<close>

definition client_Do :: "request \<Rightarrow> world \<Rightarrow> response option \<times> world" where
  "client_Do req w =
     (case Pending w of
        [] \<Rightarrow> (None, w\<lparr>Sent := Sent w @ [req]\<rparr>)
      | r # rs \<Rightarrow> (Some r, w\<lparr>Pending := rs, Sent := Sent w @ [req]\<rparr>))"

text \<open>
  \<^verbatim>\<open>detectUTF8\<close> of \<^verbatim>\<open>archive/zip\<close>: whether a string is valid UTF-8, and whether it
  has a character outside of the printable ASCII range (the backslash counts as
  outside). \<open>utf8_accept\<close> reads the bytes with the ranges that the bytes of the
  current character still have to be in.
\<close>

fun utf8_accept :: "(nat \<times> nat) list \<Rightarrow> nat list \<Rightarrow> bool" where
  "utf8_accept [] [] = True"
| "utf8_accept (r # rs) [] = False"
| "utf8_accept (r # rs) (b # bs) = (fst r \<le> b \<and> b \<le> snd r \<and> utf8_accept rs bs)"
| "utf8_accept [] (b # bs) =
     (if b < 0x80 then utf8_accept [] bs
      else if 0xC2 \<le> b \<and> b \<le> 0xDF then utf8_accept [(0x80, 0xBF)] bs
      else if b = 0xE0 then utf8_accept [(0xA0, 0xBF), (0x80, 0xBF)] bs
      else if (0xE1 \<le> b \<and> b \<le> 0xEC) \<or> b = 0xEE \<or> b = 0xEF
        then utf8_accept [(0x80, 0xBF), (0x80, 0xBF)] bs
      else if b = 0xED then utf8_accept [(0x80, 0x9F), (0x80, 0xBF)] bs
      else if b = 0xF0 then utf8_accept [(0x90, 0xBF), (0x80, 0xBF), (0x80, 0xBF)] bs
      else if 0xF1 \<le> b \<and> b \<le> 0xF3 then utf8_accept [(0x80, 0xBF), (0x80, 0xBF), (0x80, 0xBF)] bs
      else if b = 0xF4 then utf8_accept [(0x80, 0x8F), (0x80, 0xBF), (0x80, 0xBF)] bs
      else False)"

definition detectUTF8 :: "string \<Rightarrow> bool \<times> bool" where
  "detectUTF8 s =
     (if utf8_accept [] (map of_char s)
      then (True, list_ex (\<lambda>c. (of_char c :: nat) < 0x20 \<or> 0x7d < (of_char c :: nat)
                                 \<or> (of_char c :: nat) = 0x5c) s)
      else (False, False))"

text \<open>\<^verbatim>\<open>timeToMsDosTime\<close>, and the extended timestamp field the writer appends to
  \<open>Extra\<close>: its identifier 0x5455, its size 5, the flag of a modification time and the
  Unix seconds as a 32-bit number, in little-endian order.\<close>

definition timeToMsDosTime :: "time \<Rightarrow> 16 word \<times> 16 word" where
  "timeToMsDosTime t =
     (word_of_int (Day t + Month t * 32 + (Year t - 1980) * 512),
      word_of_int (Second t div 2 + Minute t * 32 + Hour t * 2048))"

definition extended_timestamp :: "time \<Rightarrow> byte list" where
  "extended_timestamp t =
     (let mt = (word_of_int (Unix t) :: 32 word) in
      [0x55, 0x54, 0x05, 0x00, 0x01,
       ucast mt, ucast (drop_bit 8 mt), ucast (drop_bit 16 mt), ucast (drop_bit 24 mt)])"

text \<open>\<^verbatim>\<open>strings.HasSuffix(fh.Name, "/")\<close>: the name of a directory entry.\<close>

definition is_directory :: "string \<Rightarrow> bool" where
  "is_directory name = (name \<noteq> [] \<and> last name = CHR ''/'')"

text \<open>
  What \<^verbatim>\<open>CreateHeader\<close> makes of the header it is given, which it changes in place (the
  copy loop passes it a copy of the header of the input entry for this reason). It
  sets or clears the UTF-8 flag (0x800), sets the two versions to 20 (the upper byte
  of the creator version stays), derives the MS-DOS date and time from \<open>Modified\<close>
  and appends the extended timestamp to \<open>Extra\<close> when \<open>Modified\<close> is not the zero
  time. For a directory entry it sets the method to Store (0) and clears the flag of a
  data descriptor (8); for every other entry it sets this flag. An entry of 4 GiB or
  more, for which the writer raises the reader version when the entry is closed, is
  outside of the model.
\<close>

definition written_header :: "file_header \<Rightarrow> file_header" where
  "written_header fh =
     (let (utf8Valid1, utf8Require1) = detectUTF8 (Name fh);
          (utf8Valid2, utf8Require2) = detectUTF8 (Comment fh);
          flags = (if NonUTF8 fh then Flags fh AND NOT 0x800
                   else if (utf8Require1 \<or> utf8Require2) \<and> (utf8Valid1 \<and> utf8Valid2)
                     then Flags fh OR 0x800
                   else Flags fh);
          fh1 = fh\<lparr>CreatorVersion := (CreatorVersion fh AND 0xff00) OR 20, ReaderVersion := 20\<rparr>;
          fh2 = (case Modified fh of
                   None \<Rightarrow> fh1
                 | Some t \<Rightarrow> fh1\<lparr>ModifiedDate := fst (timeToMsDosTime t),
                                  ModifiedTime := snd (timeToMsDosTime t),
                                  Extra := Extra fh @ extended_timestamp t\<rparr>)
      in if is_directory (Name fh) then fh2\<lparr>Method := 0, Flags := flags AND NOT 8\<rparr>
         else fh2\<lparr>Flags := flags OR 8\<rparr>)"

text \<open>
  \<^verbatim>\<open>w.CreateHeader(&header)\<close> appends an entry with the header as it has rewritten it
  and returns a writer for the entry, here the index of the entry.
  \<^verbatim>\<open>w.Create(name)\<close> is \<^verbatim>\<open>CreateHeader\<close> on a fresh header with that name and the
  Deflate method (8), every other field zero.
\<close>

definition zip_CreateHeader :: "env \<Rightarrow> file_header \<Rightarrow> world \<Rightarrow> (error + nat) \<times> world" where
  "zip_CreateHeader env fh w =
     (if CreateFails env fh then (Inl (Zip (Name fh)), w)
      else (Inr (length (Entries w)),
            w\<lparr>Entries := Entries w @ [\<lparr>Header = written_header fh, Body = []\<rparr>]\<rparr>))"

definition fresh_header :: "string \<Rightarrow> file_header" where
  "fresh_header name =
     \<lparr>Name = name, Comment = [], NonUTF8 = False, CreatorVersion = 0, ReaderVersion = 0,
      Flags = 0, Method = 8, Modified = None, ModifiedTime = 0, ModifiedDate = 0, Extra = [],
      ExternalAttrs = 0\<rparr>"

definition zip_Create :: "env \<Rightarrow> string \<Rightarrow> world \<Rightarrow> (error + nat) \<times> world" where
  "zip_Create env name w = zip_CreateHeader env (fresh_header name) w"

text \<open>
  A write through the writer \<open>out\<close>. The archive writer closes the writer of an entry when
  the next entry is created, so only the last entry can be written to.
\<close>

definition write_chunk :: "env \<Rightarrow> nat \<Rightarrow> chunk \<Rightarrow> world \<Rightarrow> error option \<times> world" where
  "write_chunk env out c w =
     (if Suc out = length (Entries w) \<and> \<not> WriteFails env (Name (Header (Entries w ! out)))
      then (None, w\<lparr>Entries := (Entries w)[out := (Entries w ! out)\<lparr>Body := Body (Entries w ! out) @ [c]\<rparr>]\<rparr>)
      else (Some (Write (if out < length (Entries w) then Name (Header (Entries w ! out)) else [])), w))"

text \<open>\<^verbatim>\<open>enc.SetIndent("", "    "); enc.Encode(&res)\<close>. The program encodes into
  entries it has made with \<^verbatim>\<open>w.Create\<close> under a name that ends in \<^verbatim>\<open>.json\<close>, never
  into a directory entry.\<close>

definition encode :: "env \<Rightarrow> nat \<Rightarrow> json_map list \<Rightarrow> world \<Rightarrow> error option \<times> world" where
  "encode env out res w = write_chunk env out (Encoded res) w"

section \<open>The paginated fetches\<close>

subsection \<open>fetchPrivateChannelsList\<close>

definition list_request :: "string \<Rightarrow> string \<Rightarrow> request" where
  "list_request token cursor =
     \<lparr>Url = ''https://slack.com/api/conversations.list'',
      Query = [(''limit'', ''1000''), (''types'', ''private_channel'')]
              @ (if cursor \<noteq> [] then [(''cursor'', cursor)] else []),
      Authorization = ''Bearer '' @ token\<rparr>"

text \<open>
  The \<^verbatim>\<open>for\<close> loop of \<^verbatim>\<open>fetchPrivateChannelsList\<close>, with its variables \<open>cursor\<close> and
  \<open>res\<close>: \<open>Inl\<close> is an early \<^verbatim>\<open>return nil, err\<close>, \<open>Inr\<close> the value of \<open>res\<close> at the
  \<^verbatim>\<open>break\<close>. \<^verbatim>\<open>http.NewRequest\<close> is called with the method GET and a constant, well-formed
  URL, for which it returns no error.
\<close>

function list_loop :: "string \<Rightarrow> string \<Rightarrow> json_map list \<Rightarrow> world \<Rightarrow> (error + json_map list) option \<times> world" where
  "list_loop token cursor res w =
     (case client_Do (list_request token cursor) w of
        (None, w') \<Rightarrow> (None, w')
      | (Some (Failed e), w') \<Rightarrow> (Some (Inl (Transport e)), w')
      | (Some (Response code body), w') \<Rightarrow>
          if code \<noteq> 200 then (Some (Inl (HttpCode code)), w')
          else (case body of
                  None \<Rightarrow> (Some (Inl Decode), w')
                | Some d \<Rightarrow>
                    if \<not> Ok d then (Some (Inl lack_of_ok), w')
                    else if NextCursor d = [] then (Some (Inr (res @ Records d)), w')
                    else list_loop token (NextCursor d) (res @ Records d) w'))"
  by pat_completeness auto
termination
  by (relation "measure (\<lambda>(token, cursor, res, w). length (Pending w))")
     (auto simp: client_Do_def split: list.splits)

declare list_loop.simps [simp del]

text \<open>The Go function returns the pair \<open>(res, err)\<close>; a nil slice is the empty list.\<close>

definition fetchPrivateChannelsList :: "string \<Rightarrow> world \<Rightarrow> (json_map list \<times> error option) option \<times> world" where
  "fetchPrivateChannelsList token w =
     (case list_loop token [] [] w of
        (None, w') \<Rightarrow> (None, w')
      | (Some (Inl err), w') \<Rightarrow> (Some ([], Some err), w')
      | (Some (Inr res), w') \<Rightarrow> (Some (res, None), w'))"

subsection \<open>fetchChannelHistory\<close>

definition history_request :: "string \<Rightarrow> string \<Rightarrow> string \<Rightarrow> request" where
  "history_request token channelId cursor =
     \<lparr>Url = ''https://slack.com/api/conversations.history'',
      Query = [(''limit'', ''200''), (''channel'', channelId)]
              @ (if cursor \<noteq> [] then [(''cursor'', cursor)] else []),
      Authorization = ''Bearer '' @ token\<rparr>"

text \<open>
  The inner loop over \<^verbatim>\<open>data.Messages\<close>: the \<open>ts\<close> of a message is appended when its
  \<open>reply_count\<close> is a float64 and its \<open>ts\<close> is a string.
\<close>

fun scan_messages :: "json_map list \<Rightarrow> string list \<Rightarrow> string list" where
  "scan_messages [] ts_ids = ts_ids"
| "scan_messages (message # messages) ts_ids =
     (case assert_float64 (message ''reply_count'') of
        None \<Rightarrow> scan_messages messages ts_ids
      | Some _ \<Rightarrow>
          (case assert_string (message ''ts'') of
             None \<Rightarrow> scan_messages messages ts_ids
           | Some id' \<Rightarrow> scan_messages messages (ts_ids @ [id'])))"

text \<open>The \<^verbatim>\<open>for\<close> loop of \<^verbatim>\<open>fetchChannelHistory\<close>, with its variables \<open>cursor\<close>,
  \<open>res\<close> and \<open>ts_ids\<close>.\<close>

function history_loop :: "string \<Rightarrow> string \<Rightarrow> string \<Rightarrow> json_map list \<Rightarrow> string list \<Rightarrow> world
    \<Rightarrow> (error + json_map list \<times> string list) option \<times> world" where
  "history_loop token channelId cursor res ts_ids w =
     (case client_Do (history_request token channelId cursor) w of
        (None, w') \<Rightarrow> (None, w')
      | (Some (Failed e), w') \<Rightarrow> (Some (Inl (Transport e)), w')
      | (Some (Response code body), w') \<Rightarrow>
          if code \<noteq> 200 then (Some (Inl (HttpCode code)), w')
          else (case body of
                  None \<Rightarrow> (Some (Inl Decode), w')
                | Some d \<Rightarrow>
                    if \<not> Ok d then (Some (Inl lack_of_ok), w')
                    else if NextCursor d = []
                      then (Some (Inr (res @ Records d, scan_messages (Records d) ts_ids)), w')
                    else history_loop token channelId (NextCursor d) (res @ Records d)
                           (scan_messages (Records d) ts_ids) w'))"
  by pat_completeness auto
termination
  by (relation "measure (\<lambda>(token, channelId, cursor, res, ts_ids, w). length (Pending w))")
     (auto simp: client_Do_def split: list.splits)

declare history_loop.simps [simp del]

text \<open>The Go function returns the pair \<open>(ts_ids, err)\<close>; its last statement returns the
  identifiers together with the error of the encoder.\<close>

definition fetchChannelHistory :: "env \<Rightarrow> nat \<Rightarrow> string \<Rightarrow> string \<Rightarrow> world
    \<Rightarrow> (string list \<times> error option) option \<times> world" where
  "fetchChannelHistory env output token channelId w =
     (case history_loop token channelId [] [] [] w of
        (None, w') \<Rightarrow> (None, w')
      | (Some (Inl err), w') \<Rightarrow> (Some ([], Some err), w')
      | (Some (Inr (res, ts_ids)), w') \<Rightarrow>
          (case encode env output res w' of (err, w'') \<Rightarrow> (Some (ts_ids, err), w'')))"

subsection \<open>fetchChannelReplies\<close>

definition replies_request :: "string \<Rightarrow> string \<Rightarrow> string \<Rightarrow> string \<Rightarrow> request" where
  "replies_request token channelId tsId cursor =
     \<lparr>Url = ''https://slack.com/api/conversations.replies'',
      Query = [(''limit'', ''200''), (''channel'', channelId), (''ts'', tsId)]
              @ (if cursor \<noteq> [] then [(''cursor'', cursor)] else []),
      Authorization = ''Bearer '' @ token\<rparr>"

text \<open>
  The inner \<^verbatim>\<open>for\<close> loop, for one \<open>tsId\<close>. The variables \<open>cursor\<close> and \<open>res\<close> are
  declared outside of both loops: the inner loop starts with the values they have and
  leaves them, at its \<^verbatim>\<open>break\<close>, to the next iteration of the outer loop.
\<close>

function replies_loop :: "string \<Rightarrow> string \<Rightarrow> string \<Rightarrow> string \<Rightarrow> json_map list \<Rightarrow> world
    \<Rightarrow> (error + json_map list \<times> string) option \<times> world" where
  "replies_loop token channelId tsId cursor res w =
     (case client_Do (replies_request token channelId tsId cursor) w of
        (None, w') \<Rightarrow> (None, w')
      | (Some (Failed e), w') \<Rightarrow> (Some (Inl (Transport e)), w')
      | (Some (Response code body), w') \<Rightarrow>
          if code \<noteq> 200 then (Some (Inl (HttpCode code)), w')
          else (case body of
                  None \<Rightarrow> (Some (Inl Decode), w')
                | Some d \<Rightarrow>
                    if \<not> Ok d then (Some (Inl lack_of_ok), w')
                    else if NextCursor d = []
                      then (Some (Inr (res @ Records d, NextCursor d)), w')
                    else replies_loop token channelId tsId (NextCursor d) (res @ Records d) w'))"
  by pat_completeness auto
termination
  by (relation "measure (\<lambda>(token, channelId, tsId, cursor, res, w). length (Pending w))")
     (auto simp: client_Do_def split: list.splits)

declare replies_loop.simps [simp del]

text \<open>The outer loop \<^verbatim>\<open>for _, tsId := range tsIds\<close>.\<close>

fun replies_range :: "string \<Rightarrow> string \<Rightarrow> string list \<Rightarrow> string \<Rightarrow> json_map list \<Rightarrow> world
    \<Rightarrow> (error + json_map list) option \<times> world" where
  "replies_range token channelId [] cursor res w = (Some (Inr res), w)"
| "replies_range token channelId (tsId # tsIds) cursor res w =
     (case replies_loop token channelId tsId cursor res w of
        (None, w') \<Rightarrow> (None, w')
      | (Some (Inl err), w') \<Rightarrow> (Some (Inl err), w')
      | (Some (Inr (res', cursor')), w') \<Rightarrow> replies_range token channelId tsIds cursor' res' w')"

definition fetchChannelReplies :: "env \<Rightarrow> nat \<Rightarrow> string \<Rightarrow> string \<Rightarrow> string list \<Rightarrow> world
    \<Rightarrow> error option option \<times> world" where
  "fetchChannelReplies env output token channelId tsIds w =
     (case replies_range token channelId tsIds [] [] w of
        (None, w') \<Rightarrow> (None, w')
      | (Some (Inl err), w') \<Rightarrow> (Some (Some err), w')
      | (Some (Inr res), w') \<Rightarrow>
          (case encode env output res w' of (err, w'') \<Rightarrow> (Some err, w'')))"

section \<open>The orchestration\<close>

text \<open>
  How a call ends: it returns a value, the process exits with status 1 after printing a
  message, a type assertion panics, or the call never returns (the script of responses is
  exhausted).
\<close>

datatype exit_message =
    OpenInputFailed
  | CreateOutputFailed
  | OpenFileFailed string
  | CreateFileFailed string
  | CopyFileFailed string
  | FetchFailed error

datatype 'a outcome =
    Return 'a
  | Exit exit_message
  | Panic
  | NoReturn

subsection \<open>createGroupsJson\<close>

text \<open>
  The loop \<^verbatim>\<open>for _, channel := range privateChannels\<close>. The two type assertions have
  no second result, so they panic on a value that is not a string. The error that
  \<^verbatim>\<open>fetchChannelReplies\<close> returns is not assigned to anything.
\<close>

fun channels_range :: "env \<Rightarrow> string \<Rightarrow> json_map list \<Rightarrow> world \<Rightarrow> error option outcome \<times> world" where
  "channels_range env token [] w = (Return None, w)"
| "channels_range env token (channel # channels) w =
     (case assert_string (channel ''id'') of
        None \<Rightarrow> (Panic, w)
      | Some channelId \<Rightarrow>
     (case assert_string (channel ''name'') of
        None \<Rightarrow> (Panic, w)
      | Some channelName \<Rightarrow>
     (case zip_Create env (channelName @ ''/messages.json'') w of
        (Inl err, w1) \<Rightarrow> (Return (Some err), w1)
      | (Inr outFile, w1) \<Rightarrow>
     (case fetchChannelHistory env outFile token channelId w1 of
        (None, w2) \<Rightarrow> (NoReturn, w2)
      | (Some (ts_ids, Some err), w2) \<Rightarrow> (Return (Some err), w2)
      | (Some (ts_ids, None), w2) \<Rightarrow>
     (case zip_Create env (channelName @ ''/replies.json'') w2 of
        (Inl err, w3) \<Rightarrow> (Return (Some err), w3)
      | (Inr outFileReplies, w3) \<Rightarrow>
     (case fetchChannelReplies env outFileReplies token channelId ts_ids w3 of
        (None, w4) \<Rightarrow> (NoReturn, w4)
      | (Some _, w4) \<Rightarrow> channels_range env token channels w4))))))"

definition createGroupsJson :: "env \<Rightarrow> nat \<Rightarrow> string \<Rightarrow> world \<Rightarrow> error option outcome \<times> world" where
  "createGroupsJson env output slackApiToken w =
     (case fetchPrivateChannelsList slackApiToken w of
        (None, w1) \<Rightarrow> (NoReturn, w1)
      | (Some (privateChannels, Some err), w1) \<Rightarrow> (Return (Some err), w1)
      | (Some (privateChannels, None), w1) \<Rightarrow>
          (case encode env output privateChannels w1 of
             (Some err2, w2) \<Rightarrow> (Return (Some err2), w2)
           | (None, w2) \<Rightarrow> channels_range env slackApiToken privateChannels w2))"

subsection \<open>fetchPrivateChannels\<close>

text \<open>
  \<^verbatim>\<open>io.Copy(outFile, inReader)\<close> writes what the reader delivers to the entry, and
  returns the error of the write, or else the error the reader ended with. It calls
  \<^verbatim>\<open>Write\<close> only with data, so nothing is written for a reader that delivers nothing;
  the data of one reader is one chunk of the entry here, in however many calls it
  was written. The writer of a directory entry refuses every write of data.
\<close>

definition io_Copy :: "env \<Rightarrow> nat \<Rightarrow> reader \<Rightarrow> world \<Rightarrow> error option \<times> world" where
  "io_Copy env out inReader w =
     (if Delivered inReader = []
      then (if ReadError inReader then Some (Read ''unexpected EOF'') else None, w)
      else if out < length (Entries w) \<and> is_directory (Name (Header (Entries w ! out)))
      then (Some (Write ''zip: write to directory''), w)
      else (case write_chunk env out (Bytes (Delivered inReader)) w of
              (Some err, w') \<Rightarrow> (Some err, w')
            | (None, w') \<Rightarrow>
                (if ReadError inReader then Some (Read ''unexpected EOF'') else None, w')))"

text \<open>The loop \<^verbatim>\<open>for _, file := range r.File\<close>, with the variable \<open>groupsFound\<close>:
  \<open>Inl\<close> is an exit of the process, \<open>Inr\<close> the value of \<open>groupsFound\<close> after the loop.\<close>

fun copy_files :: "env \<Rightarrow> src_file list \<Rightarrow> bool \<Rightarrow> world \<Rightarrow> (exit_message + bool) \<times> world" where
  "copy_files env [] groupsFound w = (Inr groupsFound, w)"
| "copy_files env (file # files) groupsFound w =
     (case Open file of
        None \<Rightarrow> (Inl (OpenFileFailed (Name (FileHeader file))), w)
      | Some inReader \<Rightarrow>
     (case zip_CreateHeader env (FileHeader file) w of
        (Inl err, w1) \<Rightarrow> (Inl (CreateFileFailed (Name (FileHeader file))), w1)
      | (Inr outFile, w1) \<Rightarrow>
     (case io_Copy env outFile inReader w1 of
        (Some err, w2) \<Rightarrow> (Inl (CopyFileFailed (Name (FileHeader file))), w2)
      | (None, w2) \<Rightarrow>
          copy_files env files
            (if Name (FileHeader file) = ''groups.json'' then True else groupsFound) w2)))"

text \<open>\<^verbatim>\<open>w.Close()\<close>: a failure is printed and changes nothing else.\<close>

definition zip_Close :: "env \<Rightarrow> world \<Rightarrow> world" where
  "zip_Close env w = w\<lparr>Closed := \<not> CloseFails env\<rparr>"

text \<open>
  The command. The flags \<open>privateChannelsApiToken\<close> and \<open>inputArchive\<close> are parameters:
  \<open>inputArchive\<close> is the list of the files of the archive, \<open>None\<close> when
  \<^verbatim>\<open>zip.OpenReader\<close> fails. The run starts with an empty output archive and no request
  sent.
\<close>

definition fetchPrivateChannels :: "env \<Rightarrow> string \<Rightarrow> src_file list option \<Rightarrow> response list
    \<Rightarrow> error option outcome \<times> world" where
  "fetchPrivateChannels env privateChannelsApiToken inputArchive script =
     (let w0 = \<lparr>Pending = script, Sent = [], Entries = [], Closed = False\<rparr> in
      case inputArchive of
        None \<Rightarrow> (Exit OpenInputFailed, w0)
      | Some files \<Rightarrow>
          if OutputFails env then (Exit CreateOutputFailed, w0)
          else (case copy_files env files False w0 of
                  (Inl msg, w1) \<Rightarrow> (Exit msg, w1)
                | (Inr groupsFound, w1) \<Rightarrow>
                    (case zip_Create env ''groups.json'' w1 of
                       (Inl err, w2) \<Rightarrow> (Return (Some err), w2)
                     | (Inr outFile, w2) \<Rightarrow>
                         if \<not> groupsFound
                         then (case createGroupsJson env outFile privateChannelsApiToken w2 of
                                 (Return (Some err), w3) \<Rightarrow> (Exit (FetchFailed err), w3)
                               | (Return None, w3) \<Rightarrow> (Return None, zip_Close env w3)
                               | (Exit msg, w3) \<Rightarrow> (Exit msg, w3)
                               | (Panic, w3) \<Rightarrow> (Panic, w3)
                               | (NoReturn, w3) \<Rightarrow> (NoReturn, w3))
                         else (Return None, zip_Close env w2))))"

section \<open>Pages and runs of pages\<close>

text \<open>The response that carries the decoded page \<open>d\<close> with the status 200.\<close>

definition page_response :: "data \<Rightarrow> response" where
  "page_response d = Response 200 (Some d)"

text \<open>
  The pages one paginated fetch consumes when nothing fails: every page reports \<open>ok\<close>,
  every page but the last names a next cursor, and the last one has the empty cursor.
\<close>

fun complete_run :: "data list \<Rightarrow> bool" where
  "complete_run [] = False"
| "complete_run [d] = (Ok d \<and> NextCursor d = [])"
| "complete_run (d # ds) = (Ok d \<and> NextCursor d \<noteq> [] \<and> complete_run ds)"

section \<open>The vocabulary of the statements\<close>

text \<open>An entry made by \<^verbatim>\<open>w.Create(name)\<close>, with what was written to it.\<close>

definition created :: "string \<Rightarrow> chunk list \<Rightarrow> entry" where
  "created name body = \<lparr>Header = written_header (fresh_header name), Body = body\<rparr>"

text \<open>The cursors of the requests that fetch a run of pages: the empty cursor, then the
  cursor each page but the last names.\<close>

definition cursors :: "data list \<Rightarrow> string list" where
  "cursors pages = [] # map NextCursor (butlast pages)"

text \<open>
  A message as section 3 of the specification types it: \<open>ts\<close>, when the message has
  it, is a string, and \<open>reply_count\<close>, when the message has it, is a number.
\<close>

definition message_typed :: "json_map \<Rightarrow> bool" where
  "message_typed m =
     ((case m ''ts'' of None \<Rightarrow> True | Some v \<Rightarrow> assert_string (Some v) \<noteq> None) \<and>
      (case m ''reply_count'' of None \<Rightarrow> True | Some v \<Rightarrow> assert_float64 (Some v) \<noteq> None))"

text \<open>A channel as section 3 of the specification types it: it has a string \<open>id\<close> and a
  string \<open>name\<close>.\<close>

definition channel_typed :: "json_map \<Rightarrow> bool" where
  "channel_typed channel =
     (assert_string (channel ''id'') \<noteq> None \<and> assert_string (channel ''name'') \<noteq> None)"

text \<open>
  A file of the input archive that can be read: it can be opened, its reader ends
  without an error, and it has no data when it is a directory entry.
\<close>

definition readable :: "src_file \<Rightarrow> bool" where
  "readable file =
     (case Open file of
        None \<Rightarrow> False
      | Some r \<Rightarrow> \<not> ReadError r \<and> (is_directory (Name (FileHeader file)) \<longrightarrow> Delivered r = []))"

text \<open>
  An entry of the output archive that is the copy of a file of the input archive: its
  header is what the writer makes of the header of the file, and its content is the
  data of the file, written in one piece when there is any.
\<close>

definition copied :: "src_file \<Rightarrow> entry \<Rightarrow> bool" where
  "copied file e =
     (Header e = written_header (FileHeader file) \<and>
      (case Open file of
         None \<Rightarrow> False
       | Some r \<Rightarrow> \<not> ReadError r
                   \<and> Body e = (if Delivered r = [] then [] else [Bytes (Delivered r)])))"

text \<open>The thread parents of a sequence of messages, after section 4.3 of the
  specification: the \<open>ts\<close> of the messages that carry a \<open>reply_count\<close>.\<close>

definition thread_parents :: "json_map list \<Rightarrow> string list" where
  "thread_parents messages =
     List.map_filter (\<lambda>m. assert_string (m ''ts''))
       (filter (\<lambda>m. m ''reply_count'' \<noteq> None) messages)"

text \<open>
  What the remote side holds of one channel: its identifier and its name, the pages
  of its history, and for each thread parent of the history, in order, the pages of
  the replies to it.
\<close>

record ingestion =
  ChannelId :: string
  ChannelName :: string
  History :: "data list"
  Replies :: "data list list"

definition messages_of :: "ingestion \<Rightarrow> json_map list" where
  "messages_of c = concat (map Records (History c))"

definition replies_of :: "ingestion \<Rightarrow> json_map list" where
  "replies_of c = concat (map Records (concat (Replies c)))"

text \<open>
  The channel record of the listing and what the remote side holds of the channel
  belong together, and every fetch for the channel succeeds: the record has the
  identifier and the name, as strings; the pages of the history are a complete run and
  their messages are typed; there is one complete run of pages of replies for each
  thread parent.
\<close>

definition ingested :: "json_map \<Rightarrow> ingestion \<Rightarrow> bool" where
  "ingested channel c =
     (channel ''id'' = Some (JStr (ChannelId c)) \<and> channel ''name'' = Some (JStr (ChannelName c))
      \<and> complete_run (History c) \<and> list_all message_typed (messages_of c)
      \<and> length (Replies c) = length (thread_parents (messages_of c))
      \<and> list_all complete_run (Replies c))"

text \<open>The pages the remote side serves for one channel, in the order in which they are
  asked for, and the requests that ask for them: those for the history name the
  channel, those for the replies name the channel and the thread parent.\<close>

definition pages_of :: "ingestion \<Rightarrow> data list" where
  "pages_of c = History c @ concat (Replies c)"

definition requests_of :: "string \<Rightarrow> ingestion \<Rightarrow> request list" where
  "requests_of token c =
     map (history_request token (ChannelId c)) (cursors (History c))
     @ concat (map2 (\<lambda>tsId run. map (replies_request token (ChannelId c) tsId) (cursors run))
                 (thread_parents (messages_of c)) (Replies c))"

text \<open>The two entries of one channel.\<close>

definition entries_of :: "ingestion \<Rightarrow> entry list" where
  "entries_of c =
     [created (ChannelName c @ ''/messages.json'') [Encoded (messages_of c)],
      created (ChannelName c @ ''/replies.json'') [Encoded (replies_of c)]]"

section \<open>The header the writer keeps\<close>

text \<open>What \<^verbatim>\<open>CreateHeader\<close> leaves of a header as it was given, and what it changes.\<close>

lemma Name_written_header [simp]: "Name (written_header fh) = Name fh"
  by (simp add: written_header_def Let_def split: prod.split option.split)

lemma Comment_written_header [simp]: "Comment (written_header fh) = Comment fh"
  by (simp add: written_header_def Let_def split: prod.split option.split)

lemma NonUTF8_written_header [simp]: "NonUTF8 (written_header fh) = NonUTF8 fh"
  by (simp add: written_header_def Let_def split: prod.split option.split)

lemma Modified_written_header [simp]: "Modified (written_header fh) = Modified fh"
  by (simp add: written_header_def Let_def split: prod.split option.split)

lemma ExternalAttrs_written_header [simp]: "ExternalAttrs (written_header fh) = ExternalAttrs fh"
  by (simp add: written_header_def Let_def split: prod.split option.split)

lemma Method_written_header:
  "Method (written_header fh) = (if is_directory (Name fh) then 0 else Method fh)"
  by (simp add: written_header_def Let_def split: prod.split option.split)

lemma ReaderVersion_written_header: "ReaderVersion (written_header fh) = 20"
  by (simp add: written_header_def Let_def split: prod.split option.split)

lemma Extra_written_header:
  "Extra (written_header fh)
     = (case Modified fh of None \<Rightarrow> Extra fh | Some t \<Rightarrow> Extra fh @ extended_timestamp t)"
  by (simp add: written_header_def Let_def split: prod.split option.split)

lemma Name_fresh_header [simp]: "Name (fresh_header name) = name"
  by (simp add: fresh_header_def)

section \<open>The loops, one response at a time\<close>

lemma list_loop_Nil:
  "list_loop token cursor res \<lparr>Pending = [], Sent = s, Entries = es, Closed = c\<rparr>
     = (None, \<lparr>Pending = [], Sent = s @ [list_request token cursor], Entries = es, Closed = c\<rparr>)"
  by (subst list_loop.simps) (simp add: client_Do_def)

lemma list_loop_Failed:
  "list_loop token cursor res \<lparr>Pending = Failed e # rs, Sent = s, Entries = es, Closed = c\<rparr>
     = (Some (Inl (Transport e)),
        \<lparr>Pending = rs, Sent = s @ [list_request token cursor], Entries = es, Closed = c\<rparr>)"
  by (subst list_loop.simps) (simp add: client_Do_def)

lemma list_loop_Response:
  "list_loop token cursor res \<lparr>Pending = Response code body # rs, Sent = s, Entries = es, Closed = c\<rparr>
     = (let w' = \<lparr>Pending = rs, Sent = s @ [list_request token cursor], Entries = es, Closed = c\<rparr> in
        if code \<noteq> 200 then (Some (Inl (HttpCode code)), w')
        else (case body of
                None \<Rightarrow> (Some (Inl Decode), w')
              | Some d \<Rightarrow>
                  if \<not> Ok d then (Some (Inl lack_of_ok), w')
                  else if NextCursor d = [] then (Some (Inr (res @ Records d)), w')
                  else list_loop token (NextCursor d) (res @ Records d) w'))"
  by (subst list_loop.simps) (simp add: client_Do_def Let_def)

lemma history_loop_Nil:
  "history_loop token ch cursor res ts \<lparr>Pending = [], Sent = s, Entries = es, Closed = c\<rparr>
     = (None, \<lparr>Pending = [], Sent = s @ [history_request token ch cursor], Entries = es, Closed = c\<rparr>)"
  by (subst history_loop.simps) (simp add: client_Do_def)

lemma history_loop_Failed:
  "history_loop token ch cursor res ts \<lparr>Pending = Failed e # rs, Sent = s, Entries = es, Closed = c\<rparr>
     = (Some (Inl (Transport e)),
        \<lparr>Pending = rs, Sent = s @ [history_request token ch cursor], Entries = es, Closed = c\<rparr>)"
  by (subst history_loop.simps) (simp add: client_Do_def)

lemma history_loop_Response:
  "history_loop token ch cursor res ts \<lparr>Pending = Response code body # rs, Sent = s, Entries = es, Closed = c\<rparr>
     = (let w' = \<lparr>Pending = rs, Sent = s @ [history_request token ch cursor], Entries = es, Closed = c\<rparr> in
        if code \<noteq> 200 then (Some (Inl (HttpCode code)), w')
        else (case body of
                None \<Rightarrow> (Some (Inl Decode), w')
              | Some d \<Rightarrow>
                  if \<not> Ok d then (Some (Inl lack_of_ok), w')
                  else if NextCursor d = []
                    then (Some (Inr (res @ Records d, scan_messages (Records d) ts)), w')
                  else history_loop token ch (NextCursor d) (res @ Records d)
                         (scan_messages (Records d) ts) w'))"
  by (subst history_loop.simps) (simp add: client_Do_def Let_def)

lemma replies_loop_Nil:
  "replies_loop token ch tsId cursor res \<lparr>Pending = [], Sent = s, Entries = es, Closed = c\<rparr>
     = (None, \<lparr>Pending = [], Sent = s @ [replies_request token ch tsId cursor], Entries = es, Closed = c\<rparr>)"
  by (subst replies_loop.simps) (simp add: client_Do_def)

lemma replies_loop_Failed:
  "replies_loop token ch tsId cursor res \<lparr>Pending = Failed e # rs, Sent = s, Entries = es, Closed = c\<rparr>
     = (Some (Inl (Transport e)),
        \<lparr>Pending = rs, Sent = s @ [replies_request token ch tsId cursor], Entries = es, Closed = c\<rparr>)"
  by (subst replies_loop.simps) (simp add: client_Do_def)

lemma replies_loop_Response:
  "replies_loop token ch tsId cursor res \<lparr>Pending = Response code body # rs, Sent = s, Entries = es, Closed = c\<rparr>
     = (let w' = \<lparr>Pending = rs, Sent = s @ [replies_request token ch tsId cursor], Entries = es, Closed = c\<rparr> in
        if code \<noteq> 200 then (Some (Inl (HttpCode code)), w')
        else (case body of
                None \<Rightarrow> (Some (Inl Decode), w')
              | Some d \<Rightarrow>
                  if \<not> Ok d then (Some (Inl lack_of_ok), w')
                  else if NextCursor d = [] then (Some (Inr (res @ Records d, NextCursor d)), w')
                  else replies_loop token ch tsId (NextCursor d) (res @ Records d) w'))"
  by (subst replies_loop.simps) (simp add: client_Do_def Let_def)

section \<open>Pagination\<close>

lemma complete_run_split:
  "complete_run pages \<Longrightarrow>
     \<exists>ps q. pages = ps @ [q] \<and> (\<forall>d\<in>set ps. Ok d \<and> NextCursor d \<noteq> []) \<and> Ok q \<and> NextCursor q = []"
proof (induction pages rule: complete_run.induct)
  case 1
  then show ?case by simp
next
  case (2 d)
  then show ?case by simp
next
  case (3 d d' ds)
  from 3 have hd: "Ok d" "NextCursor d \<noteq> []" and "complete_run (d' # ds)"
    by simp_all
  with 3 obtain ps q where "d' # ds = ps @ [q]" "\<forall>d\<in>set ps. Ok d \<and> NextCursor d \<noteq> []" "Ok q" "NextCursor q = []"
    by blast
  with hd have "d # d' # ds = (d # ps) @ [q] \<and> (\<forall>x\<in>set (d # ps). Ok x \<and> NextCursor x \<noteq> []) \<and> Ok q \<and> NextCursor q = []"
    by simp
  then show ?case by blast
qed

lemma list_loop_more:
  "\<forall>d\<in>set ps. Ok d \<and> NextCursor d \<noteq> [] \<Longrightarrow>
   list_loop token cursor res
     \<lparr>Pending = map page_response ps @ rest, Sent = s, Entries = es, Closed = c\<rparr>
   = list_loop token (last (cursor # map NextCursor ps)) (res @ concat (map Records ps))
     \<lparr>Pending = rest, Sent = s @ map (list_request token) (butlast (cursor # map NextCursor ps)),
      Entries = es, Closed = c\<rparr>"
proof (induction ps arbitrary: cursor res s)
  case Nil
  then show ?case by simp
next
  case (Cons d ps)
  then show ?case
    by (simp add: page_response_def list_loop_Response)
qed

lemma scan_messages_append:
  "scan_messages (xs @ ys) ts = scan_messages ys (scan_messages xs ts)"
  by (induction xs arbitrary: ts) (auto split: option.splits)

lemma history_loop_more:
  "\<forall>d\<in>set ps. Ok d \<and> NextCursor d \<noteq> [] \<Longrightarrow>
   history_loop token ch cursor res ts
     \<lparr>Pending = map page_response ps @ rest, Sent = s, Entries = es, Closed = c\<rparr>
   = history_loop token ch (last (cursor # map NextCursor ps)) (res @ concat (map Records ps))
       (scan_messages (concat (map Records ps)) ts)
     \<lparr>Pending = rest, Sent = s @ map (history_request token ch) (butlast (cursor # map NextCursor ps)),
      Entries = es, Closed = c\<rparr>"
proof (induction ps arbitrary: cursor res ts s)
  case Nil
  then show ?case by simp
next
  case (Cons d ps)
  then show ?case
    by (simp add: page_response_def history_loop_Response scan_messages_append)
qed


lemma map_butlast_last:
  "map f (butlast (x # xs)) @ [f (last (x # xs))] = map f (x # xs)"
  by (induction xs arbitrary: x) auto

text \<open>
  Claim C5. When the script starts with a complete run of pages, the listing fetch
  returns the records of these pages, concatenated in the order of the pages, with no
  error. It has sent one request for each page, the first without a cursor and each
  later one with the next cursor of the page before, and it has stopped at the page
  with the empty cursor: the responses after that page are still pending.
\<close>

theorem fetchPrivateChannelsList_concat:
  assumes "complete_run pages" and "Pending w = map page_response pages @ rest"
  shows "fetchPrivateChannelsList token w
           = (Some (concat (map Records pages), None),
              w\<lparr>Pending := rest,
                Sent := Sent w @ map (list_request token) ([] # map NextCursor (butlast pages))\<rparr>)
         \<and> length (map (list_request token) ([] # map NextCursor (butlast pages))) = length pages"
proof -
  from assms(1) obtain ps q where pages: "pages = ps @ [q]"
    and ps: "\<forall>d\<in>set ps. Ok d \<and> NextCursor d \<noteq> []" and q: "Ok q" "NextCursor q = []"
    using complete_run_split by blast
  obtain p s es c where w: "w = \<lparr>Pending = p, Sent = s, Entries = es, Closed = c\<rparr>"
    by (cases w)
  have "list_loop token [] [] \<lparr>Pending = map page_response ps @ page_response q # rest, Sent = s, Entries = es, Closed = c\<rparr>
        = (Some (Inr (concat (map Records ps) @ Records q)),
           \<lparr>Pending = rest, Sent = s @ map (list_request token) ([] # map NextCursor ps), Entries = es, Closed = c\<rparr>)"
    using q by (simp add: list_loop_more [OF ps] list_loop_Response page_response_def Let_def
        map_butlast_last del: butlast.simps last.simps)
  then show ?thesis
    using assms(2) by (simp add: fetchPrivateChannelsList_def pages w)
qed

theorem fetchPrivateChannelsList_concat_witness:
  "complete_run [\<lparr>Ok = True, Records = [[''id'' \<mapsto> JStr ''C1'']], NextCursor = ''a''\<rparr>,
                 \<lparr>Ok = True, Records = [[''id'' \<mapsto> JStr ''C2'']], NextCursor = []\<rparr>]
   \<and> fetchPrivateChannelsList ''t''
        \<lparr>Pending = [page_response \<lparr>Ok = True, Records = [[''id'' \<mapsto> JStr ''C1'']], NextCursor = ''a''\<rparr>,
                    page_response \<lparr>Ok = True, Records = [[''id'' \<mapsto> JStr ''C2'']], NextCursor = []\<rparr>,
                    Failed ''down''],
         Sent = [], Entries = [], Closed = False\<rparr>
      = (Some ([[''id'' \<mapsto> JStr ''C1''], [''id'' \<mapsto> JStr ''C2'']], None),
         \<lparr>Pending = [Failed ''down''], Sent = [list_request ''t'' [], list_request ''t'' ''a''],
          Entries = [], Closed = False\<rparr>)"
  using fetchPrivateChannelsList_concat
    [of "[\<lparr>Ok = True, Records = [[''id'' \<mapsto> JStr ''C1'']], NextCursor = ''a''\<rparr>,
          \<lparr>Ok = True, Records = [[''id'' \<mapsto> JStr ''C2'']], NextCursor = []\<rparr>]"
        "\<lparr>Pending = [page_response \<lparr>Ok = True, Records = [[''id'' \<mapsto> JStr ''C1'']], NextCursor = ''a''\<rparr>,
                    page_response \<lparr>Ok = True, Records = [[''id'' \<mapsto> JStr ''C2'']], NextCursor = []\<rparr>,
                    Failed ''down''],
         Sent = [], Entries = [], Closed = False\<rparr>"
        "[Failed ''down'']" "''t''"]
  by simp

section \<open>Thread replies\<close>

lemma replies_loop_more:
  "\<forall>d\<in>set ps. Ok d \<and> NextCursor d \<noteq> [] \<Longrightarrow>
   replies_loop token ch tsId cursor res
     \<lparr>Pending = map page_response ps @ rest, Sent = s, Entries = es, Closed = c\<rparr>
   = replies_loop token ch tsId (last (cursor # map NextCursor ps)) (res @ concat (map Records ps))
     \<lparr>Pending = rest,
      Sent = s @ map (replies_request token ch tsId) (butlast (cursor # map NextCursor ps)),
      Entries = es, Closed = c\<rparr>"
proof (induction ps arbitrary: cursor res s)
  case Nil
  then show ?case by simp
next
  case (Cons d ps)
  then show ?case
    by (simp add: page_response_def replies_loop_Response)
qed

text \<open>A complete run leaves the cursor variable empty.\<close>

lemma replies_loop_run:
  assumes "complete_run run"
  shows "replies_loop token ch tsId [] res
           \<lparr>Pending = map page_response run @ rest, Sent = s, Entries = es, Closed = c\<rparr>
         = (Some (Inr (res @ concat (map Records run), [])),
            \<lparr>Pending = rest,
             Sent = s @ map (replies_request token ch tsId) ([] # map NextCursor (butlast run)),
             Entries = es, Closed = c\<rparr>)"
proof -
  from assms obtain ps q where run: "run = ps @ [q]"
    and ps: "\<forall>d\<in>set ps. Ok d \<and> NextCursor d \<noteq> []" and q: "Ok q" "NextCursor q = []"
    using complete_run_split by blast
  show ?thesis
    using q by (simp add: run replies_loop_more [OF ps] replies_loop_Response page_response_def
        Let_def map_butlast_last del: butlast.simps last.simps)
qed

lemma replies_range_runs:
  assumes "length tsIds = length runs" and "\<forall>run\<in>set runs. complete_run run"
  shows "replies_range token ch (tsIds @ later) [] res
           \<lparr>Pending = map page_response (concat runs) @ rest, Sent = s, Entries = es, Closed = c\<rparr>
         = replies_range token ch later [] (res @ concat (map Records (concat runs)))
           \<lparr>Pending = rest,
            Sent = s @ concat (map2 (\<lambda>tsId run. map (replies_request token ch tsId)
                                        ([] # map NextCursor (butlast run))) tsIds runs),
            Entries = es, Closed = c\<rparr>"
  using assms
proof (induction tsIds runs arbitrary: res s rule: list_induct2)
  case Nil
  then show ?case by simp
next
  case (Cons tsId tsIds run runs)
  then show ?case
    by (simp add: replies_loop_run del: butlast.simps last.simps)
qed

lemma replies_loop_pages:
  "replies_loop token ch tsId cursor res \<lparr>Pending = p, Sent = s, Entries = es, Closed = c\<rparr>
     = (Some (Inr (res', cursor')), w') \<Longrightarrow>
   \<exists>pages. complete_run pages \<and> p = map page_response pages @ Pending w' \<and> cursor' = []"
proof (induction p arbitrary: cursor res s)
  case Nil
  then show ?case by (simp add: replies_loop_Nil)
next
  case (Cons r p)
  show ?case
  proof (cases r)
    case (Failed e)
    with Cons.prems show ?thesis by (simp add: replies_loop_Failed)
  next
    case (Response code body)
    with Cons.prems obtain d where code: "code = 200" and body: "body = Some d" and ok: "Ok d"
      by (auto simp: replies_loop_Response Let_def split: if_splits option.splits)
    show ?thesis
    proof (cases "NextCursor d = []")
      case True
      with Cons.prems Response code body ok
      have "Pending w' = p" "cursor' = []"
        by (auto simp: replies_loop_Response Let_def)
      with True ok code body Response
      have "complete_run [d] \<and> r # p = map page_response [d] @ Pending w' \<and> cursor' = []"
        by (simp add: page_response_def)
      then show ?thesis by blast
    next
      case False
      with Cons.prems Response code body ok
      have "replies_loop token ch tsId (NextCursor d) (res @ Records d)
              \<lparr>Pending = p, Sent = s @ [replies_request token ch tsId cursor], Entries = es, Closed = c\<rparr>
            = (Some (Inr (res', cursor')), w')"
        by (simp add: replies_loop_Response Let_def)
      from Cons.IH [OF this] obtain pages where pages: "complete_run pages"
        "p = map page_response pages @ Pending w'" "cursor' = []"
        by blast
      from pages(1) have "pages \<noteq> []" by (cases pages) simp_all
      then have "complete_run (d # pages)"
        using pages(1) ok False by (cases pages) simp_all
      with pages Response code body
      have "complete_run (d # pages) \<and> r # p = map page_response (d # pages) @ Pending w' \<and> cursor' = []"
        by (simp add: page_response_def)
      then show ?thesis by blast
    qed
  qed
qed

lemma replies_range_pages:
  "replies_range token ch tsIds [] res w = (Some (Inr res'), w') \<Longrightarrow>
   \<exists>runs. length tsIds = length runs \<and> (\<forall>run\<in>set runs. complete_run run)
     \<and> Pending w = map page_response (concat runs) @ Pending w'"
proof (induction tsIds arbitrary: res w)
  case Nil
  then show ?case by simp
next
  case (Cons tsId tsIds)
  obtain p s es c where w: "w = \<lparr>Pending = p, Sent = s, Entries = es, Closed = c\<rparr>"
    by (cases w)
  from Cons.prems obtain res1 cursor1 w1 where
    loop: "replies_loop token ch tsId [] res \<lparr>Pending = p, Sent = s, Entries = es, Closed = c\<rparr>
            = (Some (Inr (res1, cursor1)), w1)"
    and rest: "replies_range token ch tsIds cursor1 res1 w1 = (Some (Inr res'), w')"
    by (auto simp: w split: prod.splits option.splits sum.splits)
  from replies_loop_pages [OF loop] obtain pages where pages: "complete_run pages"
    "p = map page_response pages @ Pending w1" "cursor1 = []"
    by blast
  from Cons.IH [OF rest [unfolded pages(3)]] obtain runs where runs: "length tsIds = length runs"
    "\<forall>run\<in>set runs. complete_run run" "Pending w1 = map page_response (concat runs) @ Pending w'"
    by blast
  with pages w have "length (tsId # tsIds) = length (pages # runs)
     \<and> (\<forall>run\<in>set (pages # runs). complete_run run)
     \<and> Pending w = map page_response (concat (pages # runs)) @ Pending w'"
    by simp
  then show ?case by blast
qed

text \<open>
  Claim C9. The reply fetch succeeds exactly when the script holds, for each
  thread-parent timestamp in turn, one complete run of pages, and the write to its
  output succeeds. What it then serializes is the concatenation, in the order of the
  timestamps, of the records of each timestamp's run, and the requests it has sent are,
  timestamp after timestamp, one per page of the run, the first of them built with the
  empty cursor. The cursor variable is not reset between the timestamps, but the inner
  loop is only left, without an error, when the cursor is empty, so that the next
  timestamp starts with the empty cursor. A request built with the empty cursor has no
  \<open>cursor\<close> parameter.
\<close>

theorem fetchChannelReplies_concat:
  "(fetchChannelReplies env output token channelId tsIds w = (Some None, w'))
     = (\<exists>runs. length tsIds = length runs \<and> (\<forall>run\<in>set runs. complete_run run)
          \<and> Pending w = map page_response (concat runs) @ Pending w'
          \<and> Suc output = length (Entries w)
          \<and> \<not> WriteFails env (Name (Header (Entries w ! output)))
          \<and> w' = w\<lparr>Pending := Pending w',
                    Sent := Sent w @ concat (map2 (\<lambda>tsId run. map (replies_request token channelId tsId)
                                                   ([] # map NextCursor (butlast run))) tsIds runs),
                    Entries := (Entries w)[output := (Entries w ! output)
                      \<lparr>Body := Body (Entries w ! output)
                                @ [Encoded (concat (map (\<lambda>run. concat (map Records run)) runs))]\<rparr>]\<rparr>)
   \<and> (\<forall>tsId\<in>set tsIds. Query (replies_request token channelId tsId [])
                            = [(''limit'', ''200''), (''channel'', channelId), (''ts'', tsId)])"
proof -
  obtain p s es c where w: "w = \<lparr>Pending = p, Sent = s, Entries = es, Closed = c\<rparr>"
    by (cases w)
  have recs: "concat (map Records (concat runs)) = concat (map (\<lambda>run. concat (map Records run)) runs)"
    for runs :: "data list list"
    by (induction runs) simp_all
  have range: "replies_range token channelId tsIds [] []
          \<lparr>Pending = map page_response (concat runs) @ rest, Sent = s, Entries = es, Closed = c\<rparr>
        = (Some (Inr (concat (map Records (concat runs)))),
           \<lparr>Pending = rest,
            Sent = s @ concat (map2 (\<lambda>tsId run. map (replies_request token channelId tsId)
                                        ([] # map NextCursor (butlast run))) tsIds runs),
            Entries = es, Closed = c\<rparr>)"
    if "length tsIds = length runs" "\<forall>run\<in>set runs. complete_run run" for runs rest
    using replies_range_runs [OF that, of token channelId "[]" "[]" rest s es c] by simp
  have fwd: "\<exists>runs. length tsIds = length runs \<and> (\<forall>run\<in>set runs. complete_run run)
          \<and> Pending w = map page_response (concat runs) @ Pending w'
          \<and> Suc output = length (Entries w)
          \<and> \<not> WriteFails env (Name (Header (Entries w ! output)))
          \<and> w' = w\<lparr>Pending := Pending w',
                    Sent := Sent w @ concat (map2 (\<lambda>tsId run. map (replies_request token channelId tsId)
                                                   ([] # map NextCursor (butlast run))) tsIds runs),
                    Entries := (Entries w)[output := (Entries w ! output)
                      \<lparr>Body := Body (Entries w ! output)
                                @ [Encoded (concat (map (\<lambda>run. concat (map Records run)) runs))]\<rparr>]\<rparr>"
    if run: "fetchChannelReplies env output token channelId tsIds w = (Some None, w')"
  proof -
    from run obtain res w1 where rr: "replies_range token channelId tsIds [] [] w = (Some (Inr res), w1)"
      and enc: "write_chunk env output (Encoded res) w1 = (None, w')"
      by (auto simp: fetchChannelReplies_def encode_def split: prod.splits option.splits sum.splits)
    from replies_range_pages [OF rr] obtain runs where runs: "length tsIds = length runs"
      "\<forall>run\<in>set runs. complete_run run" "Pending w = map page_response (concat runs) @ Pending w1"
      by blast
    from rr range [OF runs(1,2), of "Pending w1"] runs(3)
    have w1: "res = concat (map Records (concat runs))"
      "w1 = \<lparr>Pending = Pending w1,
            Sent = s @ concat (map2 (\<lambda>tsId run. map (replies_request token channelId tsId)
                                        ([] # map NextCursor (butlast run))) tsIds runs),
            Entries = es, Closed = c\<rparr>"
      by (simp_all add: w)
    from enc have ok: "Suc output = length (Entries w1)"
      "\<not> WriteFails env (Name (Header (Entries w1 ! output)))"
      and w': "w' = w1\<lparr>Entries := (Entries w1)[output := (Entries w1 ! output)
                      \<lparr>Body := Body (Entries w1 ! output) @ [Encoded res]\<rparr>]\<rparr>"
      by (auto simp: write_chunk_def split: if_splits)
    have e1: "Entries w1 = es" by (subst w1(2)) simp
    have p': "Pending w' = Pending w1" by (subst w') simp
    from runs w1(1) ok e1 p' w' w1(2)
    have "length tsIds = length runs \<and> (\<forall>run\<in>set runs. complete_run run)
          \<and> Pending w = map page_response (concat runs) @ Pending w'
          \<and> Suc output = length (Entries w)
          \<and> \<not> WriteFails env (Name (Header (Entries w ! output)))
          \<and> w' = w\<lparr>Pending := Pending w',
                    Sent := Sent w @ concat (map2 (\<lambda>tsId run. map (replies_request token channelId tsId)
                                                   ([] # map NextCursor (butlast run))) tsIds runs),
                    Entries := (Entries w)[output := (Entries w ! output)
                      \<lparr>Body := Body (Entries w ! output)
                                @ [Encoded (concat (map (\<lambda>run. concat (map Records run)) runs))]\<rparr>]\<rparr>"
      by (simp add: w recs)
    then show ?thesis by blast
  qed
  have bwd: "fetchChannelReplies env output token channelId tsIds w = (Some None, w')"
    if "length tsIds = length runs" "\<forall>run\<in>set runs. complete_run run"
      "Pending w = map page_response (concat runs) @ Pending w'"
      "Suc output = length (Entries w)"
      "\<not> WriteFails env (Name (Header (Entries w ! output)))"
      "w' = w\<lparr>Pending := Pending w',
                    Sent := Sent w @ concat (map2 (\<lambda>tsId run. map (replies_request token channelId tsId)
                                                   ([] # map NextCursor (butlast run))) tsIds runs),
                    Entries := (Entries w)[output := (Entries w ! output)
                      \<lparr>Body := Body (Entries w ! output)
                                @ [Encoded (concat (map (\<lambda>run. concat (map Records run)) runs))]\<rparr>]\<rparr>"
    for runs
    using that(3-5) range [OF that(1,2), of "Pending w'"]
    by (subst that(6)) (simp add: fetchChannelReplies_def w encode_def write_chunk_def recs)
  have q: "\<forall>tsId\<in>set tsIds. Query (replies_request token channelId tsId [])
                            = [(''limit'', ''200''), (''channel'', channelId), (''ts'', tsId)]"
    by (simp add: replies_request_def)
  from fwd bwd q show ?thesis by blast
qed


theorem fetchChannelReplies_concat_witness:
  "fetchChannelReplies
     \<lparr>CreateFails = (\<lambda>n. False), WriteFails = (\<lambda>n. False), OutputFails = False, CloseFails = False\<rparr>
     0 ''t'' ''C1'' [''1.0'', ''2.0'']
     \<lparr>Pending = [page_response \<lparr>Ok = True, Records = [[''text'' \<mapsto> JStr ''a'']], NextCursor = ''n1''\<rparr>,
                 page_response \<lparr>Ok = True, Records = [[''text'' \<mapsto> JStr ''b'']], NextCursor = []\<rparr>,
                 page_response \<lparr>Ok = True, Records = [[''text'' \<mapsto> JStr ''c'']], NextCursor = []\<rparr>,
                 Failed ''unused''],
      Sent = [],
      Entries = [\<lparr>Header = written_header (fresh_header ''x/replies.json''), Body = []\<rparr>],
      Closed = False\<rparr>
   = (Some None,
      \<lparr>Pending = [Failed ''unused''],
       Sent = [replies_request ''t'' ''C1'' ''1.0'' [], replies_request ''t'' ''C1'' ''1.0'' ''n1'',
               replies_request ''t'' ''C1'' ''2.0'' []],
       Entries = [\<lparr>Header = written_header (fresh_header ''x/replies.json''),
                   Body = [Encoded [[''text'' \<mapsto> JStr ''a''], [''text'' \<mapsto> JStr ''b''],
                                    [''text'' \<mapsto> JStr ''c'']]]\<rparr>],
       Closed = False\<rparr>)
   \<and> Query (replies_request ''t'' ''C1'' ''2.0'' []) = [(''limit'', ''200''), (''channel'', ''C1''), (''ts'', ''2.0'')]"
proof -
  let ?runs = "[[\<lparr>Ok = True, Records = [[''text'' \<mapsto> JStr ''a'']], NextCursor = ''n1''\<rparr>,
                 \<lparr>Ok = True, Records = [[''text'' \<mapsto> JStr ''b'']], NextCursor = []\<rparr>],
                [\<lparr>Ok = True, Records = [[''text'' \<mapsto> JStr ''c'']], NextCursor = []\<rparr>]]"
  let ?e = "\<lparr>Header = written_header (fresh_header ''x/replies.json''), Body = []\<rparr>"
  let ?w = "\<lparr>Pending = [page_response \<lparr>Ok = True, Records = [[''text'' \<mapsto> JStr ''a'']], NextCursor = ''n1''\<rparr>,
                 page_response \<lparr>Ok = True, Records = [[''text'' \<mapsto> JStr ''b'']], NextCursor = []\<rparr>,
                 page_response \<lparr>Ok = True, Records = [[''text'' \<mapsto> JStr ''c'']], NextCursor = []\<rparr>,
                 Failed ''unused''],
             Sent = [], Entries = [?e], Closed = False\<rparr>"
  let ?w' = "\<lparr>Pending = [Failed ''unused''],
       Sent = [replies_request ''t'' ''C1'' ''1.0'' [], replies_request ''t'' ''C1'' ''1.0'' ''n1'',
               replies_request ''t'' ''C1'' ''2.0'' []],
       Entries = [\<lparr>Header = written_header (fresh_header ''x/replies.json''),
                   Body = [Encoded [[''text'' \<mapsto> JStr ''a''], [''text'' \<mapsto> JStr ''b''],
                                    [''text'' \<mapsto> JStr ''c'']]]\<rparr>],
       Closed = False\<rparr>"
  let ?env = "\<lparr>CreateFails = (\<lambda>n. False), WriteFails = (\<lambda>n. False), OutputFails = False, CloseFails = False\<rparr>"
  have c1: "length [''1.0'', ''2.0''] = length ?runs" by simp
  have c2: "\<forall>run\<in>set ?runs. complete_run run" by simp
  have c3: "Pending ?w = map page_response (concat ?runs) @ Pending ?w'" by simp
  have c4: "Suc 0 = length (Entries ?w)" by simp
  have c5: "\<not> WriteFails ?env (Name (Header (Entries ?w ! 0)))" by simp
  have c6: "?w' = ?w\<lparr>Pending := Pending ?w',
                    Sent := Sent ?w @ concat (map2 (\<lambda>tsId run. map (replies_request ''t'' ''C1'' tsId)
                                                   ([] # map NextCursor (butlast run))) [''1.0'', ''2.0''] ?runs),
                    Entries := (Entries ?w)[0 := (Entries ?w ! 0)
                      \<lparr>Body := Body (Entries ?w ! 0)
                                @ [Encoded (concat (map (\<lambda>run. concat (map Records run)) ?runs))]\<rparr>]\<rparr>"
    by simp
  have "\<exists>runs. length [''1.0'', ''2.0''] = length runs \<and> (\<forall>run\<in>set runs. complete_run run)
          \<and> Pending ?w = map page_response (concat runs) @ Pending ?w'
          \<and> Suc 0 = length (Entries ?w)
          \<and> \<not> WriteFails ?env (Name (Header (Entries ?w ! 0)))
          \<and> ?w' = ?w\<lparr>Pending := Pending ?w',
                    Sent := Sent ?w @ concat (map2 (\<lambda>tsId run. map (replies_request ''t'' ''C1'' tsId)
                                                   ([] # map NextCursor (butlast run))) [''1.0'', ''2.0''] runs),
                    Entries := (Entries ?w)[0 := (Entries ?w ! 0)
                      \<lparr>Body := Body (Entries ?w ! 0)
                                @ [Encoded (concat (map (\<lambda>run. concat (map Records run)) runs))]\<rparr>]\<rparr>"
    by (intro exI [of _ ?runs] conjI c1 c2 c3 c4 c5 c6)
  note ex = this
  note char = fetchChannelReplies_concat [of ?env 0 "''t''" "''C1''" "[''1.0'', ''2.0'']" ?w ?w']
  from char [THEN conjunct1] ex
  have run: "fetchChannelReplies ?env 0 ''t'' ''C1'' [''1.0'', ''2.0''] ?w = (Some None, ?w')"
    by (rule iffD2)
  have "''2.0'' \<in> set [''1.0'', ''2.0'']" by simp
  with char [THEN conjunct2]
  have "Query (replies_request ''t'' ''C1'' ''2.0'' []) = [(''limit'', ''200''), (''channel'', ''C1''), (''ts'', ''2.0'')]"
    by (rule bspec)
  with run show ?thesis by (rule conjI)
qed

section \<open>Failing pages\<close>

lemma list_loop_cursors:
  assumes "\<forall>d\<in>set ps. Ok d \<and> NextCursor d \<noteq> []"
  shows "list_loop token [] [] \<lparr>Pending = map page_response ps @ r # rest, Sent = s, Entries = es, Closed = c\<rparr>
         = list_loop token (last ([] # map NextCursor ps)) (concat (map Records ps))
             \<lparr>Pending = r # rest, Sent = s @ map (list_request token) (butlast ([] # map NextCursor ps)),
              Entries = es, Closed = c\<rparr>"
  using list_loop_more [OF assms, of token "[]" "[]" "r # rest" s es c] by simp

lemma history_loop_cursors:
  assumes "\<forall>d\<in>set ps. Ok d \<and> NextCursor d \<noteq> []"
  shows "history_loop token ch [] [] [] \<lparr>Pending = map page_response ps @ r # rest, Sent = s, Entries = es, Closed = c\<rparr>
         = history_loop token ch (last ([] # map NextCursor ps)) (concat (map Records ps))
             (scan_messages (concat (map Records ps)) [])
             \<lparr>Pending = r # rest, Sent = s @ map (history_request token ch) (butlast ([] # map NextCursor ps)),
              Entries = es, Closed = c\<rparr>"
  using history_loop_more [OF assms, of token ch "[]" "[]" "[]" "r # rest" s es c] by simp

lemma replies_loop_cursors:
  assumes "\<forall>d\<in>set ps. Ok d \<and> NextCursor d \<noteq> []"
  shows "replies_loop token ch tsId [] res \<lparr>Pending = map page_response ps @ r # rest, Sent = s, Entries = es, Closed = c\<rparr>
         = replies_loop token ch tsId (last ([] # map NextCursor ps)) (res @ concat (map Records ps))
             \<lparr>Pending = r # rest, Sent = s @ map (replies_request token ch tsId) (butlast ([] # map NextCursor ps)),
              Entries = es, Closed = c\<rparr>"
  using replies_loop_more [OF assms, of token ch tsId "[]" res "r # rest" s es c] by simp

text \<open>
  Claim C7. Let a fetch receive some successful pages that each name a next cursor, and
  then a page whose decoded body has \<open>ok\<close> false. Then the fetch returns the error
  whose text asks whether the access token is correct. It returns no records with it
  (the listing fetch returns nil, the history fetch returns nil and writes nothing to
  its output), and it has sent no request after the one that was answered by that page:
  the rest of the script is still pending. This holds for the listing fetch, for the
  history fetch, and for the reply fetch at any of its timestamps, the timestamps
  before it having each received a complete run.
\<close>

theorem lack_of_ok_stops:
  assumes "\<forall>d\<in>set ps. Ok d \<and> NextCursor d \<noteq> []" and "\<not> Ok bad"
    and "Pending w = map page_response ps @ page_response bad # rest"
    and "length earlier = length runs" and "\<forall>run\<in>set runs. complete_run run"
    and "Pending w2 = map page_response (concat runs) @ map page_response ps @ page_response bad # rest"
  shows "fetchPrivateChannelsList token w
           = (Some ([], Some (New ''unexpected lack of ok=true in Slack API response. Is access token correct?'')),
              w\<lparr>Pending := rest,
                Sent := Sent w @ map (list_request token) ([] # map NextCursor ps)\<rparr>)
       \<and> fetchChannelHistory env output token channelId w
           = (Some ([], Some (New ''unexpected lack of ok=true in Slack API response. Is access token correct?'')),
              w\<lparr>Pending := rest,
                Sent := Sent w @ map (history_request token channelId) ([] # map NextCursor ps)\<rparr>)
       \<and> fetchChannelReplies env output token channelId (earlier @ tsId # later) w2
           = (Some (Some (New ''unexpected lack of ok=true in Slack API response. Is access token correct?'')),
              w2\<lparr>Pending := rest,
                 Sent := Sent w2
                   @ concat (map2 (\<lambda>tsId run. map (replies_request token channelId tsId)
                                       ([] # map NextCursor (butlast run))) earlier runs)
                   @ map (replies_request token channelId tsId) ([] # map NextCursor ps)\<rparr>)"
proof -
  obtain p s es c where w: "w = \<lparr>Pending = p, Sent = s, Entries = es, Closed = c\<rparr>"
    by (cases w)
  obtain p2 s2 es2 c2 where w2: "w2 = \<lparr>Pending = p2, Sent = s2, Entries = es2, Closed = c2\<rparr>"
    by (cases w2)
  have 1: "list_loop token [] [] \<lparr>Pending = map page_response ps @ page_response bad # rest, Sent = s, Entries = es, Closed = c\<rparr>
        = (Some (Inl lack_of_ok),
           \<lparr>Pending = rest, Sent = s @ map (list_request token) ([] # map NextCursor ps), Entries = es, Closed = c\<rparr>)"
    using assms(2)
    by (simp add: list_loop_cursors [OF assms(1)] list_loop_Response page_response_def Let_def
         map_butlast_last del: butlast.simps last.simps)
  have 2: "history_loop token channelId [] [] [] \<lparr>Pending = map page_response ps @ page_response bad # rest, Sent = s, Entries = es, Closed = c\<rparr>
        = (Some (Inl lack_of_ok),
           \<lparr>Pending = rest, Sent = s @ map (history_request token channelId) ([] # map NextCursor ps), Entries = es, Closed = c\<rparr>)"
    using assms(2)
    by (simp add: history_loop_cursors [OF assms(1)] history_loop_Response page_response_def Let_def
         map_butlast_last del: butlast.simps last.simps)
  have 3: "replies_range token channelId (earlier @ tsId # later) [] []
          \<lparr>Pending = map page_response (concat runs) @ map page_response ps @ page_response bad # rest,
           Sent = s2, Entries = es2, Closed = c2\<rparr>
        = (Some (Inl lack_of_ok),
           \<lparr>Pending = rest,
            Sent = s2 @ concat (map2 (\<lambda>tsId run. map (replies_request token channelId tsId)
                                       ([] # map NextCursor (butlast run))) earlier runs)
                   @ map (replies_request token channelId tsId) ([] # map NextCursor ps),
            Entries = es2, Closed = c2\<rparr>)"
    using assms(2)
    by (simp add: replies_range_runs [OF assms(4,5)] replies_loop_cursors [OF assms(1)]
         replies_loop_Response page_response_def Let_def
         map_butlast_last del: butlast.simps last.simps)
  show ?thesis
    using assms(3,6) 1 2 3
    by (simp add: fetchPrivateChannelsList_def fetchChannelHistory_def fetchChannelReplies_def
         w w2 lack_of_ok_def)
qed


theorem lack_of_ok_stops_witness:
  "Ok \<lparr>Ok = True, Records = [[''id'' \<mapsto> JStr ''C1'']], NextCursor = ''n1''\<rparr>
   \<and> NextCursor \<lparr>Ok = True, Records = [[''id'' \<mapsto> JStr ''C1'']], NextCursor = ''n1''\<rparr> \<noteq> []
   \<and> \<not> Ok \<lparr>Ok = False, Records = [[''id'' \<mapsto> JStr ''C2'']], NextCursor = ''n2''\<rparr>
   \<and> length [''1.0''] = length [[\<lparr>Ok = True, Records = [[''text'' \<mapsto> JStr ''a'']], NextCursor = []\<rparr>]]
   \<and> complete_run [\<lparr>Ok = True, Records = [[''text'' \<mapsto> JStr ''a'']], NextCursor = []\<rparr>]
   \<and> fetchPrivateChannelsList ''t''
        \<lparr>Pending = [page_response \<lparr>Ok = True, Records = [[''id'' \<mapsto> JStr ''C1'']], NextCursor = ''n1''\<rparr>,
                    page_response \<lparr>Ok = False, Records = [[''id'' \<mapsto> JStr ''C2'']], NextCursor = ''n2''\<rparr>,
                    Failed ''unused''],
         Sent = [], Entries = [], Closed = False\<rparr>
       = (Some ([], Some (New ''unexpected lack of ok=true in Slack API response. Is access token correct?'')),
          \<lparr>Pending = [Failed ''unused''], Sent = [list_request ''t'' [], list_request ''t'' ''n1''],
           Entries = [], Closed = False\<rparr>)
   \<and> fetchChannelHistory
        \<lparr>CreateFails = (\<lambda>n. False), WriteFails = (\<lambda>n. False), OutputFails = False, CloseFails = False\<rparr>
        0 ''t'' ''C1''
        \<lparr>Pending = [page_response \<lparr>Ok = True, Records = [[''id'' \<mapsto> JStr ''C1'']], NextCursor = ''n1''\<rparr>,
                    page_response \<lparr>Ok = False, Records = [[''id'' \<mapsto> JStr ''C2'']], NextCursor = ''n2''\<rparr>,
                    Failed ''unused''],
         Sent = [], Entries = [], Closed = False\<rparr>
       = (Some ([], Some (New ''unexpected lack of ok=true in Slack API response. Is access token correct?'')),
          \<lparr>Pending = [Failed ''unused''],
           Sent = [history_request ''t'' ''C1'' [], history_request ''t'' ''C1'' ''n1''],
           Entries = [], Closed = False\<rparr>)
   \<and> fetchChannelReplies
        \<lparr>CreateFails = (\<lambda>n. False), WriteFails = (\<lambda>n. False), OutputFails = False, CloseFails = False\<rparr>
        0 ''t'' ''C1'' [''1.0'', ''2.0'', ''3.0'']
        \<lparr>Pending = [page_response \<lparr>Ok = True, Records = [[''text'' \<mapsto> JStr ''a'']], NextCursor = []\<rparr>,
                    page_response \<lparr>Ok = True, Records = [[''id'' \<mapsto> JStr ''C1'']], NextCursor = ''n1''\<rparr>,
                    page_response \<lparr>Ok = False, Records = [[''id'' \<mapsto> JStr ''C2'']], NextCursor = ''n2''\<rparr>,
                    Failed ''unused''],
         Sent = [], Entries = [], Closed = False\<rparr>
       = (Some (Some (New ''unexpected lack of ok=true in Slack API response. Is access token correct?'')),
          \<lparr>Pending = [Failed ''unused''],
           Sent = [replies_request ''t'' ''C1'' ''1.0'' [], replies_request ''t'' ''C1'' ''2.0'' [],
                   replies_request ''t'' ''C1'' ''2.0'' ''n1''],
           Entries = [], Closed = False\<rparr>)"
proof -
  let ?ps = "[\<lparr>Ok = True, Records = [[''id'' \<mapsto> JStr ''C1'']], NextCursor = ''n1''\<rparr>]"
  let ?bad = "\<lparr>Ok = False, Records = [[''id'' \<mapsto> JStr ''C2'']], NextCursor = ''n2''\<rparr>"
  let ?runs = "[[\<lparr>Ok = True, Records = [[''text'' \<mapsto> JStr ''a'']], NextCursor = []\<rparr>]]"
  let ?w = "\<lparr>Pending = map page_response ?ps @ page_response ?bad # [Failed ''unused''],
             Sent = [], Entries = [], Closed = False\<rparr>"
  let ?w2 = "\<lparr>Pending = map page_response (concat ?runs) @ map page_response ?ps
                          @ page_response ?bad # [Failed ''unused''],
              Sent = [], Entries = [], Closed = False\<rparr>"
  have h1: "\<forall>d\<in>set ?ps. Ok d \<and> NextCursor d \<noteq> []" by simp
  have h2: "\<not> Ok ?bad" by simp
  have h3: "Pending ?w = map page_response ?ps @ page_response ?bad # [Failed ''unused'']" by simp
  have h4: "length [''1.0''] = length ?runs" by simp
  have h5: "\<forall>run\<in>set ?runs. complete_run run" by simp
  have h6: "Pending ?w2 = map page_response (concat ?runs) @ map page_response ?ps
                            @ page_response ?bad # [Failed ''unused'']" by simp
  show ?thesis
    using lack_of_ok_stops [OF h1 h2 h3 h4 h5 h6, of "''t''"
        "\<lparr>CreateFails = (\<lambda>n. False), WriteFails = (\<lambda>n. False), OutputFails = False, CloseFails = False\<rparr>"
        0 "''C1''" "''2.0''" "[''3.0'']"]
    by simp
qed

section \<open>Status codes\<close>

lemma list_loop_not_200:
  "list_loop token cursor res \<lparr>Pending = p, Sent = s, Entries = es, Closed = c\<rparr>
     \<noteq> (Some (Inl (HttpCode 200)), w')"
proof (induction p arbitrary: cursor res s)
  case Nil
  then show ?case by (simp add: list_loop_Nil)
next
  case (Cons r p)
  then show ?case
    by (cases r) (auto simp: list_loop_Failed list_loop_Response Let_def lack_of_ok_def split: option.splits)
qed

lemma history_loop_not_200:
  "history_loop token ch cursor res ts \<lparr>Pending = p, Sent = s, Entries = es, Closed = c\<rparr>
     \<noteq> (Some (Inl (HttpCode 200)), w')"
proof (induction p arbitrary: cursor res ts s)
  case Nil
  then show ?case by (simp add: history_loop_Nil)
next
  case (Cons r p)
  then show ?case
    by (cases r) (auto simp: history_loop_Failed history_loop_Response Let_def lack_of_ok_def split: option.splits)
qed

lemma replies_loop_not_200:
  "replies_loop token ch tsId cursor res \<lparr>Pending = p, Sent = s, Entries = es, Closed = c\<rparr>
     \<noteq> (Some (Inl (HttpCode 200)), w')"
proof (induction p arbitrary: cursor res s)
  case Nil
  then show ?case by (simp add: replies_loop_Nil)
next
  case (Cons r p)
  then show ?case
    by (cases r) (auto simp: replies_loop_Failed replies_loop_Response Let_def lack_of_ok_def split: option.splits)
qed

lemma replies_range_not_200:
  "replies_range token ch tsIds cursor res w \<noteq> (Some (Inl (HttpCode 200)), w')"
proof (induction tsIds arbitrary: cursor res w)
  case Nil
  then show ?case by simp
next
  case (Cons tsId tsIds)
  obtain p s es c where w: "w = \<lparr>Pending = p, Sent = s, Entries = es, Closed = c\<rparr>"
    by (cases w)
  show ?case
    using Cons replies_loop_not_200 [of token ch tsId cursor res p s es c]
    by (auto simp: w split: prod.splits option.splits sum.splits)
qed

lemma fetchPrivateChannelsList_not_200:
  "fst (fetchPrivateChannelsList token w) \<noteq> Some (recs, Some (HttpCode 200))"
proof -
  obtain p s es c where w: "w = \<lparr>Pending = p, Sent = s, Entries = es, Closed = c\<rparr>"
    by (cases w)
  show ?thesis
    using list_loop_not_200 [of token "[]" "[]" p s es c]
    by (auto simp: fetchPrivateChannelsList_def w split: prod.splits option.splits sum.splits)
qed

lemma fetchChannelHistory_not_200:
  "fst (fetchChannelHistory env output token ch w) \<noteq> Some (ts, Some (HttpCode 200))"
proof -
  obtain p s es c where w: "w = \<lparr>Pending = p, Sent = s, Entries = es, Closed = c\<rparr>"
    by (cases w)
  show ?thesis
    using history_loop_not_200 [of token ch "[]" "[]" "[]" p s es c]
    by (auto simp: fetchChannelHistory_def encode_def write_chunk_def w
        split: prod.splits option.splits sum.splits if_splits)
qed

lemma fetchChannelReplies_not_200:
  "fst (fetchChannelReplies env output token ch tsIds w) \<noteq> Some (Some (HttpCode 200))"
  using replies_range_not_200 [of token ch tsIds "[]" "[]" w]
  by (auto simp: fetchChannelReplies_def encode_def write_chunk_def
      split: prod.splits option.splits sum.splits if_splits)

text \<open>
  Claim C8, as amended. Let a fetch receive some successful pages that each name a next
  cursor, and then a response with the status \<open>code\<close>. The fetch fails with the error
  that carries this status code if and only if the code is not 200: the loops compare
  the status with \<^verbatim>\<open>http.StatusOK\<close>, so that every other status of the 2xx range is
  an error as well, and only a response with the status 200 is decoded.
\<close>

theorem http_code_other_than_200:
  assumes "\<forall>d\<in>set ps. Ok d \<and> NextCursor d \<noteq> []"
    and "Pending w = map page_response ps @ Response code body # rest"
    and "length earlier = length runs" and "\<forall>run\<in>set runs. complete_run run"
    and "Pending w2 = map page_response (concat runs) @ map page_response ps @ Response code body # rest"
  shows "(fst (fetchPrivateChannelsList token w) = Some ([], Some (HttpCode code))) = (code \<noteq> 200)
       \<and> (fst (fetchChannelHistory env output token channelId w) = Some ([], Some (HttpCode code)))
           = (code \<noteq> 200)
       \<and> (fst (fetchChannelReplies env output token channelId (earlier @ tsId # later) w2)
            = Some (Some (HttpCode code))) = (code \<noteq> 200)"
proof (cases "code = 200")
  case True
  then show ?thesis
    using fetchPrivateChannelsList_not_200 fetchChannelHistory_not_200 fetchChannelReplies_not_200
    by simp
next
  case False
  obtain p s es c where w: "w = \<lparr>Pending = p, Sent = s, Entries = es, Closed = c\<rparr>"
    by (cases w)
  obtain p2 s2 es2 c2 where w2: "w2 = \<lparr>Pending = p2, Sent = s2, Entries = es2, Closed = c2\<rparr>"
    by (cases w2)
  have 1: "fst (list_loop token [] [] \<lparr>Pending = map page_response ps @ Response code body # rest, Sent = s, Entries = es, Closed = c\<rparr>)
        = Some (Inl (HttpCode code))"
    using False
    by (simp add: list_loop_cursors [OF assms(1)] list_loop_Response Let_def del: butlast.simps last.simps)
  have 2: "fst (history_loop token channelId [] [] [] \<lparr>Pending = map page_response ps @ Response code body # rest, Sent = s, Entries = es, Closed = c\<rparr>)
        = Some (Inl (HttpCode code))"
    using False
    by (simp add: history_loop_cursors [OF assms(1)] history_loop_Response Let_def del: butlast.simps last.simps)
  have 3: "fst (replies_range token channelId (earlier @ tsId # later) [] []
          \<lparr>Pending = map page_response (concat runs) @ map page_response ps @ Response code body # rest,
           Sent = s2, Entries = es2, Closed = c2\<rparr>)
        = Some (Inl (HttpCode code))"
    using False
    by (simp add: replies_range_runs [OF assms(3,4)] replies_loop_cursors [OF assms(1)]
         replies_loop_Response Let_def del: butlast.simps last.simps)
  show ?thesis
    using assms(2,5) 1 2 3 False
    by (auto simp: fetchPrivateChannelsList_def fetchChannelHistory_def fetchChannelReplies_def
         w w2 split: prod.splits option.splits sum.splits)
qed


text \<open>
  The claim C8 as it is stated fails for the status 204, which is in the 2xx range: the
  history fetch and the reply fetch return the error that carries the code 204.
\<close>

theorem status_204_counterexample:
  "(200 \<le> (204::int) \<and> (204::int) < 300)
   \<and> fst (fetchChannelHistory
        \<lparr>CreateFails = (\<lambda>n. False), WriteFails = (\<lambda>n. False), OutputFails = False, CloseFails = False\<rparr>
        0 ''t'' ''C1''
        \<lparr>Pending = [Response 204 (Some \<lparr>Ok = True, Records = [], NextCursor = []\<rparr>)],
         Sent = [], Entries = [], Closed = False\<rparr>)
       = Some ([], Some (HttpCode 204))
   \<and> fst (fetchChannelReplies
        \<lparr>CreateFails = (\<lambda>n. False), WriteFails = (\<lambda>n. False), OutputFails = False, CloseFails = False\<rparr>
        0 ''t'' ''C1'' [''1.0'']
        \<lparr>Pending = [Response 204 (Some \<lparr>Ok = True, Records = [], NextCursor = []\<rparr>)],
         Sent = [], Entries = [], Closed = False\<rparr>)
       = Some (Some (HttpCode 204))"
  by (simp add: fetchChannelHistory_def fetchChannelReplies_def history_loop_Response
      replies_loop_Response Let_def)

theorem http_code_other_than_200_witness:
  "Ok \<lparr>Ok = True, Records = [[''id'' \<mapsto> JStr ''C1'']], NextCursor = ''n1''\<rparr>
   \<and> NextCursor \<lparr>Ok = True, Records = [[''id'' \<mapsto> JStr ''C1'']], NextCursor = ''n1''\<rparr> \<noteq> []
   \<and> length [''1.0''] = length [[\<lparr>Ok = True, Records = [[''text'' \<mapsto> JStr ''a'']], NextCursor = []\<rparr>]]
   \<and> complete_run [\<lparr>Ok = True, Records = [[''text'' \<mapsto> JStr ''a'']], NextCursor = []\<rparr>]
   \<and> fst (fetchPrivateChannelsList ''t''
        \<lparr>Pending = [page_response \<lparr>Ok = True, Records = [[''id'' \<mapsto> JStr ''C1'']], NextCursor = ''n1''\<rparr>,
                    Response 503 None],
         Sent = [], Entries = [], Closed = False\<rparr>)
       = Some ([], Some (HttpCode 503))
   \<and> fst (fetchChannelHistory
        \<lparr>CreateFails = (\<lambda>n. False), WriteFails = (\<lambda>n. False), OutputFails = False, CloseFails = False\<rparr>
        0 ''t'' ''C1''
        \<lparr>Pending = [page_response \<lparr>Ok = True, Records = [[''id'' \<mapsto> JStr ''C1'']], NextCursor = ''n1''\<rparr>,
                    Response 503 None],
         Sent = [], Entries = [], Closed = False\<rparr>)
       = Some ([], Some (HttpCode 503))
   \<and> fst (fetchChannelReplies
        \<lparr>CreateFails = (\<lambda>n. False), WriteFails = (\<lambda>n. False), OutputFails = False, CloseFails = False\<rparr>
        0 ''t'' ''C1'' [''1.0'', ''2.0'']
        \<lparr>Pending = [page_response \<lparr>Ok = True, Records = [[''text'' \<mapsto> JStr ''a'']], NextCursor = []\<rparr>,
                    page_response \<lparr>Ok = True, Records = [[''id'' \<mapsto> JStr ''C1'']], NextCursor = ''n1''\<rparr>,
                    Response 503 None],
         Sent = [], Entries = [], Closed = False\<rparr>)
       = Some (Some (HttpCode 503))"
proof -
  let ?ps = "[\<lparr>Ok = True, Records = [[''id'' \<mapsto> JStr ''C1'']], NextCursor = ''n1''\<rparr>]"
  let ?runs = "[[\<lparr>Ok = True, Records = [[''text'' \<mapsto> JStr ''a'']], NextCursor = []\<rparr>]]"
  let ?w = "\<lparr>Pending = map page_response ?ps @ Response 503 None # [],
             Sent = [], Entries = [], Closed = False\<rparr>"
  let ?w2 = "\<lparr>Pending = map page_response (concat ?runs) @ map page_response ?ps
                          @ Response 503 None # [],
              Sent = [], Entries = [], Closed = False\<rparr>"
  have h1: "\<forall>d\<in>set ?ps. Ok d \<and> NextCursor d \<noteq> []" by simp
  have h2: "Pending ?w = map page_response ?ps @ Response 503 None # []" by simp
  have h3: "length [''1.0''] = length ?runs" by simp
  have h4: "\<forall>run\<in>set ?runs. complete_run run" by simp
  have h5: "Pending ?w2 = map page_response (concat ?runs) @ map page_response ?ps
                            @ Response 503 None # []" by simp
  show ?thesis
    using http_code_other_than_200 [OF h1 h2 h3 h4 h5, of "''t''"
        "\<lparr>CreateFails = (\<lambda>n. False), WriteFails = (\<lambda>n. False), OutputFails = False, CloseFails = False\<rparr>"
        0 "''C1''" "''2.0''" "[]"]
    by simp
qed

section \<open>Thread parents\<close>

lemma scan_messages_filter:
  "scan_messages ms ts
     = ts @ List.map_filter (\<lambda>m. assert_string (m ''ts''))
              (filter (\<lambda>m. assert_float64 (m ''reply_count'') \<noteq> None) ms)"
  by (induction ms arbitrary: ts) (auto simp: List.map_filter_simps split: option.splits)

lemma history_loop_pages:
  "history_loop token ch cursor res ts \<lparr>Pending = p, Sent = s, Entries = es, Closed = c\<rparr>
     = (Some (Inr (res', ts')), w') \<Longrightarrow>
   \<exists>pages. complete_run pages \<and> p = map page_response pages @ Pending w'
     \<and> res' = res @ concat (map Records pages)
     \<and> ts' = scan_messages (concat (map Records pages)) ts
     \<and> Entries w' = es \<and> Closed w' = c"
proof (induction p arbitrary: cursor res ts s)
  case Nil
  then show ?case by (simp add: history_loop_Nil)
next
  case (Cons r p)
  show ?case
  proof (cases r)
    case (Failed e)
    with Cons.prems show ?thesis by (simp add: history_loop_Failed)
  next
    case (Response code body)
    with Cons.prems obtain d where code: "code = 200" and body: "body = Some d" and ok: "Ok d"
      by (auto simp: history_loop_Response Let_def split: if_splits option.splits)
    show ?thesis
    proof (cases "NextCursor d = []")
      case True
      with Cons.prems Response code body ok
      have "res' = res @ Records d" "ts' = scan_messages (Records d) ts" "Pending w' = p"
        "Entries w' = es" "Closed w' = c"
        by (auto simp: history_loop_Response Let_def)
      with True ok code body Response
      have "complete_run [d] \<and> r # p = map page_response [d] @ Pending w'
        \<and> res' = res @ concat (map Records [d])
        \<and> ts' = scan_messages (concat (map Records [d])) ts
        \<and> Entries w' = es \<and> Closed w' = c"
        by (simp add: page_response_def)
      then show ?thesis by blast
    next
      case False
      with Cons.prems Response code body ok
      have "history_loop token ch (NextCursor d) (res @ Records d) (scan_messages (Records d) ts)
              \<lparr>Pending = p, Sent = s @ [history_request token ch cursor], Entries = es, Closed = c\<rparr>
            = (Some (Inr (res', ts')), w')"
        by (simp add: history_loop_Response Let_def)
      from Cons.IH [OF this] obtain pages where pages: "complete_run pages"
        "p = map page_response pages @ Pending w'"
        "res' = (res @ Records d) @ concat (map Records pages)"
        "ts' = scan_messages (concat (map Records pages)) (scan_messages (Records d) ts)"
        "Entries w' = es" "Closed w' = c"
        by blast
      from pages(1) have "pages \<noteq> []" by (cases pages) simp_all
      then have "complete_run (d # pages)"
        using pages(1) ok False by (cases pages) simp_all
      with pages Response code body
      have "complete_run (d # pages) \<and> r # p = map page_response (d # pages) @ Pending w'
        \<and> res' = res @ concat (map Records (d # pages))
        \<and> ts' = scan_messages (concat (map Records (d # pages))) ts
        \<and> Entries w' = es \<and> Closed w' = c"
        by (simp add: page_response_def scan_messages_append)
      then show ?thesis by blast
    qed
  qed
qed

lemma assert_string_eq_Some: "assert_string x = Some s \<longleftrightarrow> x = Some (JStr s)"
  by (cases x rule: assert_string.cases) auto

lemma assert_float64_eq_Some: "assert_float64 x = Some n \<longleftrightarrow> x = Some (JNum n)"
  by (cases x rule: assert_float64.cases) auto

lemma thread_parents_typed:
  "list_all message_typed ms \<Longrightarrow>
   map JStr (List.map_filter (\<lambda>m. assert_string (m ''ts''))
               (filter (\<lambda>m. assert_float64 (m ''reply_count'') \<noteq> None) ms))
     = List.map_filter (\<lambda>m. m ''ts'') (filter (\<lambda>m. m ''reply_count'' \<noteq> None) ms)"
proof (induction ms)
  case Nil
  then show ?case by (simp add: List.map_filter_simps)
next
  case (Cons m ms)
  then have m: "message_typed m" and ms: "list_all message_typed ms"
    by simp_all
  from m have rc: "assert_float64 (m ''reply_count'') \<noteq> None \<longleftrightarrow> m ''reply_count'' \<noteq> None"
    by (cases "m ''reply_count''") (simp_all add: message_typed_def)
  from m have ts: "map_option JStr (assert_string (m ''ts'')) = m ''ts''"
    by (cases "m ''ts''") (auto simp: message_typed_def assert_string_eq_Some)
  show ?case
  proof (cases "m ''ts''")
    case None
    with Cons.IH [OF ms] rc show ?thesis
      by (simp add: List.map_filter_simps)
  next
    case (Some v)
    with ts obtain s where "assert_string (m ''ts'') = Some s" "v = JStr s"
      by (cases "assert_string (m ''ts'')") auto
    with Some Cons.IH [OF ms] rc show ?thesis
      by (simp add: List.map_filter_simps)
  qed
qed

text \<open>
  Claim C6. When the history fetch returns without an error, it has consumed a complete
  run of pages and written the messages of these pages, in order, to its output. The
  identifiers it returns are the \<open>ts\<close> strings of those of these messages whose
  \<open>reply_count\<close> is a number, in the order of the messages across the pages: the two
  type assertions of the scan are guarded. On messages typed as the data model of the
  specification has them (\<open>ts\<close> a string, \<open>reply_count\<close> a number, each one where the
  message has it), these are exactly the \<open>ts\<close> values of the messages that carry a
  \<open>reply_count\<close>, in the original order.
\<close>

theorem fetchChannelHistory_thread_parents:
  assumes "fetchChannelHistory env output token channelId w = (Some (ts_ids, None), w')"
  shows "\<exists>pages. complete_run pages
           \<and> Pending w = map page_response pages @ Pending w'
           \<and> Entries w' = (Entries w)[output := (Entries w ! output)
                \<lparr>Body := Body (Entries w ! output) @ [Encoded (concat (map Records pages))]\<rparr>]
           \<and> ts_ids = List.map_filter (\<lambda>m. assert_string (m ''ts''))
                (filter (\<lambda>m. assert_float64 (m ''reply_count'') \<noteq> None)
                   (concat (map Records pages)))
           \<and> (list_all message_typed (concat (map Records pages))
                \<longrightarrow> map JStr ts_ids
                      = List.map_filter (\<lambda>m. m ''ts'')
                          (filter (\<lambda>m. m ''reply_count'' \<noteq> None) (concat (map Records pages))))"
proof -
  obtain p s es c where w: "w = \<lparr>Pending = p, Sent = s, Entries = es, Closed = c\<rparr>"
    by (cases w)
  from assms obtain res w1 where loop:
    "history_loop token channelId [] [] [] \<lparr>Pending = p, Sent = s, Entries = es, Closed = c\<rparr>
       = (Some (Inr (res, ts_ids)), w1)"
    and enc: "encode env output res w1 = (None, w')"
    by (auto simp: fetchChannelHistory_def w split: prod.splits option.splits sum.splits)
  from history_loop_pages [OF loop] obtain pages where pages: "complete_run pages"
    "p = map page_response pages @ Pending w1" "res = concat (map Records pages)"
    "ts_ids = scan_messages (concat (map Records pages)) []" "Entries w1 = es"
    by auto
  from enc have "Pending w' = Pending w1"
    "Entries w' = (Entries w1)[output := (Entries w1 ! output)
                \<lparr>Body := Body (Entries w1 ! output) @ [Encoded res]\<rparr>]"
    by (auto simp: encode_def write_chunk_def split: if_splits)
  with pages have c1: "complete_run pages"
    and c2: "Pending w = map page_response pages @ Pending w'"
    and c3: "Entries w' = (Entries w)[output := (Entries w ! output)
                \<lparr>Body := Body (Entries w ! output) @ [Encoded (concat (map Records pages))]\<rparr>]"
    and c4: "ts_ids = List.map_filter (\<lambda>m. assert_string (m ''ts''))
                (filter (\<lambda>m. assert_float64 (m ''reply_count'') \<noteq> None)
                   (concat (map Records pages)))"
    by (simp_all add: w scan_messages_filter)
  have c5: "list_all message_typed (concat (map Records pages))
                \<longrightarrow> map JStr ts_ids
                      = List.map_filter (\<lambda>m. m ''ts'')
                          (filter (\<lambda>m. m ''reply_count'' \<noteq> None) (concat (map Records pages)))"
    unfolding c4 by (rule impI) (rule thread_parents_typed)
  show ?thesis
    by (intro exI [of _ pages] conjI c1 c2 c3 c4 c5)
qed

theorem fetchChannelHistory_thread_parents_witness:
  "fetchChannelHistory
     \<lparr>CreateFails = (\<lambda>n. False), WriteFails = (\<lambda>n. False), OutputFails = False, CloseFails = False\<rparr>
     0 ''t'' ''C1''
     \<lparr>Pending = [page_response \<lparr>Ok = True,
                     Records = [[''ts'' \<mapsto> JStr ''1.0'', ''reply_count'' \<mapsto> JNum 2],
                                [''ts'' \<mapsto> JStr ''2.0'']],
                     NextCursor = ''n1''\<rparr>,
                 page_response \<lparr>Ok = True,
                     Records = [[''ts'' \<mapsto> JStr ''3.0'', ''reply_count'' \<mapsto> JNum 1],
                                [''reply_count'' \<mapsto> JNum 4]],
                     NextCursor = []\<rparr>],
      Sent = [],
      Entries = [created ''x/messages.json'' []],
      Closed = False\<rparr>
   = (Some ([''1.0'', ''3.0''], None),
      \<lparr>Pending = [],
       Sent = [history_request ''t'' ''C1'' [], history_request ''t'' ''C1'' ''n1''],
       Entries = [created ''x/messages.json'' [Encoded [[''ts'' \<mapsto> JStr ''1.0'', ''reply_count'' \<mapsto> JNum 2],
          [''ts'' \<mapsto> JStr ''2.0''],
          [''ts'' \<mapsto> JStr ''3.0'', ''reply_count'' \<mapsto> JNum 1],
          [''reply_count'' \<mapsto> JNum 4]]]],
       Closed = False\<rparr>)
   \<and> map JStr [''1.0'', ''3.0'']
       = List.map_filter (\<lambda>m. m ''ts'') (filter (\<lambda>m. m ''reply_count'' \<noteq> None)
         [[''ts'' \<mapsto> JStr ''1.0'', ''reply_count'' \<mapsto> JNum 2],
          [''ts'' \<mapsto> JStr ''2.0''],
          [''ts'' \<mapsto> JStr ''3.0'', ''reply_count'' \<mapsto> JNum 1],
          [''reply_count'' \<mapsto> JNum 4]])"
proof -
  let ?env = "\<lparr>CreateFails = (\<lambda>n. False), WriteFails = (\<lambda>n. False), OutputFails = False, CloseFails = False\<rparr>"
  let ?d1 = "\<lparr>Ok = True,
                     Records = [[''ts'' \<mapsto> JStr ''1.0'', ''reply_count'' \<mapsto> JNum 2],
                                [''ts'' \<mapsto> JStr ''2.0'']],
                     NextCursor = ''n1''\<rparr>"
  let ?d2 = "\<lparr>Ok = True,
                     Records = [[''ts'' \<mapsto> JStr ''3.0'', ''reply_count'' \<mapsto> JNum 1],
                                [''reply_count'' \<mapsto> JNum 4]],
                     NextCursor = []\<rparr>"
  let ?msgs = "[[''ts'' \<mapsto> JStr ''1.0'', ''reply_count'' \<mapsto> JNum 2],
          [''ts'' \<mapsto> JStr ''2.0''],
          [''ts'' \<mapsto> JStr ''3.0'', ''reply_count'' \<mapsto> JNum 1],
          [''reply_count'' \<mapsto> JNum 4]]"
  let ?w = "\<lparr>Pending = [page_response ?d1, page_response ?d2], Sent = [],
      Entries = [created ''x/messages.json'' []], Closed = False\<rparr>"
  let ?w' = "\<lparr>Pending = [],
       Sent = [history_request ''t'' ''C1'' [], history_request ''t'' ''C1'' ''n1''],
       Entries = [created ''x/messages.json'' [Encoded ?msgs]],
       Closed = False\<rparr>"
  have run: "fetchChannelHistory ?env 0 ''t'' ''C1'' ?w = (Some ([''1.0'', ''3.0''], None), ?w')"
    by (simp add: fetchChannelHistory_def history_loop_Response page_response_def Let_def
        encode_def write_chunk_def created_def)
  from fetchChannelHistory_thread_parents [OF run] obtain pages
    where p: "Pending ?w = map page_response pages @ Pending ?w'"
    and t: "list_all message_typed (concat (map Records pages))
                \<longrightarrow> map JStr [''1.0'', ''3.0'']
                      = List.map_filter (\<lambda>m. m ''ts'')
                          (filter (\<lambda>m. m ''reply_count'' \<noteq> None) (concat (map Records pages)))"
    by blast
  from p have "map page_response pages = map page_response [?d1, ?d2]"
    by simp
  moreover have "inj page_response"
    by (simp add: inj_def page_response_def)
  ultimately have pages: "pages = [?d1, ?d2]"
    by (simp only: inj_map_eq_map)
  have "list_all message_typed ?msgs"
    by (simp add: message_typed_def)
  with t pages have "map JStr [''1.0'', ''3.0'']
       = List.map_filter (\<lambda>m. m ''ts'') (filter (\<lambda>m. m ''reply_count'' \<noteq> None) ?msgs)"
    by simp
  with run show ?thesis
    by (rule conjI)
qed

text \<open>
  The hypothesis on the types is needed. The first message below carries
  \<open>reply_count\<close> as a string, the second carries \<open>reply_count\<close> as a number and \<open>ts\<close>
  as a number: the fetch succeeds and returns no identifier.
\<close>

lemma fetchChannelHistory_untyped_messages:
  "fetchChannelHistory
     \<lparr>CreateFails = (\<lambda>n. False), WriteFails = (\<lambda>n. False), OutputFails = False, CloseFails = False\<rparr>
     0 ''t'' ''C1''
     \<lparr>Pending = [page_response \<lparr>Ok = True,
                     Records = [[''ts'' \<mapsto> JStr ''1.0'', ''reply_count'' \<mapsto> JStr ''2''],
                                [''ts'' \<mapsto> JNum 5, ''reply_count'' \<mapsto> JNum 1]],
                     NextCursor = []\<rparr>],
      Sent = [],
      Entries = [created ''x/messages.json'' []],
      Closed = False\<rparr>
   = (Some ([], None),
      \<lparr>Pending = [],
       Sent = [history_request ''t'' ''C1'' []],
       Entries = [created ''x/messages.json''
                    [Encoded [[''ts'' \<mapsto> JStr ''1.0'', ''reply_count'' \<mapsto> JStr ''2''],
                              [''ts'' \<mapsto> JNum 5, ''reply_count'' \<mapsto> JNum 1]]]],
       Closed = False\<rparr>)
   \<and> \<not> message_typed [''ts'' \<mapsto> JStr ''1.0'', ''reply_count'' \<mapsto> JStr ''2'']
   \<and> \<not> message_typed [''ts'' \<mapsto> JNum 5, ''reply_count'' \<mapsto> JNum 1]"
  by (simp add: fetchChannelHistory_def history_loop_Response page_response_def Let_def
      encode_def write_chunk_def created_def message_typed_def)

section \<open>The orchestrator\<close>

lemma channels_range_no_panic:
  "list_all channel_typed channels \<Longrightarrow> fst (channels_range env token channels w) \<noteq> Panic"
  by (induction channels arbitrary: w)
     (auto simp: channel_typed_def split: prod.splits option.splits sum.splits)

lemma channels_range_not_typed:
  "\<not> list_all channel_typed channels \<Longrightarrow> fst (channels_range env token channels w) \<noteq> Return None"
  by (induction channels arbitrary: w)
     (auto simp: channel_typed_def split: prod.splits option.splits sum.splits)

lemma channels_range_append:
  "channels_range env token (pre @ post) w
     = (case channels_range env token pre w of
          (Return None, w') \<Rightarrow> channels_range env token post w'
        | other \<Rightarrow> other)"
  by (induction pre arbitrary: w)
     (auto split: prod.splits option.splits sum.splits outcome.splits)

lemma channels_range_Panic_iff:
  "channels_range env token channels w = (Panic, w')
     \<longleftrightarrow> (\<exists>pre bad post. channels = pre @ bad # post \<and> \<not> channel_typed bad
                          \<and> channels_range env token pre w = (Return None, w'))"
proof
  show "channels_range env token channels w = (Panic, w')
    \<Longrightarrow> \<exists>pre bad post. channels = pre @ bad # post \<and> \<not> channel_typed bad
                          \<and> channels_range env token pre w = (Return None, w')"
  proof (induction channels arbitrary: w)
    case Nil
    then show ?case by simp
  next
    case (Cons channel channels)
    show ?case
    proof (cases "channel_typed channel")
      case False
      with Cons.prems have "w' = w"
        by (auto simp: channel_typed_def split: option.splits)
      with False have "channel # channels = [] @ channel # channels \<and> \<not> channel_typed channel
          \<and> channels_range env token [] w = (Return None, w')"
        by simp
      then show ?thesis by blast
    next
      case True
      with Cons.prems obtain w4 where one: "channels_range env token [channel] w = (Return None, w4)"
        and more: "channels_range env token channels w4 = (Panic, w')"
        by (auto simp: channel_typed_def split: prod.splits option.splits sum.splits)
      from Cons.IH [OF more] obtain pre bad post where d: "channels = pre @ bad # post"
        "\<not> channel_typed bad" "channels_range env token pre w4 = (Return None, w')"
        by blast
      from one d(3) have "channels_range env token ([channel] @ pre) w = (Return None, w')"
        by (simp only: channels_range_append split: prod.splits) simp
      with d(1,2) have "channel # channels = (channel # pre) @ bad # post \<and> \<not> channel_typed bad
          \<and> channels_range env token (channel # pre) w = (Return None, w')"
        by simp
      then show ?thesis by blast
    qed
  qed
next
  assume "\<exists>pre bad post. channels = pre @ bad # post \<and> \<not> channel_typed bad
                          \<and> channels_range env token pre w = (Return None, w')"
  then obtain pre bad post where d: "channels = pre @ bad # post" "\<not> channel_typed bad"
    "channels_range env token pre w = (Return None, w')"
    by blast
  from d(2) have "channels_range env token (bad # post) w' = (Panic, w')"
    by (auto simp: channel_typed_def split: option.splits)
  with d(1,3) show "channels_range env token channels w = (Panic, w')"
    by (simp add: channels_range_append)
qed

text \<open>
  Claim C10. Let the listing fetch return the channels without an error. If every
  channel has a string \<open>id\<close> and a string \<open>name\<close>, the orchestrator does not panic.
  It panics exactly when it comes to a channel that lacks one of the two (the key is
  missing, or its value is not a string), wherever in the listing this channel is: the
  listing has been written, and every channel before it has been ingested. With such a
  channel in the listing the orchestrator never returns nil: it panics, which is not
  the return of an error value, unless the run ends before it comes to the channel.
\<close>

theorem createGroupsJson_panic:
  assumes "fetchPrivateChannelsList token w = (Some (channels, None), w1)"
  shows "(list_all channel_typed channels \<longrightarrow> fst (createGroupsJson env output token w) \<noteq> Panic)
       \<and> (createGroupsJson env output token w = (Panic, w')
            \<longleftrightarrow> (\<exists>w2 pre bad post.
                   encode env output channels w1 = (None, w2)
                   \<and> channels = pre @ bad # post \<and> \<not> channel_typed bad
                   \<and> channels_range env token pre w2 = (Return None, w')))
       \<and> (\<not> list_all channel_typed channels
            \<longrightarrow> fst (createGroupsJson env output token w) \<noteq> Return None)"
proof (intro conjI impI)
  assume "list_all channel_typed channels"
  from channels_range_no_panic [OF this] assms
  show "fst (createGroupsJson env output token w) \<noteq> Panic"
    by (auto simp: createGroupsJson_def split: prod.splits option.splits)
next
  assume "\<not> list_all channel_typed channels"
  from channels_range_not_typed [OF this] assms
  show "fst (createGroupsJson env output token w) \<noteq> Return None"
    by (auto simp: createGroupsJson_def split: prod.splits option.splits)
next
  obtain err w2 where e: "encode env output channels w1 = (err, w2)"
    by (cases "encode env output channels w1")
  show "createGroupsJson env output token w = (Panic, w')
            \<longleftrightarrow> (\<exists>w2 pre bad post.
                   encode env output channels w1 = (None, w2)
                   \<and> channels = pre @ bad # post \<and> \<not> channel_typed bad
                   \<and> channels_range env token pre w2 = (Return None, w'))"
  proof (cases err)
    case None
    with assms e have "createGroupsJson env output token w = channels_range env token channels w2"
      by (simp add: createGroupsJson_def)
    with None e show ?thesis
      by (simp add: channels_range_Panic_iff)
  next
    case (Some err2)
    with assms e show ?thesis
      by (simp add: createGroupsJson_def)
  qed
qed

theorem createGroupsJson_panic_witness:
  "fetchPrivateChannelsList ''t''
     \<lparr>Pending = [page_response \<lparr>Ok = True,
                    Records = [[''id'' \<mapsto> JStr ''C1'', ''name'' \<mapsto> JStr ''proj''],
                               [''id'' \<mapsto> JStr ''C2'', ''name'' \<mapsto> JNull]],
                    NextCursor = []\<rparr>,
                 page_response \<lparr>Ok = True, Records = [], NextCursor = []\<rparr>],
      Sent = [],
      Entries = [created ''groups.json'' []],
      Closed = False\<rparr>
   = (Some ([[''id'' \<mapsto> JStr ''C1'', ''name'' \<mapsto> JStr ''proj''],
             [''id'' \<mapsto> JStr ''C2'', ''name'' \<mapsto> JNull]], None),
      \<lparr>Pending = [page_response \<lparr>Ok = True, Records = [], NextCursor = []\<rparr>],
       Sent = [list_request ''t'' []],
       Entries = [created ''groups.json'' []],
       Closed = False\<rparr>)
   \<and> createGroupsJson
        \<lparr>CreateFails = (\<lambda>n. False), WriteFails = (\<lambda>n. False), OutputFails = False, CloseFails = False\<rparr>
        0 ''t''
        \<lparr>Pending = [page_response \<lparr>Ok = True,
                       Records = [[''id'' \<mapsto> JStr ''C1'', ''name'' \<mapsto> JStr ''proj''],
                                  [''id'' \<mapsto> JStr ''C2'', ''name'' \<mapsto> JNull]],
                       NextCursor = []\<rparr>,
                    page_response \<lparr>Ok = True, Records = [], NextCursor = []\<rparr>],
         Sent = [],
         Entries = [created ''groups.json'' []],
         Closed = False\<rparr>
     = (Panic,
        \<lparr>Pending = [],
         Sent = [list_request ''t'' [], history_request ''t'' ''C1'' []],
         Entries = [created ''groups.json''
                      [Encoded [[''id'' \<mapsto> JStr ''C1'', ''name'' \<mapsto> JStr ''proj''],
                                [''id'' \<mapsto> JStr ''C2'', ''name'' \<mapsto> JNull]]],
                    created ''proj/messages.json'' [Encoded []],
                    created ''proj/replies.json'' [Encoded []]],
         Closed = False\<rparr>)
   \<and> fst (createGroupsJson
        \<lparr>CreateFails = (\<lambda>n. False), WriteFails = (\<lambda>n. False), OutputFails = False, CloseFails = False\<rparr>
        0 ''t''
        \<lparr>Pending = [page_response \<lparr>Ok = True,
                       Records = [[''id'' \<mapsto> JStr ''C1'', ''name'' \<mapsto> JStr ''proj''],
                                  [''id'' \<mapsto> JStr ''C2'', ''name'' \<mapsto> JNull]],
                       NextCursor = []\<rparr>,
                    page_response \<lparr>Ok = True, Records = [], NextCursor = []\<rparr>],
         Sent = [],
         Entries = [created ''groups.json'' []],
         Closed = False\<rparr>) \<noteq> Return None
   \<and> fetchPrivateChannelsList ''t''
     \<lparr>Pending = [page_response \<lparr>Ok = True,
                    Records = [[''id'' \<mapsto> JStr ''C1'', ''name'' \<mapsto> JStr ''proj'']], NextCursor = []\<rparr>,
                 page_response \<lparr>Ok = True, Records = [], NextCursor = []\<rparr>],
      Sent = [],
      Entries = [created ''groups.json'' []],
      Closed = False\<rparr>
   = (Some ([[''id'' \<mapsto> JStr ''C1'', ''name'' \<mapsto> JStr ''proj'']], None),
      \<lparr>Pending = [page_response \<lparr>Ok = True, Records = [], NextCursor = []\<rparr>],
       Sent = [list_request ''t'' []],
       Entries = [created ''groups.json'' []],
       Closed = False\<rparr>)
   \<and> fst (createGroupsJson
        \<lparr>CreateFails = (\<lambda>n. False), WriteFails = (\<lambda>n. False), OutputFails = False, CloseFails = False\<rparr>
        0 ''t''
        \<lparr>Pending = [page_response \<lparr>Ok = True,
                       Records = [[''id'' \<mapsto> JStr ''C1'', ''name'' \<mapsto> JStr ''proj'']], NextCursor = []\<rparr>,
                    page_response \<lparr>Ok = True, Records = [], NextCursor = []\<rparr>],
         Sent = [],
         Entries = [created ''groups.json'' []],
         Closed = False\<rparr>) \<noteq> Panic"
proof -
  let ?env = "\<lparr>CreateFails = (\<lambda>n. False), WriteFails = (\<lambda>n. False), OutputFails = False, CloseFails = False\<rparr>"
  let ?good = "[''id'' \<mapsto> JStr ''C1'', ''name'' \<mapsto> JStr ''proj'']"
  let ?bad = "[''id'' \<mapsto> JStr ''C2'', ''name'' \<mapsto> JNull]"
  let ?empty = "page_response \<lparr>Ok = True, Records = [], NextCursor = []\<rparr>"
  let ?wg = "\<lparr>Pending = [page_response \<lparr>Ok = True, Records = [?good], NextCursor = []\<rparr>, ?empty],
      Sent = [], Entries = [created ''groups.json'' []], Closed = False\<rparr>"
  let ?wg1 = "\<lparr>Pending = [?empty],
       Sent = [list_request ''t'' []], Entries = [created ''groups.json'' []], Closed = False\<rparr>"
  let ?wb = "\<lparr>Pending = [page_response \<lparr>Ok = True, Records = [?good, ?bad], NextCursor = []\<rparr>, ?empty],
      Sent = [], Entries = [created ''groups.json'' []], Closed = False\<rparr>"
  let ?wb1 = "\<lparr>Pending = [?empty], Sent = [list_request ''t'' []],
      Entries = [created ''groups.json'' []], Closed = False\<rparr>"
  let ?wb2 = "\<lparr>Pending = [?empty], Sent = [list_request ''t'' []],
      Entries = [created ''groups.json'' [Encoded [?good, ?bad]]], Closed = False\<rparr>"
  let ?wb3 = "\<lparr>Pending = [], Sent = [list_request ''t'' [], history_request ''t'' ''C1'' []],
      Entries = [created ''groups.json'' [Encoded [?good, ?bad]],
                 created ''proj/messages.json'' [Encoded []],
                 created ''proj/replies.json'' [Encoded []]], Closed = False\<rparr>"
  have lg: "fetchPrivateChannelsList ''t'' ?wg = (Some ([?good], None), ?wg1)"
    by (simp add: fetchPrivateChannelsList_def list_loop_Response page_response_def Let_def)
  have lb: "fetchPrivateChannelsList ''t'' ?wb = (Some ([?good, ?bad], None), ?wb1)"
    by (simp add: fetchPrivateChannelsList_def list_loop_Response page_response_def Let_def)
  have tg: "list_all channel_typed [?good]"
    by (simp add: channel_typed_def)
  have tb: "\<not> channel_typed ?bad"
    by (simp add: channel_typed_def)
  then have ntb: "\<not> list_all channel_typed [?good, ?bad]"
    by simp
  have e: "encode ?env 0 [?good, ?bad] ?wb1 = (None, ?wb2)"
    by (simp add: encode_def write_chunk_def created_def)
  have pre: "channels_range ?env ''t'' [?good] ?wb2 = (Return None, ?wb3)"
    by (simp add: fetchChannelHistory_def fetchChannelReplies_def history_loop_Response
        page_response_def Let_def encode_def write_chunk_def zip_Create_def zip_CreateHeader_def
        created_def)
  have "[?good, ?bad] = [?good] @ ?bad # []"
    by simp
  with e tb pre have "\<exists>w2 pre bad post.
      encode ?env 0 [?good, ?bad] ?wb1 = (None, w2)
      \<and> [?good, ?bad] = pre @ bad # post \<and> \<not> channel_typed bad
      \<and> channels_range ?env ''t'' pre w2 = (Return None, ?wb3)"
    by blast
  then have bad: "createGroupsJson ?env 0 ''t'' ?wb = (Panic, ?wb3)"
    by (rule createGroupsJson_panic [OF lb, of ?env 0 ?wb3, THEN conjunct2, THEN conjunct1, THEN iffD2])
  from ntb have never: "fst (createGroupsJson ?env 0 ''t'' ?wb) \<noteq> Return None"
    by (rule createGroupsJson_panic [OF lb, of ?env 0 ?wb3, THEN conjunct2, THEN conjunct2, THEN mp])
  from tg have good: "fst (createGroupsJson ?env 0 ''t'' ?wg) \<noteq> Panic"
    by (rule createGroupsJson_panic [OF lg, of ?env 0 ?wg1, THEN conjunct1, THEN mp])
  from lb bad never lg good show ?thesis
    by (intro conjI)
qed

text \<open>
  Claim C1 does not hold of the code. Two channels are listed; the history of the first
  has one thread parent, and the request for its replies is answered with the status
  500. \<^verbatim>\<open>fetchChannelReplies\<close> returns the error, as the first equation shows, but
  \<^verbatim>\<open>createGroupsJson\<close> drops it: it goes on to the second channel, fetches its history
  and returns nil.
\<close>

theorem createGroupsJson_ignores_reply_error:
  "fetchChannelReplies
     \<lparr>CreateFails = (\<lambda>n. False), WriteFails = (\<lambda>n. False), OutputFails = False, CloseFails = False\<rparr>
     2 ''t'' ''C1'' [''1.0'']
     \<lparr>Pending = [Response 500 None,
                 page_response \<lparr>Ok = True, Records = [], NextCursor = []\<rparr>],
      Sent = [list_request ''t'' [], history_request ''t'' ''C1'' []],
      Entries = [\<lparr>Header = written_header (fresh_header ''groups.json''),
                  Body = [Encoded [[''id'' \<mapsto> JStr ''C1'', ''name'' \<mapsto> JStr ''a''],
                                   [''id'' \<mapsto> JStr ''C2'', ''name'' \<mapsto> JStr ''b'']]]\<rparr>,
                 \<lparr>Header = written_header (fresh_header ''a/messages.json''),
                  Body = [Encoded [[''ts'' \<mapsto> JStr ''1.0'', ''reply_count'' \<mapsto> JNum 2]]]\<rparr>,
                 \<lparr>Header = written_header (fresh_header ''a/replies.json''),
                  Body = []\<rparr>],
      Closed = False\<rparr>
   = (Some (Some (HttpCode 500)),
      \<lparr>Pending = [page_response \<lparr>Ok = True, Records = [], NextCursor = []\<rparr>],
       Sent = [list_request ''t'' [], history_request ''t'' ''C1'' [],
               replies_request ''t'' ''C1'' ''1.0'' []],
       Entries = [\<lparr>Header = written_header (fresh_header ''groups.json''),
                  Body = [Encoded [[''id'' \<mapsto> JStr ''C1'', ''name'' \<mapsto> JStr ''a''],
                                   [''id'' \<mapsto> JStr ''C2'', ''name'' \<mapsto> JStr ''b'']]]\<rparr>,
                 \<lparr>Header = written_header (fresh_header ''a/messages.json''),
                  Body = [Encoded [[''ts'' \<mapsto> JStr ''1.0'', ''reply_count'' \<mapsto> JNum 2]]]\<rparr>,
                 \<lparr>Header = written_header (fresh_header ''a/replies.json''),
                  Body = []\<rparr>],
       Closed = False\<rparr>)
   \<and> createGroupsJson
     \<lparr>CreateFails = (\<lambda>n. False), WriteFails = (\<lambda>n. False), OutputFails = False, CloseFails = False\<rparr>
     0 ''t''
     \<lparr>Pending = [page_response \<lparr>Ok = True,
                    Records = [[''id'' \<mapsto> JStr ''C1'', ''name'' \<mapsto> JStr ''a''],
                               [''id'' \<mapsto> JStr ''C2'', ''name'' \<mapsto> JStr ''b'']],
                    NextCursor = []\<rparr>,
                 page_response \<lparr>Ok = True,
                    Records = [[''ts'' \<mapsto> JStr ''1.0'', ''reply_count'' \<mapsto> JNum 2]],
                    NextCursor = []\<rparr>,
                 Response 500 None,
                 page_response \<lparr>Ok = True, Records = [], NextCursor = []\<rparr>],
      Sent = [],
      Entries = [\<lparr>Header = written_header (fresh_header ''groups.json''), Body = []\<rparr>],
      Closed = False\<rparr>
   = (Return None,
      \<lparr>Pending = [],
       Sent = [list_request ''t'' [], history_request ''t'' ''C1'' [],
               replies_request ''t'' ''C1'' ''1.0'' [], history_request ''t'' ''C2'' []],
       Entries = [\<lparr>Header = written_header (fresh_header ''groups.json''),
                  Body = [Encoded [[''id'' \<mapsto> JStr ''C1'', ''name'' \<mapsto> JStr ''a''],
                                   [''id'' \<mapsto> JStr ''C2'', ''name'' \<mapsto> JStr ''b'']]]\<rparr>,
                 \<lparr>Header = written_header (fresh_header ''a/messages.json''),
                  Body = [Encoded [[''ts'' \<mapsto> JStr ''1.0'', ''reply_count'' \<mapsto> JNum 2]]]\<rparr>,
                 \<lparr>Header = written_header (fresh_header ''a/replies.json''),
                  Body = []\<rparr>,
                 \<lparr>Header = written_header (fresh_header ''b/messages.json''),
                  Body = [Encoded []]\<rparr>,
                 \<lparr>Header = written_header (fresh_header ''b/replies.json''),
                  Body = [Encoded []]\<rparr>],
       Closed = False\<rparr>)"
  by (simp add: createGroupsJson_def fetchPrivateChannelsList_def fetchChannelHistory_def
      fetchChannelReplies_def list_loop_Response history_loop_Response replies_loop_Response
      page_response_def Let_def encode_def write_chunk_def zip_Create_def zip_CreateHeader_def)

text \<open>
  Claim C2 does not hold of the code. The input archive has the single entry
  \<^verbatim>\<open>groups.json\<close>. The entry is copied, and \<^verbatim>\<open>w.Create("groups.json")\<close>, which
  is called whether or not the entry was found, adds a second, empty entry with the
  same name.
\<close>

theorem groups_json_created_twice:
  "fetchPrivateChannels
     \<lparr>CreateFails = (\<lambda>n. False), WriteFails = (\<lambda>n. False), OutputFails = False, CloseFails = False\<rparr>
     ''t''
     (Some [\<lparr>FileHeader = \<lparr>Name = ''groups.json'', Comment = ''export'', NonUTF8 = False,
                              CreatorVersion = 20, ReaderVersion = 20, Flags = 0, Method = 8,
                              Modified = None, ModifiedTime = 0, ModifiedDate = 0, Extra = [],
                              ExternalAttrs = 0\<rparr>,
             Open = Some \<lparr>Delivered = [91, 93], ReadError = False\<rparr>\<rparr>])
     []
   = (Return None,
      \<lparr>Pending = [], Sent = [],
       Entries = [\<lparr>Header = written_header
                            \<lparr>Name = ''groups.json'', Comment = ''export'', NonUTF8 = False,
                              CreatorVersion = 20, ReaderVersion = 20, Flags = 0, Method = 8,
                              Modified = None, ModifiedTime = 0, ModifiedDate = 0, Extra = [],
                              ExternalAttrs = 0\<rparr>,
                   Body = [Bytes [91, 93]]\<rparr>,
                  \<lparr>Header = written_header (fresh_header ''groups.json''),
                   Body = []\<rparr>],
       Closed = True\<rparr>)
   \<and> length (filter (\<lambda>e. Name (Header e) = ''groups.json'')
        (Entries (snd (fetchPrivateChannels
           \<lparr>CreateFails = (\<lambda>n. False), WriteFails = (\<lambda>n. False), OutputFails = False, CloseFails = False\<rparr>
           ''t''
           (Some [\<lparr>FileHeader = \<lparr>Name = ''groups.json'', Comment = ''export'', NonUTF8 = False,
                              CreatorVersion = 20, ReaderVersion = 20, Flags = 0, Method = 8,
                              Modified = None, ModifiedTime = 0, ModifiedDate = 0, Extra = [],
                              ExternalAttrs = 0\<rparr>,
                   Open = Some \<lparr>Delivered = [91, 93], ReadError = False\<rparr>\<rparr>])
           [])))) = 2"
  by (simp add: fetchPrivateChannels_def io_Copy_def write_chunk_def zip_Create_def
      zip_CreateHeader_def zip_Close_def is_directory_def)

section \<open>What a call leaves of the output archive\<close>

lemma list_loop_Entries:
  "list_loop token cursor res \<lparr>Pending = p, Sent = s, Entries = es, Closed = c\<rparr> = (r, w')
   \<Longrightarrow> Entries w' = es \<and> Closed w' = c"
proof (induction p arbitrary: cursor res s)
  case Nil
  then show ?case by (auto simp: list_loop_Nil)
next
  case (Cons x p)
  then show ?case
    by (cases x) (auto simp: list_loop_Failed list_loop_Response Let_def split: if_splits option.splits)
qed

lemma history_loop_Entries:
  "history_loop token ch cursor res ts \<lparr>Pending = p, Sent = s, Entries = es, Closed = c\<rparr> = (r, w')
   \<Longrightarrow> Entries w' = es \<and> Closed w' = c"
proof (induction p arbitrary: cursor res ts s)
  case Nil
  then show ?case by (auto simp: history_loop_Nil)
next
  case (Cons x p)
  then show ?case
    by (cases x) (auto simp: history_loop_Failed history_loop_Response Let_def split: if_splits option.splits)
qed

lemma replies_loop_Entries:
  "replies_loop token ch tsId cursor res \<lparr>Pending = p, Sent = s, Entries = es, Closed = c\<rparr> = (r, w')
   \<Longrightarrow> Entries w' = es \<and> Closed w' = c"
proof (induction p arbitrary: cursor res s)
  case Nil
  then show ?case by (auto simp: replies_loop_Nil)
next
  case (Cons x p)
  then show ?case
    by (cases x) (auto simp: replies_loop_Failed replies_loop_Response Let_def split: if_splits option.splits)
qed

lemma replies_range_Entries:
  "replies_range token ch tsIds cursor res w = (r, w') \<Longrightarrow> Entries w' = Entries w \<and> Closed w' = Closed w"
proof (induction tsIds arbitrary: cursor res w)
  case Nil
  then show ?case by simp
next
  case (Cons tsId tsIds)
  obtain p s es c where w: "w = \<lparr>Pending = p, Sent = s, Entries = es, Closed = c\<rparr>"
    by (cases w)
  obtain r1 w1 where loop: "replies_loop token ch tsId cursor res \<lparr>Pending = p, Sent = s, Entries = es, Closed = c\<rparr> = (r1, w1)"
    by fastforce
  from replies_loop_Entries [OF loop] have w1: "Entries w1 = es" "Closed w1 = c"
    by simp_all
  from Cons.prems loop w1 Cons.IH show ?case
    by (auto simp: w split: option.splits sum.splits)
qed

lemma take_le_eq:
  "n \<le> m \<Longrightarrow> take m ys = take m xs \<Longrightarrow> take n ys = take n xs"
  by (metis min.absorb1 take_take)

lemma write_chunk_Entries:
  "write_chunk env out c w = (r, w') \<Longrightarrow> n \<le> out \<Longrightarrow>
     length (Entries w') = length (Entries w) \<and> take n (Entries w') = take n (Entries w)"
  by (auto simp: write_chunk_def split: if_splits)

lemma zip_CreateHeader_length:
  "zip_CreateHeader env fh w = (r, w') \<Longrightarrow> length (Entries w) \<le> length (Entries w')"
  by (auto simp: zip_CreateHeader_def split: if_splits)

lemma zip_CreateHeader_out:
  "zip_CreateHeader env fh w = (Inr out, w') \<Longrightarrow> out = length (Entries w)"
  by (auto simp: zip_CreateHeader_def split: if_splits)

lemma zip_CreateHeader_take:
  "zip_CreateHeader env fh w = (r, w') \<Longrightarrow> n \<le> length (Entries w) \<Longrightarrow>
     take n (Entries w') = take n (Entries w)"
  by (auto simp: zip_CreateHeader_def split: if_splits)

lemma fetchPrivateChannelsList_Entries:
  "fetchPrivateChannelsList token w = (r, w') \<Longrightarrow> Entries w' = Entries w"
proof -
  assume a: "fetchPrivateChannelsList token w = (r, w')"
  obtain p s es c where w: "w = \<lparr>Pending = p, Sent = s, Entries = es, Closed = c\<rparr>"
    by (cases w)
  obtain r1 w1 where loop: "list_loop token [] [] \<lparr>Pending = p, Sent = s, Entries = es, Closed = c\<rparr> = (r1, w1)"
    by fastforce
  from list_loop_Entries [OF loop] a loop show ?thesis
    by (auto simp: fetchPrivateChannelsList_def w split: option.splits sum.splits)
qed

lemma fetchChannelHistory_Entries:
  assumes "fetchChannelHistory env out token ch w = (r, w')" and "n \<le> out"
  shows "length (Entries w') = length (Entries w) \<and> take n (Entries w') = take n (Entries w)"
proof -
  obtain p s es c where w: "w = \<lparr>Pending = p, Sent = s, Entries = es, Closed = c\<rparr>"
    by (cases w)
  obtain r1 w1 where loop: "history_loop token ch [] [] [] \<lparr>Pending = p, Sent = s, Entries = es, Closed = c\<rparr> = (r1, w1)"
    by fastforce
  from history_loop_Entries [OF loop] have w1: "Entries w1 = es" by simp
  show ?thesis
  proof (cases r1)
    case None
    with assms loop w1 show ?thesis by (simp add: fetchChannelHistory_def w)
  next
    case (Some x)
    show ?thesis
    proof (cases x)
      case (Inl err)
      with assms loop w1 Some show ?thesis by (simp add: fetchChannelHistory_def w)
    next
      case (Inr y)
      obtain res ts where y: "y = (res, ts)" by (cases y)
      obtain e w2 where enc: "write_chunk env out (Encoded res) w1 = (e, w2)" by fastforce
      from assms loop Some Inr y enc have "w' = w2"
        by (simp add: fetchChannelHistory_def w encode_def)
      with write_chunk_Entries [OF enc assms(2)] w1 show ?thesis by (simp add: w)
    qed
  qed
qed

lemma fetchChannelReplies_Entries:
  assumes "fetchChannelReplies env out token ch tsIds w = (r, w')" and "n \<le> out"
  shows "length (Entries w') = length (Entries w) \<and> take n (Entries w') = take n (Entries w)"
proof -
  obtain r1 w1 where loop: "replies_range token ch tsIds [] [] w = (r1, w1)"
    by fastforce
  from replies_range_Entries [OF loop] have w1: "Entries w1 = Entries w" by simp
  show ?thesis
  proof (cases r1)
    case None
    with assms loop w1 show ?thesis by (simp add: fetchChannelReplies_def)
  next
    case (Some x)
    show ?thesis
    proof (cases x)
      case (Inl err)
      with assms loop w1 Some show ?thesis by (simp add: fetchChannelReplies_def)
    next
      case (Inr res)
      obtain e w2 where enc: "write_chunk env out (Encoded res) w1 = (e, w2)" by fastforce
      from assms loop Some Inr enc have "w' = w2"
        by (simp add: fetchChannelReplies_def encode_def)
      with write_chunk_Entries [OF enc assms(2)] w1 show ?thesis by simp
    qed
  qed
qed

text \<open>One iteration of the loop over the channels: it ends the loop, or it leaves the
  entries that were there to the next iteration.\<close>

lemma channels_range_Cons:
  assumes "channels_range env token (channel # channels) w = (r, w')"
  shows "\<exists>w4. length (Entries w) \<le> length (Entries w4)
              \<and> (\<forall>n\<le>length (Entries w). take n (Entries w4) = take n (Entries w))
              \<and> (w' = w4 \<or> channels_range env token channels w4 = (r, w'))"
proof (cases "assert_string (channel ''id'') = None \<or> assert_string (channel ''name'') = None")
  case True
  with assms have "w' = w" by (auto split: option.splits)
  then show ?thesis by auto
next
  case False
  then obtain channelId channelName where ids: "assert_string (channel ''id'') = Some channelId"
    "assert_string (channel ''name'') = Some channelName"
    by auto
  obtain r1 w1 where c1: "zip_CreateHeader env (fresh_header (channelName @ ''/messages.json'')) w = (r1, w1)"
    by fastforce
  have k1: "length (Entries w) \<le> length (Entries w1)"
    "\<forall>n\<le>length (Entries w). take n (Entries w1) = take n (Entries w)"
    using zip_CreateHeader_length [OF c1] zip_CreateHeader_take [OF c1] by simp_all
  show ?thesis
  proof (cases r1)
    case (Inl err)
    with assms ids c1 have "w' = w1" by (simp add: zip_Create_def)
    with k1 show ?thesis by auto
  next
    case (Inr outFile)
    with c1 have out: "outFile = length (Entries w)"
      using zip_CreateHeader_out by simp
    obtain r2 w2 where h: "fetchChannelHistory env outFile token channelId w1 = (r2, w2)"
      by fastforce
    have l2: "length (Entries w2) = length (Entries w1)"
      using fetchChannelHistory_Entries [OF h, of 0] by simp
    have k2: "length (Entries w) \<le> length (Entries w2)"
      "\<forall>n\<le>length (Entries w). take n (Entries w2) = take n (Entries w)"
      using k1 l2 fetchChannelHistory_Entries [OF h] out by simp_all
    show ?thesis
    proof (cases "\<exists>ts_ids. r2 = Some (ts_ids, None)")
      case False
      with assms ids c1 Inr h have "w' = w2"
        by (auto simp: zip_Create_def split: option.splits)
      with k2 show ?thesis by auto
    next
      case True
      then obtain ts_ids where r2: "r2 = Some (ts_ids, None)" by blast
      obtain r3 w3 where c3: "zip_CreateHeader env (fresh_header (channelName @ ''/replies.json'')) w2 = (r3, w3)"
        by fastforce
      have l3: "length (Entries w2) \<le> length (Entries w3)"
        using zip_CreateHeader_length [OF c3] .
      have t3: "\<forall>n\<le>length (Entries w). take n (Entries w3) = take n (Entries w2)"
        using zip_CreateHeader_take [OF c3] k2(1) by simp
      have k3: "length (Entries w) \<le> length (Entries w3)"
        "\<forall>n\<le>length (Entries w). take n (Entries w3) = take n (Entries w)"
        using k2 l3 t3 by simp_all
      show ?thesis
      proof (cases r3)
        case (Inl err)
        with assms ids c1 \<open>r1 = Inr outFile\<close> h r2 c3 have "w' = w3"
          by (simp add: zip_Create_def)
        with k3 show ?thesis by auto
      next
        case (Inr outFileReplies)
        with c3 have out3: "outFileReplies = length (Entries w2)"
          using zip_CreateHeader_out by simp
        obtain r4 w4 where rp: "fetchChannelReplies env outFileReplies token channelId ts_ids w3 = (r4, w4)"
          by fastforce
        have l4: "length (Entries w4) = length (Entries w3)"
          using fetchChannelReplies_Entries [OF rp, of 0] by simp
        have t4: "\<forall>n\<le>length (Entries w). take n (Entries w4) = take n (Entries w3)"
          using fetchChannelReplies_Entries [OF rp] out3 k2(1) by simp
        have k4: "length (Entries w) \<le> length (Entries w4)"
          "\<forall>n\<le>length (Entries w). take n (Entries w4) = take n (Entries w)"
          using k3 l4 t4 by simp_all
        have "w' = w4 \<or> channels_range env token channels w4 = (r, w')"
          using assms ids c1 \<open>r1 = Inr outFile\<close> h r2 c3 Inr rp
          by (cases r4) (simp_all add: zip_Create_def)
        with k4 show ?thesis by blast
      qed
    qed
  qed
qed

lemma channels_range_Entries:
  "channels_range env token channels w = (r, w') \<Longrightarrow> n \<le> length (Entries w) \<Longrightarrow>
     length (Entries w) \<le> length (Entries w') \<and> take n (Entries w') = take n (Entries w)"
proof (induction channels arbitrary: w)
  case Nil
  then show ?case by simp
next
  case (Cons channel channels)
  from channels_range_Cons [OF Cons.prems(1)] obtain w4 where
    w4: "length (Entries w) \<le> length (Entries w4)"
      "\<forall>n\<le>length (Entries w). take n (Entries w4) = take n (Entries w)"
      "w' = w4 \<or> channels_range env token channels w4 = (r, w')"
    by blast
  from w4(3) show ?case
  proof
    assume "w' = w4"
    with w4 Cons.prems(2) show ?thesis by simp
  next
    assume "channels_range env token channels w4 = (r, w')"
    from Cons.IH [OF this] w4 Cons.prems(2) show ?thesis by simp
  qed
qed


lemma createGroupsJson_Entries:
  assumes "createGroupsJson env output token w = (r, w')" and "n \<le> output"
    and "n \<le> length (Entries w)"
  shows "take n (Entries w') = take n (Entries w)"
proof -
  obtain r1 w1 where l: "fetchPrivateChannelsList token w = (r1, w1)"
    by fastforce
  from fetchPrivateChannelsList_Entries [OF l] have e1: "Entries w1 = Entries w" .
  show ?thesis
  proof (cases "\<exists>privateChannels. r1 = Some (privateChannels, None)")
    case False
    with assms(1) l have "w' = w1"
      by (auto simp: createGroupsJson_def split: option.splits)
    with e1 show ?thesis by simp
  next
    case True
    then obtain privateChannels where r1: "r1 = Some (privateChannels, None)" by blast
    obtain r2 w2 where enc: "write_chunk env output (Encoded privateChannels) w1 = (r2, w2)"
      by fastforce
    from write_chunk_Entries [OF enc assms(2)] e1
    have e2: "length (Entries w2) = length (Entries w)" "take n (Entries w2) = take n (Entries w)"
      by simp_all
    show ?thesis
    proof (cases r2)
      case (Some err2)
      with assms(1) l r1 enc have "w' = w2"
        by (simp add: createGroupsJson_def encode_def)
      with e2 show ?thesis by simp
    next
      case None
      with assms(1) l r1 enc have "channels_range env token privateChannels w2 = (r, w')"
        by (simp add: createGroupsJson_def encode_def)
      from channels_range_Entries [OF this, of n] e2 assms(3) show ?thesis by simp
    qed
  qed
qed


lemma write_chunk_Closed:
  "write_chunk env out c w = (r, w') \<Longrightarrow> Closed w' = Closed w"
  by (auto simp: write_chunk_def split: if_splits)

lemma zip_CreateHeader_Closed:
  "zip_CreateHeader env fh w = (r, w') \<Longrightarrow> Closed w' = Closed w"
  by (auto simp: zip_CreateHeader_def split: if_splits)

lemma fetchPrivateChannelsList_Closed:
  "fetchPrivateChannelsList token w = (r, w') \<Longrightarrow> Closed w' = Closed w"
proof -
  assume a: "fetchPrivateChannelsList token w = (r, w')"
  obtain p s es c where w: "w = \<lparr>Pending = p, Sent = s, Entries = es, Closed = c\<rparr>"
    by (cases w)
  obtain r1 w1 where loop: "list_loop token [] [] \<lparr>Pending = p, Sent = s, Entries = es, Closed = c\<rparr> = (r1, w1)"
    by fastforce
  from list_loop_Entries [OF loop] a loop show ?thesis
    by (auto simp: fetchPrivateChannelsList_def w split: option.splits sum.splits)
qed

lemma fetchChannelHistory_Closed:
  assumes "fetchChannelHistory env out token ch w = (r, w')"
  shows "Closed w' = Closed w"
proof -
  obtain p s es c where w: "w = \<lparr>Pending = p, Sent = s, Entries = es, Closed = c\<rparr>"
    by (cases w)
  obtain r1 w1 where loop: "history_loop token ch [] [] [] \<lparr>Pending = p, Sent = s, Entries = es, Closed = c\<rparr> = (r1, w1)"
    by fastforce
  from history_loop_Entries [OF loop] have w1: "Closed w1 = c" by simp
  from assms loop w1 show ?thesis
    by (auto simp: fetchChannelHistory_def w encode_def split: option.splits sum.splits prod.splits
        dest: write_chunk_Closed)
qed

lemma fetchChannelReplies_Closed:
  assumes "fetchChannelReplies env out token ch tsIds w = (r, w')"
  shows "Closed w' = Closed w"
proof -
  obtain r1 w1 where loop: "replies_range token ch tsIds [] [] w = (r1, w1)"
    by fastforce
  from replies_range_Entries [OF loop] have w1: "Closed w1 = Closed w" by simp
  from assms loop w1 show ?thesis
    by (auto simp: fetchChannelReplies_def encode_def split: option.splits sum.splits prod.splits
        dest: write_chunk_Closed)
qed

lemma channels_range_Closed:
  "channels_range env token channels w = (r, w') \<Longrightarrow> Closed w' = Closed w"
proof (induction channels arbitrary: w)
  case Nil
  then show ?case by simp
next
  case (Cons channel channels)
  then show ?case
    by (auto simp: zip_Create_def split: option.splits sum.splits prod.splits
        dest!: zip_CreateHeader_Closed fetchChannelHistory_Closed fetchChannelReplies_Closed)
qed

lemma createGroupsJson_Closed:
  "createGroupsJson env output token w = (r, w') \<Longrightarrow> Closed w' = Closed w"
  by (auto simp: createGroupsJson_def encode_def split: option.splits sum.splits prod.splits
      dest!: fetchPrivateChannelsList_Closed write_chunk_Closed channels_range_Closed)

section \<open>The copy of the input archive\<close>

lemma copy_files_Entries:
  "copy_files env files groupsFound w = (Inr groupsFound', w') \<Longrightarrow>
   \<exists>new. Entries w' = Entries w @ new
     \<and> list_all2 copied files new
     \<and> groupsFound' = (groupsFound \<or> ''groups.json'' \<in> set (map (\<lambda>file. Name (FileHeader file)) files))
     \<and> Pending w' = Pending w \<and> Sent w' = Sent w \<and> Closed w' = Closed w"
proof (induction files arbitrary: groupsFound w)
  case Nil
  then show ?case by simp
next
  case (Cons f fs)
  from Cons.prems obtain r where r: "Open f = Some r"
    by (auto split: option.splits)
  let ?e = "\<lparr>Header = written_header (FileHeader f),
             Body = (if Delivered r = [] then [] else [Bytes (Delivered r)])\<rparr>"
  let ?w2 = "w\<lparr>Entries := Entries w @ [?e]\<rparr>"
  from Cons.prems r have nofail: "\<not> CreateFails env (FileHeader f)" "\<not> ReadError r"
    by (auto simp: zip_CreateHeader_def io_Copy_def split: if_splits prod.splits option.splits)
  from Cons.prems r
  have "copy_files env fs (if Name (FileHeader f) = ''groups.json'' then True else groupsFound) ?w2
          = (Inr groupsFound', w')"
    by (auto simp: zip_CreateHeader_def io_Copy_def write_chunk_def
        split: if_splits prod.splits option.splits)
  from Cons.IH [OF this] obtain new where new: "Entries w' = Entries ?w2 @ new"
    "list_all2 copied fs new"
    "groupsFound' = ((if Name (FileHeader f) = ''groups.json'' then True else groupsFound)
        \<or> ''groups.json'' \<in> set (map (\<lambda>file. Name (FileHeader file)) fs))"
    "Pending w' = Pending ?w2" "Sent w' = Sent ?w2" "Closed w' = Closed ?w2"
    by blast
  from r nofail have "copied f ?e"
    by (simp add: copied_def)
  with new have "Entries w' = Entries w @ (?e # new)
     \<and> list_all2 copied (f # fs) (?e # new)
     \<and> groupsFound' = (groupsFound \<or> ''groups.json'' \<in> set (map (\<lambda>file. Name (FileHeader file)) (f # fs)))
     \<and> Pending w' = Pending w \<and> Sent w' = Sent w \<and> Closed w' = Closed w"
    by auto
  then show ?case by blast
qed

lemma copy_files_Closed:
  "copy_files env files groupsFound w = (r, w') \<Longrightarrow> Closed w' = Closed w"
proof (induction files arbitrary: groupsFound w)
  case Nil
  then show ?case by simp
next
  case (Cons f fs)
  then show ?case
    by (auto simp: zip_CreateHeader_def io_Copy_def write_chunk_def
        split: if_splits prod.splits option.splits sum.splits)
qed

lemma copy_files_exit:
  "copy_files env files groupsFound w = (Inl msg, w') \<Longrightarrow> msg \<noteq> FetchFailed err"
  by (induction files arbitrary: groupsFound w)
     (auto split: option.splits prod.splits sum.splits)

lemma copy_files_ok:
  assumes "\<forall>fh. \<not> CreateFails env fh" and "\<forall>n. \<not> WriteFails env n"
  shows "list_all readable files \<Longrightarrow>
         \<exists>groupsFound' w'. copy_files env files groupsFound w = (Inr groupsFound', w')"
proof (induction files arbitrary: groupsFound w)
  case Nil
  then show ?case by simp
next
  case (Cons f fs)
  then obtain r where "Open f = Some r" "\<not> ReadError r"
    "is_directory (Name (FileHeader f)) \<longrightarrow> Delivered r = []"
    by (auto simp: readable_def split: option.splits)
  with Cons assms show ?case
    by (simp add: zip_CreateHeader_def io_Copy_def write_chunk_def)
qed

lemma channels_range_no_exit:
  "fst (channels_range env token channels w) \<noteq> Exit msg"
  by (induction channels arbitrary: w) (auto split: prod.splits option.splits sum.splits)

lemma createGroupsJson_no_exit:
  "fst (createGroupsJson env output token w) \<noteq> Exit msg"
  using channels_range_no_exit [of env token]
  by (auto simp: createGroupsJson_def split: prod.splits option.splits)

lemma copied_fields:
  "copied file e \<Longrightarrow>
     copied file e
     \<and> Name (Header e) = Name (FileHeader file)
     \<and> Comment (Header e) = Comment (FileHeader file)
     \<and> Modified (Header e) = Modified (FileHeader file)
     \<and> ExternalAttrs (Header e) = ExternalAttrs (FileHeader file)
     \<and> Method (Header e)
          = (if is_directory (Name (FileHeader file)) then 0 else Method (FileHeader file))"
  by (simp add: copied_def Method_written_header)

text \<open>
  Claim C3 does not hold as it is stated: the header of a copy is what
  \<^verbatim>\<open>CreateHeader\<close> makes of the header of the input entry. The input archive below has
  a directory entry and a file, both with the Deflate method, the creator version
  0x031E, no flag and no extra field. In the output the directory has the method
  Store, the file has the flag of a data descriptor, and both have the creator version
  0x0314 and an extra field of nine bytes with the timestamp.
\<close>

theorem header_rewritten_counterexample:
  "fetchPrivateChannels
     \<lparr>CreateFails = (\<lambda>n. False), WriteFails = (\<lambda>n. False), OutputFails = False, CloseFails = False\<rparr>
     ''t''
     (Some [\<lparr>FileHeader =
               \<lparr>Name = ''docs/'', Comment = [], NonUTF8 = False, CreatorVersion = 0x031E,
                ReaderVersion = 20, Flags = 0, Method = 8,
                Modified = Some \<lparr>Unix = 1514764800, Year = 2018, Month = 1, Day = 1,
                                 Hour = 0, Minute = 0, Second = 0\<rparr>,
                ModifiedTime = 0, ModifiedDate = 0x4C21, Extra = [], ExternalAttrs = 0x41ED0010\<rparr>,
             Open = Some \<lparr>Delivered = [], ReadError = False\<rparr>\<rparr>,
            \<lparr>FileHeader =
               \<lparr>Name = ''docs/users.json'', Comment = [], NonUTF8 = False, CreatorVersion = 0x031E,
                ReaderVersion = 20, Flags = 0, Method = 8,
                Modified = Some \<lparr>Unix = 1514764800, Year = 2018, Month = 1, Day = 1,
                                 Hour = 0, Minute = 0, Second = 0\<rparr>,
                ModifiedTime = 0, ModifiedDate = 0x4C21, Extra = [], ExternalAttrs = 0x81A40000\<rparr>,
             Open = Some \<lparr>Delivered = [91, 93], ReadError = False\<rparr>\<rparr>])
     [page_response \<lparr>Ok = True, Records = [], NextCursor = []\<rparr>]
   = (Return None,
      \<lparr>Pending = [], Sent = [list_request ''t'' []],
       Entries =
         [\<lparr>Header =
             \<lparr>Name = ''docs/'', Comment = [], NonUTF8 = False, CreatorVersion = 0x0314,
              ReaderVersion = 20, Flags = 0, Method = 0,
              Modified = Some \<lparr>Unix = 1514764800, Year = 2018, Month = 1, Day = 1,
                               Hour = 0, Minute = 0, Second = 0\<rparr>,
              ModifiedTime = 0, ModifiedDate = 0x4C21,
              Extra = [0x55, 0x54, 0x05, 0x00, 0x01, 0x00, 0x7A, 0x49, 0x5A],
              ExternalAttrs = 0x41ED0010\<rparr>,
           Body = []\<rparr>,
          \<lparr>Header =
             \<lparr>Name = ''docs/users.json'', Comment = [], NonUTF8 = False, CreatorVersion = 0x0314,
              ReaderVersion = 20, Flags = 8, Method = 8,
              Modified = Some \<lparr>Unix = 1514764800, Year = 2018, Month = 1, Day = 1,
                               Hour = 0, Minute = 0, Second = 0\<rparr>,
              ModifiedTime = 0, ModifiedDate = 0x4C21,
              Extra = [0x55, 0x54, 0x05, 0x00, 0x01, 0x00, 0x7A, 0x49, 0x5A],
              ExternalAttrs = 0x81A40000\<rparr>,
           Body = [Bytes [91, 93]]\<rparr>,
          created ''groups.json'' [Encoded []]],
       Closed = True\<rparr>)"
  by (simp add: fetchPrivateChannels_def createGroupsJson_def fetchPrivateChannelsList_def
      list_loop_Response page_response_def io_Copy_def encode_def write_chunk_def zip_Create_def
      zip_CreateHeader_def zip_Close_def created_def written_header_def
      detectUTF8_def is_directory_def timeToMsDosTime_def extended_timestamp_def Let_def)

text \<open>
  Claim C3, as amended. Take a run of the command on an input archive that could be
  opened. When no operation on the archives fails (every file of the input can be
  read, every entry can be created and written, the output file can be created), the
  run does not exit in the copy phase: the only exit it may take is the one for a
  failed fetch. When the run ends in any way but an exit of the copy phase, the
  entries of the output archive begin with one entry for each file of the input
  archive, in the order of the input, and whatever the run does after the copy loop
  leaves these entries as they are. The content of such an entry is the data of the
  file. Its header is what \<^verbatim>\<open>CreateHeader\<close> makes of the header of the file: the
  name, the comment, the modification time and the external attributes are those of
  the file, and so is the method, but for a directory entry, which gets the method
  Store; the flags, the versions, the MS-DOS date and time and the extra field are
  set anew. The output archive is closed exactly when the run returns nil and closing
  the writer does not fail.
\<close>

theorem source_entries_copied:
  assumes "fetchPrivateChannels env token (Some files) script = (outcome, w)"
  shows "((\<forall>fh. \<not> CreateFails env fh) \<and> (\<forall>n. \<not> WriteFails env n) \<and> \<not> OutputFails env
            \<and> list_all readable files
          \<longrightarrow> (\<forall>msg. outcome = Exit msg \<longrightarrow> (\<exists>err. msg = FetchFailed err)))
       \<and> ((\<forall>msg. outcome = Exit msg \<longrightarrow> (\<exists>err. msg = FetchFailed err))
          \<longrightarrow> list_all2 (\<lambda>file e. copied file e
                     \<and> Name (Header e) = Name (FileHeader file)
                     \<and> Comment (Header e) = Comment (FileHeader file)
                     \<and> Modified (Header e) = Modified (FileHeader file)
                     \<and> ExternalAttrs (Header e) = ExternalAttrs (FileHeader file)
                     \<and> Method (Header e)
                          = (if is_directory (Name (FileHeader file)) then 0
                             else Method (FileHeader file)))
                 files (take (length files) (Entries w)))
       \<and> (Closed w \<longleftrightarrow> outcome = Return None \<and> \<not> CloseFails env)"
proof (intro conjI impI)
  let ?w0 = "\<lparr>Pending = script, Sent = [], Entries = [], Closed = False\<rparr>"
  assume ok: "(\<forall>fh. \<not> CreateFails env fh) \<and> (\<forall>n. \<not> WriteFails env n) \<and> \<not> OutputFails env
            \<and> list_all readable files"
  then have c: "\<forall>fh. \<not> CreateFails env fh" and wr: "\<forall>n. \<not> WriteFails env n"
    and o: "\<not> OutputFails env" and op: "list_all readable files"
    by simp_all
  from copy_files_ok [OF c wr op] obtain g w1 where cp: "copy_files env files False ?w0 = (Inr g, w1)"
    by blast
  obtain r2 w2 where c2: "zip_Create env ''groups.json'' w1 = (r2, w2)"
    by fastforce
  show "\<forall>msg. outcome = Exit msg \<longrightarrow> (\<exists>err. msg = FetchFailed err)"
  proof (cases r2)
    case (Inl err)
    with assms o cp c2 show ?thesis
      by (auto simp: fetchPrivateChannels_def)
  next
    case (Inr outFile)
    obtain r3 w3 where g3: "createGroupsJson env outFile token w2 = (r3, w3)"
      by fastforce
    with createGroupsJson_no_exit [of env outFile token w2] have "\<forall>msg. r3 \<noteq> Exit msg"
      by simp
    with assms o cp c2 Inr g3 show ?thesis
      by (auto simp: fetchPrivateChannels_def split: if_splits outcome.splits option.splits)
  qed
next
  let ?w0 = "\<lparr>Pending = script, Sent = [], Entries = [], Closed = False\<rparr>"
  let ?copy = "\<lambda>file e. copied file e
                     \<and> Name (Header e) = Name (FileHeader file)
                     \<and> Comment (Header e) = Comment (FileHeader file)
                     \<and> Modified (Header e) = Modified (FileHeader file)
                     \<and> ExternalAttrs (Header e) = ExternalAttrs (FileHeader file)
                     \<and> Method (Header e)
                          = (if is_directory (Name (FileHeader file)) then 0
                             else Method (FileHeader file))"
  assume noexit: "\<forall>msg. outcome = Exit msg \<longrightarrow> (\<exists>err. msg = FetchFailed err)"
  with assms have out: "\<not> OutputFails env"
    by (auto simp: fetchPrivateChannels_def)
  obtain r1 w1 where cp: "copy_files env files False ?w0 = (r1, w1)"
    by fastforce
  from assms noexit out cp copy_files_exit [of env files False ?w0 _ w1]
  obtain groupsFound where r1: "r1 = Inr groupsFound"
    by (cases r1) (auto simp: fetchPrivateChannels_def)
  from copy_files_Entries [OF cp [unfolded r1]] obtain new where new: "Entries w1 = new"
    "list_all2 copied files new"
    by auto
  then have len: "length new = length files"
    by (simp add: list_all2_lengthD)
  from new(2) have fields: "list_all2 ?copy files new"
    by (rule list_all2_mono) (rule copied_fields)
  obtain r2 w2 where c2: "zip_CreateHeader env (fresh_header ''groups.json'') w1 = (r2, w2)"
    by fastforce
  have k2: "length (Entries w1) \<le> length (Entries w2)"
    "take (length files) (Entries w2) = new"
    using zip_CreateHeader_length [OF c2] zip_CreateHeader_take [OF c2, of "length files"] new(1) len
    by simp_all
  have "take (length files) (Entries w) = new"
  proof (cases r2)
    case (Inl err)
    with assms out cp r1 c2 have "w = w2"
      by (simp add: fetchPrivateChannels_def zip_Create_def)
    with k2 show ?thesis by simp
  next
    case (Inr outFile)
    with c2 have "outFile = length (Entries w1)"
      using zip_CreateHeader_out [of env _ w1 outFile w2] by simp
    with new(1) len have o: "outFile = length files"
      by simp
    show ?thesis
    proof (cases groupsFound)
      case True
      with assms out cp r1 c2 Inr have "w = zip_Close env w2"
        by (simp add: fetchPrivateChannels_def zip_Create_def)
      with k2 show ?thesis by (simp add: zip_Close_def)
    next
      case False
      obtain r3 w3 where g: "createGroupsJson env outFile token w2 = (r3, w3)"
        by fastforce
      from createGroupsJson_Entries [OF g, of "length files"] o k2 new(1) len
      have k3: "take (length files) (Entries w3) = new"
        by simp
      from assms out cp r1 c2 Inr False g have "w = w3 \<or> w = zip_Close env w3"
        by (auto simp: fetchPrivateChannels_def zip_Create_def split: outcome.splits option.splits)
      with k3 show ?thesis by (auto simp: zip_Close_def)
    qed
  qed
  with fields show "list_all2 ?copy files (take (length files) (Entries w))"
    by simp
next
  let ?w0 = "\<lparr>Pending = script, Sent = [], Entries = [], Closed = False\<rparr>"
  show "Closed w \<longleftrightarrow> outcome = Return None \<and> \<not> CloseFails env"
  proof (cases "OutputFails env")
    case True
    with assms show ?thesis
      by (auto simp: fetchPrivateChannels_def)
  next
    case out: False
    obtain r1 w1 where cp: "copy_files env files False ?w0 = (r1, w1)"
      by fastforce
    from copy_files_Closed [OF cp] have c1: "\<not> Closed w1"
      by simp
    show ?thesis
    proof (cases r1)
      case (Inl msg)
      with assms out cp c1 show ?thesis
        by (auto simp: fetchPrivateChannels_def)
    next
      case (Inr groupsFound)
      obtain r2 w2 where c2: "zip_CreateHeader env (fresh_header ''groups.json'') w1 = (r2, w2)"
        by fastforce
      from zip_CreateHeader_Closed [OF c2] c1 have c2': "\<not> Closed w2"
        by simp
      show ?thesis
      proof (cases r2)
        case (Inl err)
        with assms out cp \<open>r1 = Inr groupsFound\<close> c2 c2' show ?thesis
          by (auto simp: fetchPrivateChannels_def zip_Create_def)
      next
        case (Inr outFile)
        obtain r3 w3 where g: "createGroupsJson env outFile token w2 = (r3, w3)"
          by fastforce
        from createGroupsJson_Closed [OF g] c2' have c3: "\<not> Closed w3"
          by simp
        from assms out cp \<open>r1 = Inr groupsFound\<close> c2 Inr g c2' c3 show ?thesis
          by (auto simp: fetchPrivateChannels_def zip_Create_def zip_Close_def
              split: if_splits outcome.splits option.splits)
      qed
    qed
  qed
qed

theorem source_entries_copied_witness:
  "fetchPrivateChannels
     \<lparr>CreateFails = (\<lambda>n. False), WriteFails = (\<lambda>n. False), OutputFails = False, CloseFails = False\<rparr>
     ''t''
     (Some [\<lparr>FileHeader =
               \<lparr>Name = ''avatars/'', Comment = [], NonUTF8 = False, CreatorVersion = 20,
                ReaderVersion = 20, Flags = 0, Method = 8, Modified = None,
                ModifiedTime = 0, ModifiedDate = 0, Extra = [], ExternalAttrs = 16\<rparr>,
             Open = Some \<lparr>Delivered = [], ReadError = False\<rparr>\<rparr>,
            \<lparr>FileHeader =
               \<lparr>Name = ''users.json'', Comment = ''u'', NonUTF8 = False, CreatorVersion = 20,
                ReaderVersion = 20, Flags = 0, Method = 0, Modified = None,
                ModifiedTime = 0, ModifiedDate = 0, Extra = [], ExternalAttrs = 0\<rparr>,
             Open = Some \<lparr>Delivered = [91, 93], ReadError = False\<rparr>\<rparr>])
     [page_response \<lparr>Ok = True, Records = [], NextCursor = []\<rparr>]
   = (Return None,
      \<lparr>Pending = [], Sent = [list_request ''t'' []],
       Entries =
         [\<lparr>Header = written_header
               \<lparr>Name = ''avatars/'', Comment = [], NonUTF8 = False, CreatorVersion = 20,
                ReaderVersion = 20, Flags = 0, Method = 8, Modified = None,
                ModifiedTime = 0, ModifiedDate = 0, Extra = [], ExternalAttrs = 16\<rparr>,
           Body = []\<rparr>,
          \<lparr>Header = written_header
               \<lparr>Name = ''users.json'', Comment = ''u'', NonUTF8 = False, CreatorVersion = 20,
                ReaderVersion = 20, Flags = 0, Method = 0, Modified = None,
                ModifiedTime = 0, ModifiedDate = 0, Extra = [], ExternalAttrs = 0\<rparr>,
           Body = [Bytes [91, 93]]\<rparr>,
          created ''groups.json'' [Encoded []]],
       Closed = True\<rparr>)
   \<and> list_all readable
        [\<lparr>FileHeader =
               \<lparr>Name = ''avatars/'', Comment = [], NonUTF8 = False, CreatorVersion = 20,
                ReaderVersion = 20, Flags = 0, Method = 8, Modified = None,
                ModifiedTime = 0, ModifiedDate = 0, Extra = [], ExternalAttrs = 16\<rparr>,
             Open = Some \<lparr>Delivered = [], ReadError = False\<rparr>\<rparr>,
            \<lparr>FileHeader =
               \<lparr>Name = ''users.json'', Comment = ''u'', NonUTF8 = False, CreatorVersion = 20,
                ReaderVersion = 20, Flags = 0, Method = 0, Modified = None,
                ModifiedTime = 0, ModifiedDate = 0, Extra = [], ExternalAttrs = 0\<rparr>,
             Open = Some \<lparr>Delivered = [91, 93], ReadError = False\<rparr>\<rparr>]
   \<and> list_all2 (\<lambda>file e. copied file e
                     \<and> Name (Header e) = Name (FileHeader file)
                     \<and> Comment (Header e) = Comment (FileHeader file)
                     \<and> Modified (Header e) = Modified (FileHeader file)
                     \<and> ExternalAttrs (Header e) = ExternalAttrs (FileHeader file)
                     \<and> Method (Header e)
                          = (if is_directory (Name (FileHeader file)) then 0
                             else Method (FileHeader file)))
        [\<lparr>FileHeader =
               \<lparr>Name = ''avatars/'', Comment = [], NonUTF8 = False, CreatorVersion = 20,
                ReaderVersion = 20, Flags = 0, Method = 8, Modified = None,
                ModifiedTime = 0, ModifiedDate = 0, Extra = [], ExternalAttrs = 16\<rparr>,
             Open = Some \<lparr>Delivered = [], ReadError = False\<rparr>\<rparr>,
            \<lparr>FileHeader =
               \<lparr>Name = ''users.json'', Comment = ''u'', NonUTF8 = False, CreatorVersion = 20,
                ReaderVersion = 20, Flags = 0, Method = 0, Modified = None,
                ModifiedTime = 0, ModifiedDate = 0, Extra = [], ExternalAttrs = 0\<rparr>,
             Open = Some \<lparr>Delivered = [91, 93], ReadError = False\<rparr>\<rparr>]
        (take (length
           [\<lparr>FileHeader =
               \<lparr>Name = ''avatars/'', Comment = [], NonUTF8 = False, CreatorVersion = 20,
                ReaderVersion = 20, Flags = 0, Method = 8, Modified = None,
                ModifiedTime = 0, ModifiedDate = 0, Extra = [], ExternalAttrs = 16\<rparr>,
             Open = Some \<lparr>Delivered = [], ReadError = False\<rparr>\<rparr>,
            \<lparr>FileHeader =
               \<lparr>Name = ''users.json'', Comment = ''u'', NonUTF8 = False, CreatorVersion = 20,
                ReaderVersion = 20, Flags = 0, Method = 0, Modified = None,
                ModifiedTime = 0, ModifiedDate = 0, Extra = [], ExternalAttrs = 0\<rparr>,
             Open = Some \<lparr>Delivered = [91, 93], ReadError = False\<rparr>\<rparr>])
          (Entries
             \<lparr>Pending = [], Sent = [list_request ''t'' []],
       Entries =
         [\<lparr>Header = written_header
               \<lparr>Name = ''avatars/'', Comment = [], NonUTF8 = False, CreatorVersion = 20,
                ReaderVersion = 20, Flags = 0, Method = 8, Modified = None,
                ModifiedTime = 0, ModifiedDate = 0, Extra = [], ExternalAttrs = 16\<rparr>,
           Body = []\<rparr>,
          \<lparr>Header = written_header
               \<lparr>Name = ''users.json'', Comment = ''u'', NonUTF8 = False, CreatorVersion = 20,
                ReaderVersion = 20, Flags = 0, Method = 0, Modified = None,
                ModifiedTime = 0, ModifiedDate = 0, Extra = [], ExternalAttrs = 0\<rparr>,
           Body = [Bytes [91, 93]]\<rparr>,
          created ''groups.json'' [Encoded []]],
       Closed = True\<rparr>))
   \<and> Closed
        \<lparr>Pending = [], Sent = [list_request ''t'' []],
       Entries =
         [\<lparr>Header = written_header
               \<lparr>Name = ''avatars/'', Comment = [], NonUTF8 = False, CreatorVersion = 20,
                ReaderVersion = 20, Flags = 0, Method = 8, Modified = None,
                ModifiedTime = 0, ModifiedDate = 0, Extra = [], ExternalAttrs = 16\<rparr>,
           Body = []\<rparr>,
          \<lparr>Header = written_header
               \<lparr>Name = ''users.json'', Comment = ''u'', NonUTF8 = False, CreatorVersion = 20,
                ReaderVersion = 20, Flags = 0, Method = 0, Modified = None,
                ModifiedTime = 0, ModifiedDate = 0, Extra = [], ExternalAttrs = 0\<rparr>,
           Body = [Bytes [91, 93]]\<rparr>,
          created ''groups.json'' [Encoded []]],
       Closed = True\<rparr>"
proof -
  let ?env = "\<lparr>CreateFails = (\<lambda>n. False), WriteFails = (\<lambda>n. False), OutputFails = False, CloseFails = False\<rparr>"
  let ?files = "[\<lparr>FileHeader =
               \<lparr>Name = ''avatars/'', Comment = [], NonUTF8 = False, CreatorVersion = 20,
                ReaderVersion = 20, Flags = 0, Method = 8, Modified = None,
                ModifiedTime = 0, ModifiedDate = 0, Extra = [], ExternalAttrs = 16\<rparr>,
             Open = Some \<lparr>Delivered = [], ReadError = False\<rparr>\<rparr>,
            \<lparr>FileHeader =
               \<lparr>Name = ''users.json'', Comment = ''u'', NonUTF8 = False, CreatorVersion = 20,
                ReaderVersion = 20, Flags = 0, Method = 0, Modified = None,
                ModifiedTime = 0, ModifiedDate = 0, Extra = [], ExternalAttrs = 0\<rparr>,
             Open = Some \<lparr>Delivered = [91, 93], ReadError = False\<rparr>\<rparr>]"
  let ?w = "\<lparr>Pending = [], Sent = [list_request ''t'' []],
       Entries =
         [\<lparr>Header = written_header
               \<lparr>Name = ''avatars/'', Comment = [], NonUTF8 = False, CreatorVersion = 20,
                ReaderVersion = 20, Flags = 0, Method = 8, Modified = None,
                ModifiedTime = 0, ModifiedDate = 0, Extra = [], ExternalAttrs = 16\<rparr>,
           Body = []\<rparr>,
          \<lparr>Header = written_header
               \<lparr>Name = ''users.json'', Comment = ''u'', NonUTF8 = False, CreatorVersion = 20,
                ReaderVersion = 20, Flags = 0, Method = 0, Modified = None,
                ModifiedTime = 0, ModifiedDate = 0, Extra = [], ExternalAttrs = 0\<rparr>,
           Body = [Bytes [91, 93]]\<rparr>,
          created ''groups.json'' [Encoded []]],
       Closed = True\<rparr>"
  have run: "fetchPrivateChannels ?env ''t'' (Some ?files) [page_response \<lparr>Ok = True, Records = [], NextCursor = []\<rparr>] = (Return None, ?w)"
    by (simp add: fetchPrivateChannels_def createGroupsJson_def fetchPrivateChannelsList_def
        list_loop_Response page_response_def io_Copy_def encode_def write_chunk_def zip_Create_def
        zip_CreateHeader_def zip_Close_def created_def is_directory_def Let_def)
  have readable: "list_all readable ?files"
    by (simp add: readable_def is_directory_def)
  have noexit: "\<forall>msg. (Return None :: error option outcome) = Exit msg \<longrightarrow> (\<exists>err. msg = FetchFailed err)"
    by simp
  have closes: "(Return None :: error option outcome) = Return None \<and> \<not> CloseFails ?env"
    by simp
  from noexit have copies: "list_all2 (\<lambda>file e. copied file e
                     \<and> Name (Header e) = Name (FileHeader file)
                     \<and> Comment (Header e) = Comment (FileHeader file)
                     \<and> Modified (Header e) = Modified (FileHeader file)
                     \<and> ExternalAttrs (Header e) = ExternalAttrs (FileHeader file)
                     \<and> Method (Header e)
                          = (if is_directory (Name (FileHeader file)) then 0
                             else Method (FileHeader file))) ?files (take (length ?files) (Entries ?w))"
    by (rule source_entries_copied [OF run, THEN conjunct2, THEN conjunct1, THEN mp])
  from closes have closed: "Closed ?w"
    by (rule source_entries_copied [OF run, THEN conjunct2, THEN conjunct2, THEN iffD2])
  from run readable copies closed show ?thesis
    by (intro conjI)
qed

section \<open>The fetches on the pages the remote side serves\<close>

lemma list_loop_run:
  assumes "complete_run pages"
  shows "list_loop token [] res
           \<lparr>Pending = map page_response pages @ rest, Sent = s, Entries = es, Closed = c\<rparr>
         = (Some (Inr (res @ concat (map Records pages))),
            \<lparr>Pending = rest, Sent = s @ map (list_request token) (cursors pages),
             Entries = es, Closed = c\<rparr>)"
proof -
  from assms obtain ps q where run: "pages = ps @ [q]"
    and ps: "\<forall>d\<in>set ps. Ok d \<and> NextCursor d \<noteq> []" and q: "Ok q" "NextCursor q = []"
    using complete_run_split by blast
  show ?thesis
    using q by (simp add: run list_loop_more [OF ps] list_loop_Response page_response_def
        Let_def map_butlast_last cursors_def del: butlast.simps last.simps)
qed

lemma history_loop_run:
  assumes "complete_run pages"
  shows "history_loop token ch [] res ts
           \<lparr>Pending = map page_response pages @ rest, Sent = s, Entries = es, Closed = c\<rparr>
         = (Some (Inr (res @ concat (map Records pages), scan_messages (concat (map Records pages)) ts)),
            \<lparr>Pending = rest, Sent = s @ map (history_request token ch) (cursors pages),
             Entries = es, Closed = c\<rparr>)"
proof -
  from assms obtain ps q where run: "pages = ps @ [q]"
    and ps: "\<forall>d\<in>set ps. Ok d \<and> NextCursor d \<noteq> []" and q: "Ok q" "NextCursor q = []"
    using complete_run_split by blast
  show ?thesis
    using q by (simp add: run history_loop_more [OF ps] history_loop_Response page_response_def
        Let_def map_butlast_last cursors_def scan_messages_append del: butlast.simps last.simps)
qed

lemma scan_messages_typed:
  assumes "list_all message_typed ms"
  shows "scan_messages ms [] = thread_parents ms"
proof -
  have "filter (\<lambda>m. assert_float64 (m ''reply_count'') \<noteq> None) ms
      = filter (\<lambda>m. m ''reply_count'' \<noteq> None) ms"
  proof (rule filter_cong [OF refl])
    fix m
    assume "m \<in> set ms"
    with assms have "message_typed m"
      by (simp add: list_all_iff)
    then show "(assert_float64 (m ''reply_count'') \<noteq> None) = (m ''reply_count'' \<noteq> None)"
      by (cases "m ''reply_count''") (simp_all add: message_typed_def)
  qed
  then show ?thesis
    by (simp add: scan_messages_filter thread_parents_def)
qed

lemma fetchChannelHistory_run:
  assumes "complete_run h" and "\<not> WriteFails env name"
  shows "fetchChannelHistory env (length es) token ch
           \<lparr>Pending = map page_response h @ rest, Sent = s, Entries = es @ [created name []],
            Closed = c\<rparr>
         = (Some (scan_messages (concat (map Records h)) [], None),
            \<lparr>Pending = rest, Sent = s @ map (history_request token ch) (cursors h),
             Entries = es @ [created name [Encoded (concat (map Records h))]], Closed = c\<rparr>)"
  using assms(2)
  by (simp add: fetchChannelHistory_def history_loop_run [OF assms(1)] encode_def write_chunk_def
      created_def)

lemma fetchChannelReplies_runs:
  assumes "length tsIds = length runs" and "list_all complete_run runs"
    and "\<not> WriteFails env name"
  shows "fetchChannelReplies env (length es) token ch tsIds
           \<lparr>Pending = map page_response (concat runs) @ rest, Sent = s,
            Entries = es @ [created name []], Closed = c\<rparr>
         = (Some None,
            \<lparr>Pending = rest,
             Sent = s @ concat (map2 (\<lambda>tsId run. map (replies_request token ch tsId) (cursors run))
                                  tsIds runs),
             Entries = es @ [created name [Encoded (concat (map Records (concat runs)))]],
             Closed = c\<rparr>)"
proof -
  from assms(2) have runs: "\<forall>run\<in>set runs. complete_run run"
    by (simp add: list_all_iff)
  have "(\<lambda>tsId run. map (replies_request token ch tsId) (cursors run))
      = (\<lambda>tsId run. map (replies_request token ch tsId) ([] # map NextCursor (butlast run)))"
    by (simp add: cursors_def)
  with replies_range_runs [OF assms(1) runs, of token ch "[]" "[]" rest s "es @ [created name []]" c]
    assms(3)
  show ?thesis
    by (simp add: fetchChannelReplies_def encode_def write_chunk_def created_def)
qed

lemma zip_Create_created:
  "\<not> CreateFails env (fresh_header name) \<Longrightarrow>
   zip_Create env name \<lparr>Pending = p, Sent = s, Entries = es, Closed = c\<rparr>
     = (Inr (length es), \<lparr>Pending = p, Sent = s, Entries = es @ [created name []], Closed = c\<rparr>)"
  by (simp add: zip_Create_def zip_CreateHeader_def created_def)

lemma channels_range_plan:
  assumes "\<forall>fh. \<not> CreateFails env fh" and "\<forall>n. \<not> WriteFails env n"
  shows "list_all2 ingested channels plan \<Longrightarrow>
   channels_range env token channels
     \<lparr>Pending = map page_response (concat (map pages_of plan)) @ rest, Sent = s, Entries = es,
      Closed = c\<rparr>
   = (Return None,
      \<lparr>Pending = rest, Sent = s @ concat (map (requests_of token) plan),
       Entries = es @ concat (map entries_of plan), Closed = c\<rparr>)"
proof (induction channels plan arbitrary: s es rule: list_all2_induct)
  case Nil
  then show ?case by simp
next
  case (Cons channel channels x plan)
  let ?after = "map page_response (concat (map pages_of plan)) @ rest"
  let ?tsIds = "thread_parents (messages_of x)"
  let ?mempty = "created (ChannelName x @ ''/messages.json'') []"
  let ?m = "created (ChannelName x @ ''/messages.json'') [Encoded (messages_of x)]"
  let ?rempty = "created (ChannelName x @ ''/replies.json'') []"
  let ?r = "created (ChannelName x @ ''/replies.json'') [Encoded (replies_of x)]"
  let ?s1 = "s @ map (history_request token (ChannelId x)) (cursors (History x))"
  let ?s2 = "?s1 @ concat (map2 (\<lambda>tsId run. map (replies_request token (ChannelId x) tsId) (cursors run))
                              ?tsIds (Replies x))"
  from Cons.hyps(1) have ids: "assert_string (channel ''id'') = Some (ChannelId x)"
    "assert_string (channel ''name'') = Some (ChannelName x)"
    and h: "complete_run (History x)" and typed: "list_all message_typed (messages_of x)"
    and len: "length ?tsIds = length (Replies x)" and runs: "list_all complete_run (Replies x)"
    by (simp_all add: ingested_def)
  from assms have nf: "\<not> CreateFails env (fresh_header (ChannelName x @ ''/messages.json''))"
    "\<not> CreateFails env (fresh_header (ChannelName x @ ''/replies.json''))"
    "\<not> WriteFails env (ChannelName x @ ''/messages.json'')"
    "\<not> WriteFails env (ChannelName x @ ''/replies.json'')"
    by simp_all
  have pending: "map page_response (concat (map pages_of (x # plan))) @ rest
      = map page_response (History x) @ map page_response (concat (Replies x)) @ ?after"
    by (simp add: pages_of_def)
  have hist: "fetchChannelHistory env (length es) token (ChannelId x)
       \<lparr>Pending = map page_response (History x) @ map page_response (concat (Replies x)) @ ?after,
        Sent = s, Entries = es @ [?mempty], Closed = c\<rparr>
     = (Some (?tsIds, None),
        \<lparr>Pending = map page_response (concat (Replies x)) @ ?after, Sent = ?s1,
         Entries = es @ [?m], Closed = c\<rparr>)"
    using fetchChannelHistory_run [OF h nf(3), of es token "ChannelId x"
        "map page_response (concat (Replies x)) @ ?after" s c]
    by (simp add: scan_messages_typed [OF typed, unfolded messages_of_def] messages_of_def)
  have repl: "fetchChannelReplies env (Suc (length es)) token (ChannelId x) ?tsIds
       \<lparr>Pending = map page_response (concat (Replies x)) @ ?after, Sent = ?s1,
        Entries = es @ [?m, ?rempty], Closed = c\<rparr>
     = (Some None,
        \<lparr>Pending = ?after, Sent = ?s2, Entries = es @ [?m, ?r], Closed = c\<rparr>)"
    using fetchChannelReplies_runs [OF len runs nf(4), of "es @ [?m]" token "ChannelId x" ?after ?s1 c]
    by (simp add: replies_of_def)
  have others: "channels_range env token channels
       \<lparr>Pending = ?after, Sent = ?s2, Entries = es @ [?m, ?r], Closed = c\<rparr>
     = (Return None,
        \<lparr>Pending = rest, Sent = ?s2 @ concat (map (requests_of token) plan),
         Entries = (es @ [?m, ?r]) @ concat (map entries_of plan), Closed = c\<rparr>)"
    by (rule Cons.IH)
  show ?case
    unfolding pending
    using ids nf hist repl others
    by (simp add: zip_Create_created requests_of_def [of token x] entries_of_def [of x])
qed

lemma createGroupsJson_plan:
  assumes "\<forall>fh. \<not> CreateFails env fh" and "\<forall>n. \<not> WriteFails env n"
    and "complete_run listing"
    and "list_all2 ingested (concat (map Records listing)) plan"
  shows "createGroupsJson env (length es) token
           \<lparr>Pending = map page_response (listing @ concat (map pages_of plan)) @ rest, Sent = s,
            Entries = es @ [created name []], Closed = c\<rparr>
      = (Return None,
         \<lparr>Pending = rest,
          Sent = s @ map (list_request token) (cursors listing) @ concat (map (requests_of token) plan),
          Entries = es @ created name [Encoded (concat (map Records listing))]
                       # concat (map entries_of plan),
          Closed = c\<rparr>)"
proof -
  let ?after = "map page_response (concat (map pages_of plan)) @ rest"
  let ?g = "created name [Encoded (concat (map Records listing))]"
  have l: "list_loop token [] []
       \<lparr>Pending = map page_response listing @ ?after, Sent = s, Entries = es @ [created name []],
        Closed = c\<rparr>
      = (Some (Inr ([] @ concat (map Records listing))),
         \<lparr>Pending = ?after, Sent = s @ map (list_request token) (cursors listing),
          Entries = es @ [created name []], Closed = c\<rparr>)"
    by (rule list_loop_run [OF assms(3)])
  have r: "channels_range env token (concat (map Records listing))
       \<lparr>Pending = ?after, Sent = s @ map (list_request token) (cursors listing),
        Entries = es @ [?g], Closed = c\<rparr>
      = (Return None,
         \<lparr>Pending = rest,
          Sent = (s @ map (list_request token) (cursors listing)) @ concat (map (requests_of token) plan),
          Entries = (es @ [?g]) @ concat (map entries_of plan), Closed = c\<rparr>)"
    by (rule channels_range_plan [OF assms(1,2,4)])
  from l r assms(2) show ?thesis
    by (simp add: createGroupsJson_def fetchPrivateChannelsList_def encode_def write_chunk_def
        created_def)
qed

lemma fetchPrivateChannels_plan:
  assumes "''groups.json'' \<notin> set (map (\<lambda>file. Name (FileHeader file)) files)"
    and "list_all readable files"
    and "\<forall>fh. \<not> CreateFails env fh" and "\<forall>n. \<not> WriteFails env n" and "\<not> OutputFails env"
    and "complete_run listing"
    and "list_all2 ingested (concat (map Records listing)) plan"
  shows "\<exists>new. fetchPrivateChannels env token (Some files)
                 (map page_response (listing @ concat (map pages_of plan)) @ rest)
           = (Return None,
              \<lparr>Pending = rest,
               Sent = map (list_request token) (cursors listing)
                        @ concat (map (requests_of token) plan),
               Entries = new @ created ''groups.json'' [Encoded (concat (map Records listing))]
                           # concat (map entries_of plan),
               Closed = \<not> CloseFails env\<rparr>)
         \<and> list_all2 copied files new"
proof -
  let ?script = "map page_response (listing @ concat (map pages_of plan)) @ rest"
  let ?start = "\<lparr>Pending = ?script, Sent = [], Entries = [], Closed = False\<rparr>"
  from copy_files_ok [OF assms(3,4,2)] obtain g w1 where cp: "copy_files env files False ?start = (Inr g, w1)"
    by blast
  from copy_files_Entries [OF cp] obtain new where new: "Entries w1 = new"
    "list_all2 copied files new"
    "g = (''groups.json'' \<in> set (map (\<lambda>file. Name (FileHeader file)) files))"
    "Pending w1 = ?script" "Sent w1 = []" "Closed w1 = False"
    by auto
  then have w1: "w1 = \<lparr>Pending = ?script, Sent = [], Entries = new, Closed = False\<rparr>"
    by (cases w1) simp
  from new(3) assms(1) have g: "\<not> g" by simp
  have cg: "createGroupsJson env (length new) token
       \<lparr>Pending = ?script, Sent = [], Entries = new @ [created ''groups.json'' []], Closed = False\<rparr>
     = (Return None,
        \<lparr>Pending = rest,
         Sent = [] @ map (list_request token) (cursors listing) @ concat (map (requests_of token) plan),
         Entries = new @ created ''groups.json'' [Encoded (concat (map Records listing))]
                     # concat (map entries_of plan),
         Closed = False\<rparr>)"
    by (rule createGroupsJson_plan [OF assms(3,4,6,7)])
  from assms(3,5) cp g cg have "fetchPrivateChannels env token (Some files) ?script
           = (Return None,
              \<lparr>Pending = rest,
               Sent = map (list_request token) (cursors listing)
                        @ concat (map (requests_of token) plan),
               Entries = new @ created ''groups.json'' [Encoded (concat (map Records listing))]
                           # concat (map entries_of plan),
               Closed = \<not> CloseFails env\<rparr>)"
    by (simp add: fetchPrivateChannels_def w1 zip_Create_created zip_Close_def)
  with new(2) show ?thesis by blast
qed

section \<open>Names of entries\<close>

lemma messages_json_not_replies_json:
  "n @ ''/messages.json'' \<noteq> m @ ''/replies.json''"
proof
  assume "n @ ''/messages.json'' = m @ ''/replies.json''"
  then have "rev (n @ ''/messages.json'') = rev (m @ ''/replies.json'')"
    by (rule arg_cong)
  then show False by simp
qed

lemma messages_json_not_groups_json:
  "n @ ''/messages.json'' \<noteq> ''groups.json''"
proof
  assume "n @ ''/messages.json'' = ''groups.json''"
  then have "length (n @ ''/messages.json'') = length ''groups.json''"
    by (rule arg_cong)
  then show False by simp
qed

lemma replies_json_not_groups_json:
  "n @ ''/replies.json'' \<noteq> ''groups.json''"
proof
  assume "n @ ''/replies.json'' = ''groups.json''"
  then have "length (n @ ''/replies.json'') = length ''groups.json''"
    by (rule arg_cong)
  then show False by simp
qed

lemma filter_groups_entries_of:
  "filter (\<lambda>e. Name (Header e) = ''groups.json'') (concat (map entries_of plan)) = []"
  by (induction plan)
     (auto simp: entries_of_def created_def messages_json_not_groups_json replies_json_not_groups_json)

lemma filter_other_entries_of:
  "name \<notin> ChannelName ` set plan \<Longrightarrow>
   filter (\<lambda>e. Name (Header e) = name @ ''/messages.json'') (concat (map entries_of plan)) = []
   \<and> filter (\<lambda>e. Name (Header e) = name @ ''/replies.json'') (concat (map entries_of plan)) = []"
  by (induction plan)
     (auto simp: entries_of_def created_def messages_json_not_replies_json
        messages_json_not_replies_json [symmetric])

lemma filter_entries_of:
  "distinct (map ChannelName plan) \<Longrightarrow> x \<in> set plan \<Longrightarrow>
   filter (\<lambda>e. Name (Header e) = ChannelName x @ ''/messages.json'') (concat (map entries_of plan))
     = [created (ChannelName x @ ''/messages.json'') [Encoded (messages_of x)]]
   \<and> filter (\<lambda>e. Name (Header e) = ChannelName x @ ''/replies.json'') (concat (map entries_of plan))
     = [created (ChannelName x @ ''/replies.json'') [Encoded (replies_of x)]]"
proof (induction plan)
  case Nil
  then show ?case by simp
next
  case (Cons y plan)
  show ?case
  proof (cases "x = y")
    case True
    with Cons.prems have "ChannelName x \<notin> ChannelName ` set plan" by auto
    from filter_other_entries_of [OF this] True show ?thesis
      by (auto simp: entries_of_def [of y] created_def messages_json_not_replies_json
          messages_json_not_replies_json [symmetric])
  next
    case False
    with Cons.prems have mem: "x \<in> set plan" and d: "distinct (map ChannelName plan)"
      by auto
    from mem Cons.prems have "ChannelName y \<noteq> ChannelName x" by force
    with Cons.IH [OF d mem] show ?thesis
      by (auto simp: entries_of_def [of y] created_def messages_json_not_replies_json
          messages_json_not_replies_json [symmetric])
  qed
qed

text \<open>
  Claim C4, as amended. Let the input archive have no entry named \<^verbatim>\<open>groups.json\<close>,
  let no operation on the archives fail, and let every remote fetch succeed: the
  remote side serves a complete run of pages for the listing and then, for each listed
  channel in turn, which has a string \<open>id\<close> and a string \<open>name\<close>, a complete run of
  pages of typed messages for its history and a complete run of pages for the replies
  to each thread parent of this history. Let the names of the channels be pairwise
  distinct, and let no file of the input archive be named like the messages or replies
  entry of a channel. Then the command returns nil and closes the output archive. It
  has consumed these pages and no other response, and the requests it has sent are
  those of the listing and then, channel after channel, the requests for the history,
  each with the identifier of the channel, and the requests for the replies, each with
  the identifier of the channel and the thread parent: what is written for a channel
  was served for this channel. After the copies of the input files, the output
  archive holds the entry \<^verbatim>\<open>groups.json\<close> with the encoded listing and then, for each
  channel in the order of the listing, the entry \<^verbatim>\<open>name/messages.json\<close> with its
  encoded history and the entry \<^verbatim>\<open>name/replies.json\<close> with its encoded replies, and
  nothing else. Exactly one entry is named \<^verbatim>\<open>groups.json\<close>, and for each channel
  exactly one entry has the name of its messages entry and exactly one the name of its
  replies entry.
\<close>

theorem synthesized_entries:
  assumes "''groups.json'' \<notin> set (map (\<lambda>file. Name (FileHeader file)) files)"
    and "list_all readable files"
    and "\<forall>fh. \<not> CreateFails env fh" and "\<forall>n. \<not> WriteFails env n" and "\<not> OutputFails env"
    and "complete_run listing"
    and "list_all2 ingested (concat (map Records listing)) plan"
    and "script = map page_response (listing @ concat (map pages_of plan)) @ rest"
    and "distinct (map ChannelName plan)"
    and "\<forall>file\<in>set files. \<forall>x\<in>set plan.
           Name (FileHeader file) \<noteq> ChannelName x @ ''/messages.json''
           \<and> Name (FileHeader file) \<noteq> ChannelName x @ ''/replies.json''"
  shows "fst (fetchPrivateChannels env token (Some files) script) = Return None
       \<and> Pending (snd (fetchPrivateChannels env token (Some files) script)) = rest
       \<and> Sent (snd (fetchPrivateChannels env token (Some files) script))
           = map (list_request token) (cursors listing) @ concat (map (requests_of token) plan)
       \<and> Closed (snd (fetchPrivateChannels env token (Some files) script)) = (\<not> CloseFails env)
       \<and> list_all2 copied files (take (length files) (Entries (snd (fetchPrivateChannels env token (Some files) script))))
       \<and> drop (length files) (Entries (snd (fetchPrivateChannels env token (Some files) script)))
           = created ''groups.json'' [Encoded (concat (map Records listing))]
               # concat (map entries_of plan)
       \<and> filter (\<lambda>e. Name (Header e) = ''groups.json'') (Entries (snd (fetchPrivateChannels env token (Some files) script)))
           = [created ''groups.json'' [Encoded (concat (map Records listing))]]
       \<and> (\<forall>x\<in>set plan.
             filter (\<lambda>e. Name (Header e) = ChannelName x @ ''/messages.json'') (Entries (snd (fetchPrivateChannels env token (Some files) script)))
               = [created (ChannelName x @ ''/messages.json'') [Encoded (messages_of x)]]
           \<and> filter (\<lambda>e. Name (Header e) = ChannelName x @ ''/replies.json'') (Entries (snd (fetchPrivateChannels env token (Some files) script)))
               = [created (ChannelName x @ ''/replies.json'') [Encoded (replies_of x)]])"
proof -
  let ?channels = "concat (map Records listing)"
  from fetchPrivateChannels_plan [OF assms(1-7), of token rest] assms(8) obtain new where
    run: "fetchPrivateChannels env token (Some files) script
           = (Return None,
              \<lparr>Pending = rest,
               Sent = map (list_request token) (cursors listing)
                        @ concat (map (requests_of token) plan),
               Entries = new @ created ''groups.json'' [Encoded ?channels]
                           # concat (map entries_of plan),
               Closed = \<not> CloseFails env\<rparr>)"
    and copies: "list_all2 copied files new"
    by auto
  let ?es = "new @ created ''groups.json'' [Encoded ?channels] # concat (map entries_of plan)"
  from copies have names: "map (\<lambda>e. Name (Header e)) new = map (\<lambda>file. Name (FileHeader file)) files"
    by (induction files new rule: list_all2_induct) (simp_all add: copied_def)
  from names have len: "length new = length files"
    by (rule map_eq_imp_length_eq)
  have in_new: "\<exists>f\<in>set files. Name (Header e) = Name (FileHeader f)" if "e \<in> set new" for e
  proof -
    from that have "Name (Header e) \<in> set (map (\<lambda>e. Name (Header e)) new)" by simp
    with names have "Name (Header e) \<in> set (map (\<lambda>file. Name (FileHeader file)) files)" by simp
    then show ?thesis by auto
  qed
  have not_groups: "Name (Header e) \<noteq> ''groups.json''" if "e \<in> set new" for e
  proof
    assume eq: "Name (Header e) = ''groups.json''"
    from in_new [OF that] obtain f where "f \<in> set files" "Name (Header e) = Name (FileHeader f)"
      by blast
    with eq assms(1) show False by force
  qed
  then have new_groups: "filter (\<lambda>e. Name (Header e) = ''groups.json'') new = []"
    by (simp add: filter_empty_conv)
  have new_channel: "filter (\<lambda>e. Name (Header e) = ChannelName x @ ''/messages.json'') new = []
      \<and> filter (\<lambda>e. Name (Header e) = ChannelName x @ ''/replies.json'') new = []"
    if x: "x \<in> set plan" for x
  proof -
    have "Name (Header e) \<noteq> ChannelName x @ ''/messages.json''
        \<and> Name (Header e) \<noteq> ChannelName x @ ''/replies.json''"
      if "e \<in> set new" for e
    proof -
      from in_new [OF that] obtain f where f: "f \<in> set files"
        "Name (Header e) = Name (FileHeader f)"
        by blast
      from assms(10) f(1) x
      have "Name (FileHeader f) \<noteq> ChannelName x @ ''/messages.json''
           \<and> Name (FileHeader f) \<noteq> ChannelName x @ ''/replies.json''"
        by blast
      with f(2) show ?thesis by simp
    qed
    then show ?thesis by (simp add: filter_empty_conv)
  qed
  have groups: "filter (\<lambda>e. Name (Header e) = ''groups.json'') ?es
      = [created ''groups.json'' [Encoded ?channels]]"
    using new_groups filter_groups_entries_of [of plan] by (simp add: created_def)
  have per_channel: "filter (\<lambda>e. Name (Header e) = ChannelName x @ ''/messages.json'') ?es
        = [created (ChannelName x @ ''/messages.json'') [Encoded (messages_of x)]]
      \<and> filter (\<lambda>e. Name (Header e) = ChannelName x @ ''/replies.json'') ?es
        = [created (ChannelName x @ ''/replies.json'') [Encoded (replies_of x)]]"
    if mem: "x \<in> set plan" for x
    using new_channel [OF mem] filter_entries_of [OF assms(9) mem]
    by (simp add: created_def messages_json_not_groups_json [symmetric]
          replies_json_not_groups_json [symmetric])
  have ents: "Entries (snd (fetchPrivateChannels env token (Some files) script)) = ?es"
    and ret: "fst (fetchPrivateChannels env token (Some files) script) = Return None"
    and pend: "Pending (snd (fetchPrivateChannels env token (Some files) script)) = rest"
    and sent: "Sent (snd (fetchPrivateChannels env token (Some files) script))
           = map (list_request token) (cursors listing) @ concat (map (requests_of token) plan)"
    and closed: "Closed (snd (fetchPrivateChannels env token (Some files) script)) = (\<not> CloseFails env)"
    using run by simp_all
  have tk: "list_all2 copied files (take (length files) ?es)"
    using len copies by simp
  have dr: "drop (length files) ?es
      = created ''groups.json'' [Encoded ?channels] # concat (map entries_of plan)"
    using len by simp
  have all: "\<forall>x\<in>set plan.
             filter (\<lambda>e. Name (Header e) = ChannelName x @ ''/messages.json'') ?es
               = [created (ChannelName x @ ''/messages.json'') [Encoded (messages_of x)]]
           \<and> filter (\<lambda>e. Name (Header e) = ChannelName x @ ''/replies.json'') ?es
               = [created (ChannelName x @ ''/replies.json'') [Encoded (replies_of x)]]"
    using per_channel by blast
  show ?thesis
    unfolding ents using ret pend sent closed tk dr groups all by (intro conjI)
qed

theorem synthesized_entries_witness:
  "fst (fetchPrivateChannels
        \<lparr>CreateFails = (\<lambda>n. False), WriteFails = (\<lambda>n. False), OutputFails = False, CloseFails = False\<rparr>
        ''t''
        (Some [\<lparr>FileHeader =
                \<lparr>Name = ''users.json'', Comment = [], NonUTF8 = False, CreatorVersion = 20,
                 ReaderVersion = 20, Flags = 0, Method = 8, Modified = None,
                 ModifiedTime = 0, ModifiedDate = 0, Extra = [], ExternalAttrs = 0\<rparr>,
              Open = Some \<lparr>Delivered = [91, 93], ReadError = False\<rparr>\<rparr>])
        [page_response \<lparr>Ok = True, Records = [[''id'' \<mapsto> JStr ''C1'', ''name'' \<mapsto> JStr ''proj'']], NextCursor = []\<rparr>,
         page_response \<lparr>Ok = True, Records = [[''ts'' \<mapsto> JStr ''1.0'', ''reply_count'' \<mapsto> JNum 2], [''ts'' \<mapsto> JStr ''2.0'']], NextCursor = []\<rparr>,
         page_response \<lparr>Ok = True, Records = [[''text'' \<mapsto> JStr ''a'']], NextCursor = ''n''\<rparr>,
         page_response \<lparr>Ok = True, Records = [[''text'' \<mapsto> JStr ''b'']], NextCursor = []\<rparr>]) = Return None
   \<and> Sent (snd (fetchPrivateChannels
        \<lparr>CreateFails = (\<lambda>n. False), WriteFails = (\<lambda>n. False), OutputFails = False, CloseFails = False\<rparr>
        ''t''
        (Some [\<lparr>FileHeader =
                \<lparr>Name = ''users.json'', Comment = [], NonUTF8 = False, CreatorVersion = 20,
                 ReaderVersion = 20, Flags = 0, Method = 8, Modified = None,
                 ModifiedTime = 0, ModifiedDate = 0, Extra = [], ExternalAttrs = 0\<rparr>,
              Open = Some \<lparr>Delivered = [91, 93], ReadError = False\<rparr>\<rparr>])
        [page_response \<lparr>Ok = True, Records = [[''id'' \<mapsto> JStr ''C1'', ''name'' \<mapsto> JStr ''proj'']], NextCursor = []\<rparr>,
         page_response \<lparr>Ok = True, Records = [[''ts'' \<mapsto> JStr ''1.0'', ''reply_count'' \<mapsto> JNum 2], [''ts'' \<mapsto> JStr ''2.0'']], NextCursor = []\<rparr>,
         page_response \<lparr>Ok = True, Records = [[''text'' \<mapsto> JStr ''a'']], NextCursor = ''n''\<rparr>,
         page_response \<lparr>Ok = True, Records = [[''text'' \<mapsto> JStr ''b'']], NextCursor = []\<rparr>]))
       = [list_request ''t'' [], history_request ''t'' ''C1'' [],
          replies_request ''t'' ''C1'' ''1.0'' [], replies_request ''t'' ''C1'' ''1.0'' ''n'']
   \<and> Pending (snd (fetchPrivateChannels
        \<lparr>CreateFails = (\<lambda>n. False), WriteFails = (\<lambda>n. False), OutputFails = False, CloseFails = False\<rparr>
        ''t''
        (Some [\<lparr>FileHeader =
                \<lparr>Name = ''users.json'', Comment = [], NonUTF8 = False, CreatorVersion = 20,
                 ReaderVersion = 20, Flags = 0, Method = 8, Modified = None,
                 ModifiedTime = 0, ModifiedDate = 0, Extra = [], ExternalAttrs = 0\<rparr>,
              Open = Some \<lparr>Delivered = [91, 93], ReadError = False\<rparr>\<rparr>])
        [page_response \<lparr>Ok = True, Records = [[''id'' \<mapsto> JStr ''C1'', ''name'' \<mapsto> JStr ''proj'']], NextCursor = []\<rparr>,
         page_response \<lparr>Ok = True, Records = [[''ts'' \<mapsto> JStr ''1.0'', ''reply_count'' \<mapsto> JNum 2], [''ts'' \<mapsto> JStr ''2.0'']], NextCursor = []\<rparr>,
         page_response \<lparr>Ok = True, Records = [[''text'' \<mapsto> JStr ''a'']], NextCursor = ''n''\<rparr>,
         page_response \<lparr>Ok = True, Records = [[''text'' \<mapsto> JStr ''b'']], NextCursor = []\<rparr>])) = []
   \<and> Closed (snd (fetchPrivateChannels
        \<lparr>CreateFails = (\<lambda>n. False), WriteFails = (\<lambda>n. False), OutputFails = False, CloseFails = False\<rparr>
        ''t''
        (Some [\<lparr>FileHeader =
                \<lparr>Name = ''users.json'', Comment = [], NonUTF8 = False, CreatorVersion = 20,
                 ReaderVersion = 20, Flags = 0, Method = 8, Modified = None,
                 ModifiedTime = 0, ModifiedDate = 0, Extra = [], ExternalAttrs = 0\<rparr>,
              Open = Some \<lparr>Delivered = [91, 93], ReadError = False\<rparr>\<rparr>])
        [page_response \<lparr>Ok = True, Records = [[''id'' \<mapsto> JStr ''C1'', ''name'' \<mapsto> JStr ''proj'']], NextCursor = []\<rparr>,
         page_response \<lparr>Ok = True, Records = [[''ts'' \<mapsto> JStr ''1.0'', ''reply_count'' \<mapsto> JNum 2], [''ts'' \<mapsto> JStr ''2.0'']], NextCursor = []\<rparr>,
         page_response \<lparr>Ok = True, Records = [[''text'' \<mapsto> JStr ''a'']], NextCursor = ''n''\<rparr>,
         page_response \<lparr>Ok = True, Records = [[''text'' \<mapsto> JStr ''b'']], NextCursor = []\<rparr>]))
   \<and> drop 1 (Entries (snd (fetchPrivateChannels
        \<lparr>CreateFails = (\<lambda>n. False), WriteFails = (\<lambda>n. False), OutputFails = False, CloseFails = False\<rparr>
        ''t''
        (Some [\<lparr>FileHeader =
                \<lparr>Name = ''users.json'', Comment = [], NonUTF8 = False, CreatorVersion = 20,
                 ReaderVersion = 20, Flags = 0, Method = 8, Modified = None,
                 ModifiedTime = 0, ModifiedDate = 0, Extra = [], ExternalAttrs = 0\<rparr>,
              Open = Some \<lparr>Delivered = [91, 93], ReadError = False\<rparr>\<rparr>])
        [page_response \<lparr>Ok = True, Records = [[''id'' \<mapsto> JStr ''C1'', ''name'' \<mapsto> JStr ''proj'']], NextCursor = []\<rparr>,
         page_response \<lparr>Ok = True, Records = [[''ts'' \<mapsto> JStr ''1.0'', ''reply_count'' \<mapsto> JNum 2], [''ts'' \<mapsto> JStr ''2.0'']], NextCursor = []\<rparr>,
         page_response \<lparr>Ok = True, Records = [[''text'' \<mapsto> JStr ''a'']], NextCursor = ''n''\<rparr>,
         page_response \<lparr>Ok = True, Records = [[''text'' \<mapsto> JStr ''b'']], NextCursor = []\<rparr>])))
       = [created ''groups.json'' [Encoded [[''id'' \<mapsto> JStr ''C1'', ''name'' \<mapsto> JStr ''proj'']]],
          created ''proj/messages.json'' [Encoded [[''ts'' \<mapsto> JStr ''1.0'', ''reply_count'' \<mapsto> JNum 2], [''ts'' \<mapsto> JStr ''2.0'']]],
          created ''proj/replies.json'' [Encoded [[''text'' \<mapsto> JStr ''a''], [''text'' \<mapsto> JStr ''b'']]]]
   \<and> filter (\<lambda>e. Name (Header e) = ''proj/messages.json'') (Entries (snd (fetchPrivateChannels
        \<lparr>CreateFails = (\<lambda>n. False), WriteFails = (\<lambda>n. False), OutputFails = False, CloseFails = False\<rparr>
        ''t''
        (Some [\<lparr>FileHeader =
                \<lparr>Name = ''users.json'', Comment = [], NonUTF8 = False, CreatorVersion = 20,
                 ReaderVersion = 20, Flags = 0, Method = 8, Modified = None,
                 ModifiedTime = 0, ModifiedDate = 0, Extra = [], ExternalAttrs = 0\<rparr>,
              Open = Some \<lparr>Delivered = [91, 93], ReadError = False\<rparr>\<rparr>])
        [page_response \<lparr>Ok = True, Records = [[''id'' \<mapsto> JStr ''C1'', ''name'' \<mapsto> JStr ''proj'']], NextCursor = []\<rparr>,
         page_response \<lparr>Ok = True, Records = [[''ts'' \<mapsto> JStr ''1.0'', ''reply_count'' \<mapsto> JNum 2], [''ts'' \<mapsto> JStr ''2.0'']], NextCursor = []\<rparr>,
         page_response \<lparr>Ok = True, Records = [[''text'' \<mapsto> JStr ''a'']], NextCursor = ''n''\<rparr>,
         page_response \<lparr>Ok = True, Records = [[''text'' \<mapsto> JStr ''b'']], NextCursor = []\<rparr>])))
       = [created ''proj/messages.json'' [Encoded [[''ts'' \<mapsto> JStr ''1.0'', ''reply_count'' \<mapsto> JNum 2], [''ts'' \<mapsto> JStr ''2.0'']]]]
   \<and> filter (\<lambda>e. Name (Header e) = ''proj/replies.json'') (Entries (snd (fetchPrivateChannels
        \<lparr>CreateFails = (\<lambda>n. False), WriteFails = (\<lambda>n. False), OutputFails = False, CloseFails = False\<rparr>
        ''t''
        (Some [\<lparr>FileHeader =
                \<lparr>Name = ''users.json'', Comment = [], NonUTF8 = False, CreatorVersion = 20,
                 ReaderVersion = 20, Flags = 0, Method = 8, Modified = None,
                 ModifiedTime = 0, ModifiedDate = 0, Extra = [], ExternalAttrs = 0\<rparr>,
              Open = Some \<lparr>Delivered = [91, 93], ReadError = False\<rparr>\<rparr>])
        [page_response \<lparr>Ok = True, Records = [[''id'' \<mapsto> JStr ''C1'', ''name'' \<mapsto> JStr ''proj'']], NextCursor = []\<rparr>,
         page_response \<lparr>Ok = True, Records = [[''ts'' \<mapsto> JStr ''1.0'', ''reply_count'' \<mapsto> JNum 2], [''ts'' \<mapsto> JStr ''2.0'']], NextCursor = []\<rparr>,
         page_response \<lparr>Ok = True, Records = [[''text'' \<mapsto> JStr ''a'']], NextCursor = ''n''\<rparr>,
         page_response \<lparr>Ok = True, Records = [[''text'' \<mapsto> JStr ''b'']], NextCursor = []\<rparr>])))
       = [created ''proj/replies.json'' [Encoded [[''text'' \<mapsto> JStr ''a''], [''text'' \<mapsto> JStr ''b'']]]]"
proof -
  let ?env = "\<lparr>CreateFails = (\<lambda>n. False), WriteFails = (\<lambda>n. False), OutputFails = False, CloseFails = False\<rparr>"
  let ?files = "[\<lparr>FileHeader =
                \<lparr>Name = ''users.json'', Comment = [], NonUTF8 = False, CreatorVersion = 20,
                 ReaderVersion = 20, Flags = 0, Method = 8, Modified = None,
                 ModifiedTime = 0, ModifiedDate = 0, Extra = [], ExternalAttrs = 0\<rparr>,
              Open = Some \<lparr>Delivered = [91, 93], ReadError = False\<rparr>\<rparr>]"
  let ?listing = "[\<lparr>Ok = True, Records = [[''id'' \<mapsto> JStr ''C1'', ''name'' \<mapsto> JStr ''proj'']], NextCursor = []\<rparr>]"
  let ?plan = "[\<lparr>ChannelId = ''C1'', ChannelName = ''proj'',
                 History = [\<lparr>Ok = True, Records = [[''ts'' \<mapsto> JStr ''1.0'', ''reply_count'' \<mapsto> JNum 2], [''ts'' \<mapsto> JStr ''2.0'']], NextCursor = []\<rparr>],
                 Replies = [[\<lparr>Ok = True, Records = [[''text'' \<mapsto> JStr ''a'']], NextCursor = ''n''\<rparr>,
                             \<lparr>Ok = True, Records = [[''text'' \<mapsto> JStr ''b'']], NextCursor = []\<rparr>]]\<rparr>]"
  let ?script = "[page_response \<lparr>Ok = True, Records = [[''id'' \<mapsto> JStr ''C1'', ''name'' \<mapsto> JStr ''proj'']], NextCursor = []\<rparr>,
         page_response \<lparr>Ok = True, Records = [[''ts'' \<mapsto> JStr ''1.0'', ''reply_count'' \<mapsto> JNum 2], [''ts'' \<mapsto> JStr ''2.0'']], NextCursor = []\<rparr>,
         page_response \<lparr>Ok = True, Records = [[''text'' \<mapsto> JStr ''a'']], NextCursor = ''n''\<rparr>,
         page_response \<lparr>Ok = True, Records = [[''text'' \<mapsto> JStr ''b'']], NextCursor = []\<rparr>]"
  have h1: "''groups.json'' \<notin> set (map (\<lambda>file. Name (FileHeader file)) ?files)" by simp
  have h2: "list_all readable ?files" by (simp add: readable_def is_directory_def)
  have h3: "\<forall>fh. \<not> CreateFails ?env fh" by simp
  have h4: "\<forall>n. \<not> WriteFails ?env n" by simp
  have h5: "\<not> OutputFails ?env" by simp
  have h6: "complete_run ?listing" by simp
  have h7: "list_all2 ingested (concat (map Records ?listing)) ?plan"
    by (simp add: ingested_def messages_of_def message_typed_def thread_parents_def
        List.map_filter_simps)
  have h8: "?script = map page_response (?listing @ concat (map pages_of ?plan)) @ []"
    by (simp add: pages_of_def)
  have h9: "distinct (map ChannelName ?plan)" by simp
  have h10: "\<forall>file\<in>set ?files. \<forall>x\<in>set ?plan.
           Name (FileHeader file) \<noteq> ChannelName x @ ''/messages.json''
           \<and> Name (FileHeader file) \<noteq> ChannelName x @ ''/replies.json''" by simp
  from synthesized_entries [OF h1 h2 h3 h4 h5 h6 h7 h8 h9 h10, of "''t''"] show ?thesis
    by (simp add: cursors_def requests_of_def entries_of_def messages_of_def replies_of_def
        thread_parents_def List.map_filter_simps)
qed

text \<open>
  The claim C4 as it is stated fails when two listed channels have the same name: every
  fetch succeeds, and the output archive has two entries named \<^verbatim>\<open>a/messages.json\<close>,
  one for each of the two channels. It fails as well when the input archive, which has
  no \<^verbatim>\<open>groups.json\<close>, already has an entry with the name of a channel's messages
  entry: the copy and the synthesized entry have the same name.
\<close>

theorem same_channel_name_counterexample:
  "fetchPrivateChannels
     \<lparr>CreateFails = (\<lambda>n. False), WriteFails = (\<lambda>n. False), OutputFails = False, CloseFails = False\<rparr>
     ''t'' (Some [])
     [page_response \<lparr>Ok = True,
         Records = [[''id'' \<mapsto> JStr ''C1'', ''name'' \<mapsto> JStr ''a''],
                    [''id'' \<mapsto> JStr ''C2'', ''name'' \<mapsto> JStr ''a'']],
         NextCursor = []\<rparr>,
      page_response \<lparr>Ok = True, Records = [[''ts'' \<mapsto> JStr ''1.0'']], NextCursor = []\<rparr>,
      page_response \<lparr>Ok = True, Records = [[''ts'' \<mapsto> JStr ''2.0'']], NextCursor = []\<rparr>]
   = (Return None,
      \<lparr>Pending = [],
       Sent = [list_request ''t'' [], history_request ''t'' ''C1'' [], history_request ''t'' ''C2'' []],
       Entries = [created ''groups.json''
                    [Encoded [[''id'' \<mapsto> JStr ''C1'', ''name'' \<mapsto> JStr ''a''],
                              [''id'' \<mapsto> JStr ''C2'', ''name'' \<mapsto> JStr ''a'']]],
                  created ''a/messages.json'' [Encoded [[''ts'' \<mapsto> JStr ''1.0'']]],
                  created ''a/replies.json'' [Encoded []],
                  created ''a/messages.json'' [Encoded [[''ts'' \<mapsto> JStr ''2.0'']]],
                  created ''a/replies.json'' [Encoded []]],
       Closed = True\<rparr>)
   \<and> length (filter (\<lambda>e. Name (Header e) = ''a/messages.json'')
       [created ''groups.json''
                    [Encoded [[''id'' \<mapsto> JStr ''C1'', ''name'' \<mapsto> JStr ''a''],
                              [''id'' \<mapsto> JStr ''C2'', ''name'' \<mapsto> JStr ''a'']]],
                  created ''a/messages.json'' [Encoded [[''ts'' \<mapsto> JStr ''1.0'']]],
                  created ''a/replies.json'' [Encoded []],
                  created ''a/messages.json'' [Encoded [[''ts'' \<mapsto> JStr ''2.0'']]],
                  created ''a/replies.json'' [Encoded []]]) = 2
   \<and> fetchPrivateChannels
     \<lparr>CreateFails = (\<lambda>n. False), WriteFails = (\<lambda>n. False), OutputFails = False, CloseFails = False\<rparr>
     ''t''
     (Some [\<lparr>FileHeader =
               \<lparr>Name = ''a/messages.json'', Comment = [], NonUTF8 = False, CreatorVersion = 20,
                ReaderVersion = 20, Flags = 0, Method = 8, Modified = None,
                ModifiedTime = 0, ModifiedDate = 0, Extra = [], ExternalAttrs = 0\<rparr>,
             Open = Some \<lparr>Delivered = [91, 93], ReadError = False\<rparr>\<rparr>])
     [page_response \<lparr>Ok = True,
         Records = [[''id'' \<mapsto> JStr ''C1'', ''name'' \<mapsto> JStr ''a'']],
         NextCursor = []\<rparr>,
      page_response \<lparr>Ok = True, Records = [[''ts'' \<mapsto> JStr ''1.0'']], NextCursor = []\<rparr>]
   = (Return None,
      \<lparr>Pending = [],
       Sent = [list_request ''t'' [], history_request ''t'' ''C1'' []],
       Entries = [\<lparr>Header = written_header
               \<lparr>Name = ''a/messages.json'', Comment = [], NonUTF8 = False, CreatorVersion = 20,
                ReaderVersion = 20, Flags = 0, Method = 8, Modified = None,
                ModifiedTime = 0, ModifiedDate = 0, Extra = [], ExternalAttrs = 0\<rparr>,
                   Body = [Bytes [91, 93]]\<rparr>,
                  created ''groups.json'' [Encoded [[''id'' \<mapsto> JStr ''C1'', ''name'' \<mapsto> JStr ''a'']]],
                  created ''a/messages.json'' [Encoded [[''ts'' \<mapsto> JStr ''1.0'']]],
                  created ''a/replies.json'' [Encoded []]],
       Closed = True\<rparr>)
   \<and> length (filter (\<lambda>e. Name (Header e) = ''a/messages.json'')
       [\<lparr>Header = written_header
               \<lparr>Name = ''a/messages.json'', Comment = [], NonUTF8 = False, CreatorVersion = 20,
                ReaderVersion = 20, Flags = 0, Method = 8, Modified = None,
                ModifiedTime = 0, ModifiedDate = 0, Extra = [], ExternalAttrs = 0\<rparr>,
                   Body = [Bytes [91, 93]]\<rparr>,
                  created ''groups.json'' [Encoded [[''id'' \<mapsto> JStr ''C1'', ''name'' \<mapsto> JStr ''a'']]],
                  created ''a/messages.json'' [Encoded [[''ts'' \<mapsto> JStr ''1.0'']]],
                  created ''a/replies.json'' [Encoded []]]) = 2"
  by (simp add: fetchPrivateChannels_def createGroupsJson_def fetchPrivateChannelsList_def
      fetchChannelHistory_def fetchChannelReplies_def list_loop_Response history_loop_Response
      page_response_def Let_def encode_def write_chunk_def zip_Create_def zip_CreateHeader_def
      zip_Close_def created_def io_Copy_def is_directory_def)

end
